(* ===== verification/Prelude.thy ===== *)
theory Prelude
  imports Main "HOL-Library.Word" "HOL-Library.List_Lexorder" "HOL-Library.AList" "HOL-Library.Code_Target_Nat"
begin

text \<open>
  The vocabulary every component of the development shares: the types of Go that the
  program uses, results with errors, slices with their bounds checks, loops that stop at the
  first error, Go maps as association lists, and byte strings read as big-endian numbers.
  \<^item> A Go error or a run-time panic is a value of \<open>go_error\<close>; a function that can fail
    returns \<open>'a res\<close>, \<open>Err\<close> on the left and \<open>Ok\<close> on the right.
  \<^item> \<open>byte\<close>, \<open>u16\<close>, \<open>u32\<close>, \<open>u64\<close> are words of their width; \<open>int32\<close> and
    \<open>int64\<close> are the same words read by \<^term>\<open>sint\<close>. \<open>big.Int\<close> is \<^typ>\<open>int\<close>.
  \<^item> A Go string that holds text is a \<^typ>\<open>string\<close>, one that holds raw bytes a \<open>bytes\<close>.
  \<^item> A Go map is an association list with distinct keys, so that iterating over it computes.
\<close>

unbundle bit_operations_syntax

section \<open>Types and errors\<close>

type_synonym byte = "8 word"
type_synonym bytes = "byte list"
type_synonym u16 = "16 word"
type_synonym u32 = "32 word"
type_synonym u64 = "64 word"
type_synonym int32 = "32 word"
type_synonym int64 = "64 word"

text \<open>
  The sentinel errors of \<open>src/bchain/types.go\<close>, any other error by its message, an error of the
  public interface with the mark whether users may see it (\<open>src/api/types.go\<close>), and a run-time
  panic of Go (index or slice bounds, nil dereference). \<open>OutOfFuel\<close> is the bound
  of a loop of the model that was reached; no run of the program returns it.
\<close>

datatype go_error =
    ErrBlockNotFound
  | ErrAddressMissing
  | ErrAddressTooLong
  | ErrTxidMissing
  | ErrTxNotFound
  | ErrMsg string
  | APIError string bool
  | Panic string
  | OutOfFuel

type_synonym 'a res = "go_error + 'a"

abbreviation Err :: "go_error \<Rightarrow> 'a res" where "Err \<equiv> Inl"
abbreviation Ok :: "'a \<Rightarrow> 'a res" where "Ok \<equiv> Inr"

definition bindR :: "'a res \<Rightarrow> ('a \<Rightarrow> 'b res) \<Rightarrow> 'b res" where
  "bindR m f = (case m of Inl e \<Rightarrow> Inl e | Inr x \<Rightarrow> f x)"

text \<open>
  \<open>x, err := m(); if err != nil { h }\<close>: an error is handled, a panic is not.
\<close>

definition catchR :: "'a res \<Rightarrow> (go_error \<Rightarrow> 'b res) \<Rightarrow> ('a \<Rightarrow> 'b res) \<Rightarrow> 'b res" where
  "catchR m h f =
     (case m of
        Inl e \<Rightarrow> (case e of Panic msg \<Rightarrow> Inl e | OutOfFuel \<Rightarrow> Inl e | _ \<Rightarrow> h e)
      | Inr x \<Rightarrow> f x)"

definition isOk :: "'a res \<Rightarrow> bool" where
  "isOk r = (case r of Inr _ \<Rightarrow> True | Inl _ \<Rightarrow> False)"

text \<open>A loop over a slice whose body may fail: it stops at the first error.\<close>

fun foldR :: "('a \<Rightarrow> 's \<Rightarrow> 's res) \<Rightarrow> 'a list \<Rightarrow> 's \<Rightarrow> 's res" where
  "foldR f [] s = Ok s"
| "foldR f (x # xs) s = bindR (f x s) (foldR f xs)"

text \<open>Building a slice element by element, each step of which may fail.\<close>

fun mapR :: "('a \<Rightarrow> 'b res) \<Rightarrow> 'a list \<Rightarrow> 'b list res" where
  "mapR f [] = Ok []"
| "mapR f (x # xs) = bindR (f x) (\<lambda>y. bindR (mapR f xs) (\<lambda>ys. Ok (y # ys)))"

text \<open>\<open>for i, x := range xs\<close>.\<close>

definition indexed :: "'a list \<Rightarrow> (nat \<times> 'a) list" where
  "indexed xs = zip [0..<length xs] xs"

section \<open>Slices\<close>

text \<open>
  \<open>buf[i]\<close>, \<open>buf[i:j]\<close> and \<open>buf[i:]\<close> of a slice whose capacity is its length: out of
  bounds they panic.
\<close>

definition indexR :: "'a list \<Rightarrow> int \<Rightarrow> 'a res" where
  "indexR xs i =
     (if 0 \<le> i \<and> i < int (length xs) then Ok (xs ! nat i) else Err (Panic ''index out of range''))"

definition sliceR :: "'a list \<Rightarrow> int \<Rightarrow> int \<Rightarrow> 'a list res" where
  "sliceR xs i j =
     (if 0 \<le> i \<and> i \<le> j \<and> j \<le> int (length xs)
      then Ok (take (nat j - nat i) (drop (nat i) xs))
      else Err (Panic ''slice bounds out of range''))"

definition sliceFromR :: "'a list \<Rightarrow> int \<Rightarrow> 'a list res" where
  "sliceFromR xs i = sliceR xs i (int (length xs))"

section \<open>Maps\<close>

type_synonym ('k, 'v) gomap = "('k \<times> 'v) list"

abbreviation mapGet :: "('k, 'v) gomap \<Rightarrow> 'k \<Rightarrow> 'v option" where
  "mapGet m k \<equiv> map_of m k"

abbreviation mapPut :: "'k \<Rightarrow> 'v \<Rightarrow> ('k, 'v) gomap \<Rightarrow> ('k, 'v) gomap" where
  "mapPut k v m \<equiv> AList.update k v m"

abbreviation mapDelete :: "'k \<Rightarrow> ('k, 'v) gomap \<Rightarrow> ('k, 'v) gomap" where
  "mapDelete k m \<equiv> AList.delete k m"

definition wfMap :: "('k, 'v) gomap \<Rightarrow> bool" where
  "wfMap m = distinct (map fst m)"

section \<open>Bytes as big-endian numbers\<close>

text \<open>\<open>big.Int.SetBytes\<close>: the number a byte string denotes, most significant byte first.\<close>

definition natOfBytes :: "bytes \<Rightarrow> nat" where
  "natOfBytes bs = foldl (\<lambda>acc b. acc * 256 + unat b) 0 bs"

text \<open>The \<open>k\<close> low bytes of a number, most significant first.\<close>

fun bytesOfNat :: "nat \<Rightarrow> nat \<Rightarrow> bytes" where
  "bytesOfNat 0 n = []"
| "bytesOfNat (Suc k) n = bytesOfNat k (n div 256) @ [of_nat n]"

text \<open>\<open>big.Int.Bytes\<close>: the shortest such byte string.\<close>

fun minBytes :: "nat \<Rightarrow> bytes" where
  "minBytes n = (if n = 0 then [] else minBytes (n div 256) @ [of_nat n])"

declare minBytes.simps [simp del]

section \<open>Lemmas\<close>

named_theorems res_simps \<open>unfolding of results and slices\<close>
named_theorems codec_simps \<open>decoding what was encoded\<close>

lemma bindR_Ok [simp, res_simps]: "bindR (Ok x) f = f x"
  by (simp add: bindR_def)

lemma bindR_Err [simp, res_simps]: "bindR (Err e) f = Err e"
  by (simp add: bindR_def)

lemma bindR_eq_Ok: "bindR m f = Ok y \<longleftrightarrow> (\<exists>x. m = Ok x \<and> f x = Ok y)"
  by (cases m) auto

lemma bindR_OkE [elim!]:
  assumes "bindR m f = Ok y"
  obtains x where "m = Ok x" "f x = Ok y"
  using assms by (auto simp: bindR_eq_Ok)

lemma bindR_cong [fundef_cong]:
  "m = m' \<Longrightarrow> (\<And>x. m' = Ok x \<Longrightarrow> f x = f' x) \<Longrightarrow> bindR m f = bindR m' f'"
  by (cases m') auto

lemma isOk_iff: "isOk r \<longleftrightarrow> (\<exists>x. r = Ok x)"
  by (cases r) (auto simp: isOk_def)

lemma catchR_Ok [simp, res_simps]: "catchR (Ok x) h f = f x"
  by (simp add: catchR_def)

lemma catchR_OkE:
  assumes "catchR m h f = Ok y"
  obtains (ok) x where "m = Ok x" "f x = Ok y" | (err) e where "m = Err e" "h e = Ok y"
  using assms by (auto simp: catchR_def split: sum.splits go_error.splits)

lemma bindR_assoc: "bindR (bindR m f) g = bindR m (\<lambda>x. bindR (f x) g)"
  by (cases m) auto

lemma foldR_append: "foldR f (xs @ ys) s = bindR (foldR f xs s) (foldR f ys)"
proof (induction xs arbitrary: s)
  case (Cons x xs)
  then have "foldR f (xs @ ys) = (\<lambda>s. bindR (foldR f xs s) (foldR f ys))"
    by (simp add: fun_eq_iff)
  then show ?case by (simp add: bindR_assoc)
qed simp

text \<open>The invariant rule of a loop that may fail.\<close>

lemma foldR_invariant:
  assumes "foldR f xs s = Ok t" "I s"
    and "\<And>x s t. x \<in> set xs \<Longrightarrow> I s \<Longrightarrow> f x s = Ok t \<Longrightarrow> I t"
  shows "I t"
  using assms
proof (induction xs arbitrary: s)
  case Nil
  then show ?case by simp
next
  case (Cons x xs)
  from Cons.prems(1) obtain s' where s': "f x s = Ok s'" "foldR f xs s' = Ok t"
    by auto
  have "I s'"
    using Cons.prems(2,3) s'(1) by (meson list.set_intros(1))
  moreover have "\<And>y s t. y \<in> set xs \<Longrightarrow> I s \<Longrightarrow> f y s = Ok t \<Longrightarrow> I t"
    using Cons.prems(3) by (meson list.set_intros(2))
  ultimately show ?case
    using Cons.IH s'(2) by blast
qed

lemma mapR_length: "mapR f xs = Ok ys \<Longrightarrow> length ys = length xs"
  by (induction xs arbitrary: ys) auto

lemma mapR_nth: "mapR f xs = Ok ys \<Longrightarrow> i < length xs \<Longrightarrow> f (xs ! i) = Ok (ys ! i)"
proof (induction xs arbitrary: ys i)
  case Nil
  then show ?case by simp
next
  case (Cons x xs)
  then show ?case by (cases i) auto
qed

lemma mapR_all_Ok: "(\<And>x. x \<in> set xs \<Longrightarrow> f x = Ok (g x)) \<Longrightarrow> mapR f xs = Ok (map g xs)"
  by (induction xs) auto

lemma length_indexed [simp]: "length (indexed xs) = length xs"
  by (simp add: indexed_def)

lemma nth_indexed [simp]: "i < length xs \<Longrightarrow> indexed xs ! i = (i, xs ! i)"
  by (simp add: indexed_def)

lemma in_set_indexed: "(i, x) \<in> set (indexed xs) \<longleftrightarrow> i < length xs \<and> xs ! i = x"
  by (auto simp: indexed_def set_zip intro!: exI [of _ i])

lemma indexed_Nil [simp]: "indexed [] = []"
  by (simp add: indexed_def)

lemma indexed_append: "indexed (xs @ [x]) = indexed xs @ [(length xs, x)]"
  by (simp add: indexed_def)

lemma map_snd_indexed [simp]: "map snd (indexed xs) = xs"
  by (simp add: indexed_def)

text \<open>Slicing what an encoder appended.\<close>

lemma sliceR_prefix [codec_simps]: "sliceR (xs @ ys) 0 (int (length xs)) = Ok xs"
  by (simp add: sliceR_def)

lemma sliceFromR_append [codec_simps]: "sliceFromR (xs @ ys) (int (length xs)) = Ok ys"
  by (simp add: sliceFromR_def sliceR_def)

lemma sliceFromR_0 [codec_simps]: "sliceFromR xs 0 = Ok xs"
  by (simp add: sliceFromR_def sliceR_def)

lemma sliceFromR_nat: "n \<le> length xs \<Longrightarrow> sliceFromR xs (int n) = Ok (drop n xs)"
  by (simp add: sliceFromR_def sliceR_def)

lemma sliceFromR_exact:
  "n = int (length xs) \<Longrightarrow> sliceFromR (xs @ ys) n = Ok ys"
  by (simp add: codec_simps)

lemma sliceR_middle:
  "i = int (length xs) \<Longrightarrow> j = int (length xs + length ys) \<Longrightarrow> sliceR (xs @ ys @ zs) i j = Ok ys"
  by (simp add: sliceR_def)

lemma indexR_Cons_0 [simp]: "indexR (x # xs) 0 = Ok x"
  by (simp add: indexR_def)

text \<open>Go maps.\<close>

lemma wfMap_Nil [simp]: "wfMap []"
  by (simp add: wfMap_def)

lemma wfMap_mapPut [simp]: "wfMap m \<Longrightarrow> wfMap (mapPut k v m)"
  by (simp add: wfMap_def distinct_update)

lemma wfMap_mapDelete [simp]: "wfMap m \<Longrightarrow> wfMap (mapDelete k m)"
  by (simp add: wfMap_def distinct_delete)

lemma mapGet_mapPut [simp]: "mapGet (mapPut k v m) = (mapGet m)(k \<mapsto> v)"
  by (rule update_conv')

lemma mapGet_mapDelete [simp]: "mapGet (mapDelete k m) = (mapGet m)(k := None)"
  by (rule delete_conv')

text \<open>Big-endian numbers.\<close>

lemma natOfBytes_Nil [simp]: "natOfBytes [] = 0"
  by (simp add: natOfBytes_def)

lemma natOfBytes_snoc [simp]: "natOfBytes (bs @ [b]) = natOfBytes bs * 256 + unat b"
  by (simp add: natOfBytes_def)

lemma natOfBytes_append: "natOfBytes (as @ bs) = natOfBytes as * 256 ^ length bs + natOfBytes bs"
proof (induction bs rule: rev_induct)
  case Nil
  then show ?case by simp
next
  case (snoc b bs)
  have "natOfBytes (as @ bs @ [b]) = natOfBytes ((as @ bs) @ [b])" by simp
  also have "\<dots> = natOfBytes (as @ bs) * 256 + unat b" by (rule natOfBytes_snoc)
  also have "\<dots> = natOfBytes as * 256 ^ length (bs @ [b]) + natOfBytes (bs @ [b])"
    by (simp add: snoc.IH algebra_simps)
  finally show ?case by simp
qed

lemma natOfBytes_Cons: "natOfBytes (b # bs) = unat b * 256 ^ length bs + natOfBytes bs"
  using natOfBytes_append [of "[b]" bs] natOfBytes_snoc [of "[]" b] by simp

lemma unat_byte_less [simp]: "unat (b :: byte) < 256"
  using unsigned_less [of b, where ?'a = nat] by simp

lemma natOfBytes_bound: "natOfBytes bs < 256 ^ length bs"
proof (induction bs rule: rev_induct)
  case Nil
  then show ?case by simp
next
  case (snoc b bs)
  have "natOfBytes bs * 256 + unat b < (natOfBytes bs + 1) * 256"
    using unat_byte_less [of b] by simp
  also have "\<dots> \<le> 256 ^ length bs * 256"
    using snoc.IH by (intro mult_right_mono) auto
  finally show ?case by (simp add: mult.commute)
qed

lemma length_bytesOfNat [simp]: "length (bytesOfNat k n) = k"
  by (induction k arbitrary: n) auto

lemma bytesOfNat_eq_Nil [simp]: "bytesOfNat k n = [] \<longleftrightarrow> k = 0"
  by (metis length_bytesOfNat length_0_conv)

lemma unat_of_nat_byte [simp]: "unat (of_nat n :: byte) = n mod 256"
  by (simp add: unat_of_nat)

lemma natOfBytes_bytesOfNat: "natOfBytes (bytesOfNat k n) = n mod 256 ^ k"
proof (induction k arbitrary: n)
  case 0
  then show ?case by simp
next
  case (Suc k)
  have "n mod 256 ^ Suc k = n div 256 mod 256 ^ k * 256 + n mod 256"
    by (simp add: mod_mult2_eq)
  then show ?case by (simp add: Suc.IH)
qed

lemma bytesOfNat_natOfBytes: "bytesOfNat (length bs) (natOfBytes bs) = bs"
proof (induction bs rule: rev_induct)
  case Nil
  then show ?case by simp
next
  case (snoc b bs)
  have "unat (of_nat (natOfBytes bs * 256 + unat b) :: byte) = unat b"
    by (simp only: unat_of_nat_byte) simp
  then have "(of_nat (natOfBytes bs * 256 + unat b) :: byte) = b"
    by (simp only: word_unat_eq_iff)
  then show ?case using snoc.IH by simp
qed

lemma natOfBytes_minBytes [simp]: "natOfBytes (minBytes n) = n"
proof (induction n rule: minBytes.induct)
  case (1 n)
  then show ?case by (cases "n = 0") (simp_all add: minBytes.simps [of 0] minBytes.simps [of n])
qed

text \<open>
  Bytes strings of one length are ordered lexicographically the way the numbers are: what
  makes a big-endian key sort by its number.
\<close>

lemma natOfBytes_inject:
  "length as = length bs \<Longrightarrow> natOfBytes as = natOfBytes bs \<longleftrightarrow> as = bs"
  using bytesOfNat_natOfBytes by metis

lemma natOfBytes_less:
  "length as = length bs \<Longrightarrow> as < bs \<longleftrightarrow> natOfBytes as < natOfBytes bs"
proof (induction as bs rule: list_induct2)
  case Nil
  then show ?case by simp
next
  case (Cons a as b bs)
  consider "a < b" | "a = b" | "b < a" by fastforce
  then show ?case
  proof cases
    case 1
    have "natOfBytes (a # as) < (unat a + 1) * 256 ^ length as"
      using natOfBytes_bound [of as] by (simp add: natOfBytes_Cons algebra_simps)
    also have "\<dots> \<le> unat b * 256 ^ length as"
      using 1 by (intro mult_right_mono) (auto simp: word_less_nat_alt)
    also have "\<dots> \<le> natOfBytes (b # bs)"
      using Cons.hyps by (simp add: natOfBytes_Cons)
    finally show ?thesis using 1 by (simp add: Cons_less_Cons)
  next
    case 2
    then show ?thesis using Cons by (simp add: Cons_less_Cons natOfBytes_Cons)
  next
    case 3
    have "natOfBytes (b # bs) < (unat b + 1) * 256 ^ length as"
      using natOfBytes_bound [of bs] Cons.hyps by (simp add: natOfBytes_Cons algebra_simps)
    also have "\<dots> \<le> unat a * 256 ^ length as"
      using 3 by (intro mult_right_mono) (auto simp: word_less_nat_alt)
    also have "\<dots> \<le> natOfBytes (a # as)"
      by (simp add: natOfBytes_Cons)
    finally show ?thesis using 3 by (auto simp: Cons_less_Cons)
  qed
qed

lemma append_less_append: "length as = length bs \<Longrightarrow> (ps @ as :: bytes) < ps @ bs \<longleftrightarrow> as < bs"
  by (induction ps) auto

end
