(* ===== verification/Codec.thy ===== *)
theory Codec
  imports Prelude
begin

text \<open>
  The byte encodings at the end of \<open>src/db/rocksdb.go\<close>: big-endian heights, variable-length
  integers, length-prefixed big integers and the keys of the address index.

  The variable-length integers come from \<open>github.com/bsm/go-vlq\<close>, which is not part of the
  repository: its four functions are the record \<open>vlq_lib\<close>, an argument of every definition
  that uses them, and the locale \<open>vlq_documented\<close> states what the program relies on. The
  locale \<open>prefix_codec\<close> is the contract all the encodings share (decoding reads back what was
  written, whatever bytes follow); lists of records are decoded once and for all inside it.
\<close>

section \<open>The vlq library\<close>

text \<open>
  \<open>vlq_PutUint V x\<close> are the bytes \<open>vlq.PutUint(buf, x)\<close> writes to the front of \<open>buf\<close>;
  \<open>vlq_Uint V buf\<close> is the value \<open>vlq.Uint(buf)\<close> reads and the number of bytes it took.
\<close>

record vlq_lib =
  vlq_PutUint :: "u64 \<Rightarrow> bytes"
  vlq_PutInt :: "int64 \<Rightarrow> bytes"
  vlq_Uint :: "bytes \<Rightarrow> u64 \<times> nat"
  vlq_Int :: "bytes \<Rightarrow> int64 \<times> nat"

section \<open>Integers\<close>

text \<open>\<open>binary.BigEndian.PutUint32\<close> and \<open>binary.BigEndian.Uint32\<close>, which panics on a short slice.\<close>

definition packUint :: "u32 \<Rightarrow> bytes" where
  "packUint i = bytesOfNat 4 (unat i)"

definition unpackUint :: "bytes \<Rightarrow> u32 res" where
  "unpackUint buf = bindR (sliceR buf 0 4) (\<lambda>b. Ok (of_nat (natOfBytes b)))"

definition packVarint32 :: "vlq_lib \<Rightarrow> int32 \<Rightarrow> bytes" where
  "packVarint32 V i = vlq_PutInt V (scast i)"

definition packVarint :: "vlq_lib \<Rightarrow> int64 \<Rightarrow> bytes" where
  "packVarint V i = vlq_PutInt V i"

definition packVaruint :: "vlq_lib \<Rightarrow> u64 \<Rightarrow> bytes" where
  "packVaruint V i = vlq_PutUint V i"

definition unpackVarint32 :: "vlq_lib \<Rightarrow> bytes \<Rightarrow> int32 \<times> nat" where
  "unpackVarint32 V buf = (let (i, ofs) = vlq_Int V buf in (scast i, ofs))"

definition unpackVarint :: "vlq_lib \<Rightarrow> bytes \<Rightarrow> int64 \<times> nat" where
  "unpackVarint V buf = (let (i, ofs) = vlq_Int V buf in (i, ofs))"

definition unpackVaruint :: "vlq_lib \<Rightarrow> bytes \<Rightarrow> u64 \<times> nat" where
  "unpackVaruint V buf = (let (i, ofs) = vlq_Uint V buf in (i, ofs))"

section \<open>Keys of the address index\<close>

definition packedHeightBytes :: nat where
  "packedHeightBytes = 4"

definition packAddressKey :: "bytes \<Rightarrow> u32 \<Rightarrow> bytes" where
  "packAddressKey addrDesc height = addrDesc @ bytesOfNat packedHeightBytes (unat (NOT height))"

definition unpackAddressKey :: "bytes \<Rightarrow> (bytes \<times> u32) res" where
  "unpackAddressKey key =
     (let i = int (length key) - int packedHeightBytes
      in if i \<le> 0 then Err (ErrMsg ''Invalid address key'')
         else bindR (sliceR key 0 i) (\<lambda>addrDesc.
              bindR (sliceR key i (i + int packedHeightBytes)) (\<lambda>h.
              bindR (unpackUint h) (\<lambda>c. Ok (addrDesc, NOT c)))))"

section \<open>Big integers\<close>

text \<open>
  \<open>big.Int.Bits\<close>: the 64-bit words of the absolute value, least significant first, without
  leading zeros.
\<close>

fun wordsOfNat :: "nat \<Rightarrow> u64 list" where
  "wordsOfNat n = (if n = 0 then [] else of_nat n # wordsOfNat (n div 2 ^ 64))"

declare wordsOfNat.simps [simp del]

definition bigBits :: "int \<Rightarrow> u64 list" where
  "bigBits bi = wordsOfNat (nat \<bar>bi\<bar>)"

definition wordBytes :: nat where
  "wordBytes = 8"

definition maxPackedBigintWords :: nat where
  "maxPackedBigintWords = (256 - wordBytes) div wordBytes"

text \<open>
  The loop that skips the leading zero bytes of the most significant word. That word is never
  0, so the loop stops before \<open>fb\<close> is.
\<close>

fun sigBytes :: "nat \<Rightarrow> u64 \<Rightarrow> u64 \<Rightarrow> nat" where
  "sigBytes 0 msk w0 = 0"
| "sigBytes (Suc fb) msk w0 =
     (if w0 AND msk = 0 then sigBytes fb (drop_bit 8 msk) w0 else Suc fb)"

text \<open>The loop \<open>for i := n; i > 0; i-- { buf[i] = byte(w); w >>= 8 }\<close>.\<close>

fun storeWord :: "nat \<Rightarrow> u64 \<Rightarrow> bytes" where
  "storeWord 0 w = []"
| "storeWord (Suc i) w = storeWord i (drop_bit 8 w) @ [ucast w]"

definition packBigint :: "int \<Rightarrow> bytes" where
  "packBigint bi =
     (let w = bigBits bi;
          lw = length w
      in if lw = 0 then [0]
         else let w0 = w ! (lw - 1);
                  fb = sigBytes 8 (push_bit (64 - 8) 0xff) w0;
                  s = (if lw > maxPackedBigintWords then lw - maxPackedBigintWords else 0);
                  rest = concat (map (\<lambda>j. storeWord wordBytes (w ! j)) (rev [s..<lw - 1]));
                  body = storeWord fb w0 @ rest
              in of_nat (length body) # body)"

definition unpackBigint :: "bytes \<Rightarrow> (int \<times> nat) res" where
  "unpackBigint buf =
     bindR (indexR buf 0) (\<lambda>b0.
       let l = unat b0 + 1
       in bindR (sliceR buf 1 (int l)) (\<lambda>bs. Ok (int (natOfBytes bs), l)))"

text \<open>
  The bytes of the number \<open>packBigint\<close> stores: its absolute value, cut to its 31 most
  significant words.
\<close>

definition bigintStored :: "int \<Rightarrow> nat" where
  "bigintStored bi = nat \<bar>bi\<bar> div 2 ^ (64 * (length (bigBits bi) - maxPackedBigintWords))"

section \<open>The contract of an encoding\<close>

text \<open>
  \<open>decodeN d n buf l\<close> reads \<open>n\<close> records of \<open>buf\<close> from offset \<open>l\<close> on: the loop
  \<open>for i := 0; i < n; i++ { l += unpackX(&xs[i], buf[l:]) }\<close> of the decoders.
\<close>

fun decodeN :: "(bytes \<Rightarrow> ('a \<times> nat) res) \<Rightarrow> nat \<Rightarrow> bytes \<Rightarrow> nat \<Rightarrow> ('a list \<times> nat) res" where
  "decodeN d 0 buf l = Ok ([], l)"
| "decodeN d (Suc n) buf l =
     bindR (sliceFromR buf (int l)) (\<lambda>b.
     bindR (d b) (\<lambda>(x, k).
     bindR (decodeN d n buf (l + k)) (\<lambda>(xs, l'). Ok (x # xs, l'))))"

locale prefix_codec =
  fixes enc :: "'a \<Rightarrow> bytes"
    and dec :: "bytes \<Rightarrow> ('a \<times> nat) res"
    and ok :: "'a \<Rightarrow> bool"
  assumes dec_enc: "ok x \<Longrightarrow> dec (enc x @ rest) = Ok (x, length (enc x))"
    and enc_nonempty: "ok x \<Longrightarrow> enc x \<noteq> []"
begin

lemma dec_enc_alone: "ok x \<Longrightarrow> dec (enc x) = Ok (x, length (enc x))"
  using dec_enc [of x "[]"] by simp

lemma enc_prefix_free: "ok x \<Longrightarrow> ok y \<Longrightarrow> enc x @ r = enc y @ s \<Longrightarrow> x = y \<and> r = s"
proof -
  assume x: "ok x" and y: "ok y" and eq: "enc x @ r = enc y @ s"
  have "dec (enc y @ s) = Ok (x, length (enc x))"
    using dec_enc [OF x, of r] eq by simp
  then have "x = y" using dec_enc [OF y, of s] by simp
  with eq show ?thesis by simp
qed

lemma decodeN_concat:
  assumes "list_all ok xs"
  shows "decodeN dec (length xs) (pre @ concat (map enc xs) @ rest) (length pre)
           = Ok (xs, length pre + length (concat (map enc xs)))"
  using assms
proof (induction xs arbitrary: pre)
  case Nil
  then show ?case by simp
next
  case (Cons x xs)
  have "decodeN dec (length xs) ((pre @ enc x) @ concat (map enc xs) @ rest) (length (pre @ enc x))
          = Ok (xs, length (pre @ enc x) + length (concat (map enc xs)))"
    using Cons by (intro Cons.IH) auto
  with Cons.prems show ?case
    by (simp add: codec_simps dec_enc)
qed

lemma length_concat_ge: "list_all ok xs \<Longrightarrow> length xs \<le> length (concat (map enc xs))"
proof (induction xs)
  case (Cons x xs)
  then have "Suc 0 \<le> length (enc x)"
    using enc_nonempty [of x] by (simp add: Suc_le_eq)
  with Cons show ?case by simp
qed simp

end

section \<open>What the program relies on in the vlq library\<close>

text \<open>
  Reading back an integer gives the integer and the number of bytes it was written in, and no
  integer is written in zero bytes or in more than \<open>vlq.MaxLen64\<close>, which is 10.
\<close>

locale vlq_documented =
  fixes V :: vlq_lib
  assumes uint_put: "vlq_Uint V (vlq_PutUint V x @ rest) = (x, length (vlq_PutUint V x))"
    and int_put: "vlq_Int V (vlq_PutInt V i @ rest) = (i, length (vlq_PutInt V i))"
    and uint_nonempty: "vlq_PutUint V x \<noteq> []"
    and int_nonempty: "vlq_PutInt V i \<noteq> []"
    and uint_max: "length (vlq_PutUint V x) \<le> 10"
    and int_max: "length (vlq_PutInt V i) \<le> 10"

lemma scast_scast_int32 [simp]: "(scast (scast (i :: int32) :: int64) :: int32) = i"
  by (rule bit_word_eqI) (simp add: bit_simps)

sublocale vlq_documented \<subseteq> varuint:
  prefix_codec "packVaruint V" "\<lambda>b. Ok (unpackVaruint V b)" "\<lambda>_. True"
  by unfold_locales (simp_all add: packVaruint_def unpackVaruint_def uint_put uint_nonempty)

sublocale vlq_documented \<subseteq> varint:
  prefix_codec "packVarint V" "\<lambda>b. Ok (unpackVarint V b)" "\<lambda>_. True"
  by unfold_locales (simp_all add: packVarint_def unpackVarint_def int_put int_nonempty)

sublocale vlq_documented \<subseteq> varint32:
  prefix_codec "packVarint32 V" "\<lambda>b. Ok (unpackVarint32 V b)" "\<lambda>_. True"
  by unfold_locales (simp_all add: packVarint32_def unpackVarint32_def int_put int_nonempty)

context vlq_documented begin

lemma unpackVaruint_pack [codec_simps]:
  "unpackVaruint V (packVaruint V x @ rest) = (x, length (packVaruint V x))"
  using varuint.dec_enc by simp

lemma unpackVarint_pack [codec_simps]:
  "unpackVarint V (packVarint V x @ rest) = (x, length (packVarint V x))"
  using varint.dec_enc by simp

lemma unpackVarint32_pack [codec_simps]:
  "unpackVarint32 V (packVarint32 V x @ rest) = (x, length (packVarint32 V x))"
  using varint32.dec_enc by simp

lemma pack_nonempty [simp]:
  "packVaruint V x \<noteq> []" "packVarint V i \<noteq> []" "packVarint32 V j \<noteq> []"
  using varuint.enc_nonempty varint.enc_nonempty varint32.enc_nonempty by auto

lemma pack_length_pos [simp]:
  "0 < length (packVaruint V x)" "0 < length (packVarint V i)" "0 < length (packVarint32 V j)"
  using pack_nonempty by auto

lemma pack_length_max:
  "length (packVaruint V x) \<le> 10" "length (packVarint V i) \<le> 10" "length (packVarint32 V j) \<le> 10"
  by (simp_all add: packVaruint_def packVarint_def packVarint32_def uint_max int_max)

end

section \<open>A variable-length quantity that satisfies the contract\<close>

text \<open>
  Base 128, most significant group first, the top bit set on every byte but the last: the
  format the library's name stands for. It shows that the contract can be met; a signed
  integer is written as its 64 bits.
\<close>

fun vlqHigh :: "nat \<Rightarrow> bytes" where
  "vlqHigh n = (if n = 0 then [] else vlqHigh (n div 128) @ [of_nat (n mod 128 + 128)])"

declare vlqHigh.simps [simp del]

definition vlqEnc :: "nat \<Rightarrow> bytes" where
  "vlqEnc n = vlqHigh (n div 128) @ [of_nat (n mod 128)]"

fun vlqDec :: "bytes \<Rightarrow> nat \<Rightarrow> nat \<Rightarrow> nat \<times> nat" where
  "vlqDec [] x c = (x, c)"
| "vlqDec (b # bs) x c =
     (let x' = x * 128 + unat b mod 128
      in if unat b < 128 then (x', Suc c) else vlqDec bs x' (Suc c))"

definition vlq128 :: vlq_lib where
  "vlq128 = \<lparr>vlq_PutUint = (\<lambda>x. vlqEnc (unat x)), vlq_PutInt = (\<lambda>x. vlqEnc (unat x)),
     vlq_Uint = (\<lambda>b. map_prod of_nat id (vlqDec b 0 0)),
     vlq_Int = (\<lambda>b. map_prod of_nat id (vlqDec b 0 0))\<rparr>"

lemma vlqDec_vlqHigh:
  "vlqDec (vlqHigh n @ rest) 0 c = vlqDec rest n (c + length (vlqHigh n))"
proof (induction n arbitrary: rest c rule: vlqHigh.induct)
  case (1 n)
  show ?case
  proof (cases "n = 0")
    case True
    then show ?thesis by (simp add: vlqHigh.simps)
  next
    case False
    have b: "unat (of_nat (n mod 128 + 128) :: byte) = n mod 128 + 128"
      by (simp only: unat_of_nat_byte) simp
    from False show ?thesis
      by (simp add: vlqHigh.simps [of n] 1 Let_def b del: of_nat_add of_nat_numeral)
  qed
qed

lemma vlqDec_vlqEnc: "vlqDec (vlqEnc n @ rest) 0 0 = (n, length (vlqEnc n))"
  by (simp add: vlqEnc_def vlqDec_vlqHigh Let_def)

lemma vlqEnc_nonempty: "vlqEnc n \<noteq> []"
  by (simp add: vlqEnc_def)

lemma length_vlqHigh: "n < 128 ^ k \<Longrightarrow> length (vlqHigh n) \<le> k"
proof (induction k arbitrary: n)
  case 0
  then show ?case by (simp add: vlqHigh.simps)
next
  case (Suc k)
  then have "n div 128 < 128 ^ k" by (simp add: less_mult_imp_div_less mult.commute)
  with Suc.IH show ?case by (cases "n = 0") (simp_all add: vlqHigh.simps [of n] vlqHigh.simps [of 0])
qed

lemma length_vlqEnc: "length (vlqEnc (unat (x :: u64))) \<le> 10"
proof -
  have "unat x < 2 ^ 64" using unsigned_less [of x, where ?'a = nat] by simp
  then have "unat x div 128 < 128 ^ 9" by (simp add: less_mult_imp_div_less)
  then show ?thesis using length_vlqHigh [of "unat x div 128" 9] by (simp add: vlqEnc_def)
qed

interpretation vlq128: vlq_documented vlq128
  by unfold_locales (simp_all add: vlq128_def vlqDec_vlqEnc vlqEnc_nonempty length_vlqEnc)

section \<open>Heights and address keys\<close>

lemma natOfBytes_packUint [simp]: "natOfBytes (packUint i) = unat i"
  using unsigned_less [of i, where ?'a = nat] by (simp add: packUint_def natOfBytes_bytesOfNat)

lemma length_packUint [simp]: "length (packUint i) = 4"
  by (simp add: packUint_def)

lemma unpackUint_packUint [codec_simps]: "unpackUint (packUint i @ rest) = Ok i"
  using sliceR_prefix [of "packUint i" rest] by (simp add: unpackUint_def)

lemma unpackUint_packUint_alone [codec_simps]: "unpackUint (packUint i) = Ok i"
  using unpackUint_packUint [of i "[]"] by simp

lemma packUint_less: "packUint i < packUint j \<longleftrightarrow> i < j"
  by (simp add: natOfBytes_less word_less_nat_alt)

lemma packUint_inject [simp]: "packUint i = packUint j \<longleftrightarrow> i = j"
  using natOfBytes_inject [of "packUint i" "packUint j"] by (simp add: word_unat_eq_iff)

interpretation uint: prefix_codec packUint "\<lambda>b. bindR (unpackUint b) (\<lambda>i. Ok (i, 4))" "\<lambda>_. True"
proof unfold_locales
  show "packUint i \<noteq> []" for i
    by (metis length_packUint list.size(3) zero_neq_numeral)
qed (simp add: codec_simps)

lemma packAddressKey_alt: "packAddressKey addrDesc h = addrDesc @ packUint (NOT h)"
  by (simp add: packAddressKey_def packUint_def packedHeightBytes_def)

lemma not_u32_less: "NOT (h :: u32) < NOT h' \<longleftrightarrow> h' < h"
proof -
  have "uint (NOT x) = 2 ^ 32 - 1 - uint x" for x :: u32
  proof -
    have "uint (NOT x) = (- uint x - 1) mod 2 ^ 32"
      by (subst unsigned_not_eq) (simp add: take_bit_eq_mod not_eq_complement)
    also have "\<dots> = (- uint x - 1 + 2 ^ 32) mod 2 ^ 32"
      by (rule mod_add_self2 [symmetric])
    also have "\<dots> = - uint x - 1 + 2 ^ 32"
    proof (rule mod_pos_pos_trivial)
      have "uint x < 2 ^ 32" "0 \<le> uint x"
        using unsigned_less [of x, where ?'a = int] by simp_all
      then show "0 \<le> - uint x - 1 + 2 ^ 32" "- uint x - 1 + 2 ^ 32 < (2 :: int) ^ 32"
        by linarith+
    qed
    finally show ?thesis by simp
  qed
  then show ?thesis
    by (simp add: word_less_def)
qed

lemma unpackAddressKey_pack:
  "addrDesc \<noteq> [] \<Longrightarrow> unpackAddressKey (packAddressKey addrDesc h) = Ok (addrDesc, h)"
  using unpackUint_packUint_alone [of "NOT h"]
  by (simp add: unpackAddressKey_def packAddressKey_alt packedHeightBytes_def sliceR_def Let_def)

text \<open>
  The key of the address index reads back as the descriptor and the height it was made
  of, for every descriptor that is not empty.
\<close>

theorem packAddressKey_unpack:
  assumes "addrDesc \<noteq> []"
  shows "unpackAddressKey (packAddressKey addrDesc h) = Ok (addrDesc, h)"
  using assms by (rule unpackAddressKey_pack)

text \<open>The key at a three-byte descriptor.\<close>

theorem packAddressKey_unpack_witness:
  "unpackAddressKey (packAddressKey [1, 2, 3] 7) = Ok ([1, 2, 3], 7)"
  by (rule packAddressKey_unpack) simp

text \<open>Keys of one descriptor sort by height, the newest first.\<close>

lemma packAddressKey_less:
  "packAddressKey addrDesc h < packAddressKey addrDesc h' \<longleftrightarrow> h' < h"
  by (simp add: packAddressKey_alt append_less_append packUint_less not_u32_less)

lemma packAddressKey_inject:
  "packAddressKey a h = packAddressKey b k \<longleftrightarrow> a = b \<and> h = k"
  by (auto simp: packAddressKey_alt)

section \<open>Big integers\<close>

lemma ucast_byte_of_nat: "(ucast (w :: u64) :: byte) = of_nat (unat w)"
  by simp

lemma storeWord_eq: "storeWord k w = bytesOfNat k (unat w)"
proof (induction k arbitrary: w)
  case (Suc k)
  have "unat (drop_bit 8 w) = unat w div 256"
    by (simp add: drop_bit_eq_div unat_div_distrib)
  then show ?case by (simp add: Suc.IH)
qed simp

lemma length_storeWord [simp]: "length (storeWord k w) = k"
  by (simp add: storeWord_eq)

fun natOfWords :: "u64 list \<Rightarrow> nat" where
  "natOfWords [] = 0"
| "natOfWords (w # ws) = unat w + 2 ^ 64 * natOfWords ws"

lemma natOfWords_append:
  "natOfWords (xs @ ys) = natOfWords xs + 2 ^ (64 * length xs) * natOfWords ys"
  by (induction xs) (simp_all add: algebra_simps power_add)

lemma wordsOfNat_0 [simp]: "wordsOfNat 0 = []"
  by (simp add: wordsOfNat.simps)

lemma wordsOfNat_eq_Nil [simp]: "wordsOfNat n = [] \<longleftrightarrow> n = 0"
  by (cases "n = 0") (simp_all add: wordsOfNat.simps [of n])

lemma natOfWords_wordsOfNat [simp]: "natOfWords (wordsOfNat n) = n"
proof (induction n rule: wordsOfNat.induct)
  case (1 n)
  then show ?case
    by (cases "n = 0") (simp_all add: wordsOfNat.simps [of n] unat_of_nat mult.commute [of _ "_ div _"])
qed

lemma natOfWords_bound: "natOfWords ws < 2 ^ (64 * length ws)"
proof (induction ws)
  case (Cons w ws)
  have "unat w < 2 ^ 64" using unsigned_less [of w, where ?'a = nat] by simp
  then have "natOfWords (w # ws) < 2 ^ 64 * (natOfWords ws + 1)" by simp
  also have "\<dots> \<le> 2 ^ 64 * 2 ^ (64 * length ws)"
    using Cons by (intro mult_left_mono) auto
  finally show ?case by (simp add: power_add)
qed simp

lemma natOfWords_drop: "natOfWords (drop s ws) = natOfWords ws div 2 ^ (64 * s)"
proof (cases "s \<le> length ws")
  case True
  then have "natOfWords ws = natOfWords (take s ws) + 2 ^ (64 * s) * natOfWords (drop s ws)"
    using natOfWords_append [of "take s ws" "drop s ws"] by simp
  moreover have "natOfWords (take s ws) < 2 ^ (64 * s)"
    using natOfWords_bound [of "take s ws"] True by simp
  ultimately show ?thesis by simp
next
  case False
  then have "natOfWords ws < 2 ^ (64 * s)"
    using natOfWords_bound [of ws] by (meson less_le_trans nat_le_linear mult_le_mono2 power_increasing one_le_numeral)
  with False show ?thesis by simp
qed

lemma last_wordsOfNat: "n \<noteq> 0 \<Longrightarrow> last (wordsOfNat n) \<noteq> 0"
proof (induction n rule: wordsOfNat.induct)
  case (1 n)
  show ?case
  proof (cases "n div 2 ^ 64 = 0")
    case True
    then have "n < 2 ^ 64" by (simp add: div_eq_0_iff)
    then have "unat (of_nat n :: u64) = n" by (simp add: unat_of_nat)
    then have "(of_nat n :: u64) \<noteq> 0" using 1 by (metis unat_0)
    then show ?thesis using 1 True by (simp add: wordsOfNat.simps [of n] wordsOfNat.simps [of 0])
  next
    case False
    then have "wordsOfNat (n div 2 ^ 64) \<noteq> []"
      by (simp only: wordsOfNat_eq_Nil not_False_eq_True)
    with 1 False show ?thesis by (simp add: wordsOfNat.simps [of n])
  qed
qed

lemma take_bit_u64_self: "take_bit m w = w \<longleftrightarrow> unat w < 2 ^ m" for w :: u64
proof -
  have "take_bit m w = w \<longleftrightarrow> take_bit m (unat w) = unat w"
    by (simp add: word_unat_eq_iff unsigned_take_bit_eq)
  then show ?thesis by (simp add: take_bit_nat_eq_self_iff)
qed

lemma byte_mask_u64: "(0xff :: u64) = mask 8"
  by (simp add: mask_eq_exp_minus_1)

lemma and_byte_mask_eq_0:
  fixes w :: u64
  assumes "unat w < 2 ^ (m + 8)" "m + 8 \<le> 64"
  shows "w AND push_bit m 0xff = 0 \<longleftrightarrow> unat w < 2 ^ m"
proof -
  have self: "take_bit (m + 8) w = w"
    using assms by (simp add: take_bit_u64_self)
  have high: "\<not> bit w i" if "m + 8 \<le> i" for i
    by (subst self [symmetric]) (use that in \<open>simp add: bit_take_bit_iff\<close>)
  have "w AND push_bit m 0xff = 0 \<longleftrightarrow> take_bit m w = w"
  proof
    assume z: "w AND push_bit m 0xff = 0"
    have "\<not> bit w i" if "m \<le> i" "i < m + 8" for i
    proof -
      have "\<not> bit (w AND push_bit m 0xff) i" by (simp only: z bit_0) simp
      then show ?thesis
        using that assms(2) by (auto simp: byte_mask_u64 bit_simps)
    qed
    with high show "take_bit m w = w"
      by (intro bit_word_eqI) (meson bit_take_bit_iff not_le_imp_less)
  next
    assume t: "take_bit m w = w"
    have "\<not> bit w i" if "m \<le> i" for i
      by (subst t [symmetric]) (use that in \<open>simp add: bit_take_bit_iff\<close>)
    then show "w AND push_bit m 0xff = 0"
      by (intro bit_word_eqI) (auto simp: byte_mask_u64 bit_simps)
  qed
  then show ?thesis by (simp add: take_bit_u64_self)
qed

lemma sigBytes_bounds:
  assumes "w \<noteq> 0" "unat w < 256 ^ Suc k" "Suc k \<le> 8"
  shows "0 < sigBytes (Suc k) (push_bit (8 * k) 0xff) w
    \<and> 256 ^ (sigBytes (Suc k) (push_bit (8 * k) 0xff) w - 1) \<le> unat w
    \<and> unat w < 256 ^ sigBytes (Suc k) (push_bit (8 * k) 0xff) w"
  using assms(2,3)
proof (induction k)
  case 0
  have "0 < unat w" using assms(1) by (simp add: unat_gt_0)
  moreover have "w AND 0xff \<noteq> 0"
    using and_byte_mask_eq_0 [of w 0] 0 \<open>0 < unat w\<close> by simp
  ultimately show ?case using 0 by simp
next
  case (Suc k)
  have pow: "(256 :: nat) ^ n = 2 ^ (8 * n)" for n by (simp add: power_mult)
  have zero: "w AND push_bit (8 * Suc k) 0xff = 0 \<longleftrightarrow> unat w < 256 ^ Suc k"
    unfolding pow
    by (rule and_byte_mask_eq_0) (use Suc.prems in \<open>simp_all add: pow power_add\<close>)
  have shift: "drop_bit 8 (push_bit (8 * Suc k) 0xff) = (push_bit (8 * k) 0xff :: u64)"
    using Suc.prems by (intro bit_word_eqI) (auto simp: byte_mask_u64 bit_simps)
  show ?case
  proof (cases "unat w < 256 ^ Suc k")
    case True
    then have step: "sigBytes (Suc (Suc k)) (push_bit (8 * Suc k) 0xff) w
        = sigBytes (Suc k) (push_bit (8 * k) 0xff) w"
      using zero shift by (simp only: sigBytes.simps(2) [of "Suc k"] if_True)
    show ?thesis
      unfolding step using True Suc by simp
  next
    case False
    then have "sigBytes (Suc (Suc k)) (push_bit (8 * Suc k) 0xff) w = Suc (Suc k)"
      using zero by (simp only: sigBytes.simps(2) [of "Suc k"] if_False)
    with False Suc.prems show ?thesis by simp
  qed
qed

text \<open>A byte string without a leading zero is the shortest one of its number.\<close>

lemma minBytes_unique: "bs = [] \<or> hd bs \<noteq> 0 \<Longrightarrow> bs = minBytes (natOfBytes bs)"
proof (induction bs rule: rev_induct)
  case Nil
  then show ?case by (simp add: minBytes.simps)
next
  case (snoc b bs)
  have "natOfBytes (bs @ [b]) \<noteq> 0"
  proof (cases bs)
    case Nil
    with snoc.prems show ?thesis using natOfBytes_snoc [of "[]" b] by (simp add: unat_eq_zero)
  next
    case (Cons c cs)
    with snoc.prems have "0 < unat c" by (simp add: unat_gt_0)
    with Cons show ?thesis by (simp add: natOfBytes_Cons)
  qed
  moreover have "natOfBytes (bs @ [b]) div 256 = natOfBytes bs"
    by simp
  moreover have "(of_nat (natOfBytes (bs @ [b])) :: byte) = b"
    by (simp add: word_unat_eq_iff del: of_nat_add of_nat_mult)
  moreover have "bs = minBytes (natOfBytes bs)"
    using snoc by (cases bs) (auto simp: minBytes.simps)
  ultimately show ?case
    by (subst minBytes.simps) (simp del: natOfBytes_snoc)
qed

lemma hd_bytesOfNat:
  assumes "256 ^ (k - 1) \<le> n" "n < 256 ^ k" "0 < k"
  shows "hd (bytesOfNat k n) \<noteq> 0"
proof
  assume "hd (bytesOfNat k n) = 0"
  moreover have "bytesOfNat k n \<noteq> []"
    using assms(3) by simp
  then obtain b bs where bs: "bytesOfNat k n = b # bs"
    by (cases "bytesOfNat k n") auto
  ultimately have "natOfBytes (bytesOfNat k n) = natOfBytes bs"
    by (simp add: natOfBytes_Cons)
  moreover have "length bs = k - 1"
    using bs length_bytesOfNat [of k n] by simp
  ultimately have "n < 256 ^ (k - 1)"
    using assms(2) natOfBytes_bound [of bs] by (simp add: natOfBytes_bytesOfNat)
  with assms(1) show False by simp
qed

lemma natOfBytes_storeWords:
  assumes "s \<le> m" "m \<le> length w"
  shows "natOfBytes (concat (map (\<lambda>j. storeWord wordBytes (w ! j)) (rev [s..<m])))
    = natOfWords (drop s (take m w))"
  using assms
proof (induction m rule: dec_induct)
  case base
  then show ?case by simp
next
  case (step m)
  let ?rest = "concat (map (\<lambda>j. storeWord wordBytes (w ! j)) (rev [s..<m]))"
  have "length ?rest = 8 * (m - s)"
    by (simp add: length_concat comp_def wordBytes_def sum_list_triv)
  then have "natOfBytes (storeWord wordBytes (w ! m) @ ?rest)
      = unat (w ! m) * 256 ^ (8 * (m - s)) + natOfWords (drop s (take m w))"
    using step unsigned_less [of "w ! m", where ?'a = nat]
    by (simp add: natOfBytes_append storeWord_eq wordBytes_def natOfBytes_bytesOfNat)
  moreover have "drop s (take (Suc m) w) = drop s (take m w) @ [w ! m]"
    using step by (simp add: take_Suc_conv_app_nth)
  moreover have "(256 :: nat) ^ (8 * (m - s)) = 2 ^ (64 * (m - s))"
    by (simp add: power_mult)
  ultimately show ?case
    using step by (simp add: natOfWords_append)
qed

lemma packBigint_correct: "packBigint bi = of_nat (length (minBytes (bigintStored bi))) # minBytes (bigintStored bi)"
proof (cases "bi = 0")
  case True
  then show ?thesis
    by (simp add: packBigint_def bigBits_def bigintStored_def minBytes.simps [of 0])
next
  case False
  define w where "w = bigBits bi"
  define lw where "lw = length w"
  define s where "s = lw - maxPackedBigintWords"
  define w0 where "w0 = w ! (lw - 1)"
  define fb where "fb = sigBytes 8 (push_bit (64 - 8) 0xff) w0"
  define rest where "rest = concat (map (\<lambda>j. storeWord wordBytes (w ! j)) (rev [s..<lw - 1]))"
  have "w \<noteq> []" using False by (simp add: w_def bigBits_def)
  then have lw: "0 < lw" by (simp add: lw_def)
  have last: "w0 = last w"
    unfolding w0_def lw_def by (rule last_conv_nth [symmetric]) fact
  have w_split: "natOfWords (drop s w) = natOfWords (drop s (take (lw - 1) w @ [w0]))"
    using append_butlast_last_id [OF \<open>w \<noteq> []\<close>] by (simp only: last lw_def butlast_conv_take)
  have "w0 \<noteq> 0"
    unfolding last w_def bigBits_def by (rule last_wordsOfNat) (use False in simp)
  moreover have "unat w0 < 256 ^ Suc 7"
    using unsigned_less [of w0, where ?'a = nat] by simp
  ultimately have fb: "0 < fb" "256 ^ (fb - 1) \<le> unat w0" "unat w0 < 256 ^ fb"
    using sigBytes_bounds [of w0 7] by (simp_all add: fb_def)
  have body0: "packBigint bi = of_nat (length (storeWord fb w0 @ rest)) # storeWord fb w0 @ rest"
  proof -
    have "s = (if lw > maxPackedBigintWords then lw - maxPackedBigintWords else 0)"
      by (simp add: s_def)
    then show ?thesis
      unfolding packBigint_def Let_def w_def [symmetric] lw_def [symmetric] w0_def [symmetric]
        fb_def [symmetric] rest_def
      using lw by (simp only: neq0_conv [symmetric] if_False)
  qed
  have s_le: "s \<le> lw - 1"
    using lw by (simp add: s_def maxPackedBigintWords_def wordBytes_def)
  have len_rest: "length rest = 8 * (lw - 1 - s)"
    by (simp add: rest_def length_concat comp_def wordBytes_def sum_list_triv)
  have "natOfBytes (storeWord fb w0 @ rest) = unat w0 * 256 ^ (8 * (lw - 1 - s)) + natOfWords (drop s (take (lw - 1) w))"
  proof -
    have "natOfBytes rest = natOfWords (drop s (take (lw - 1) w))"
      unfolding rest_def by (rule natOfBytes_storeWords) (use s_le in \<open>simp_all add: lw_def\<close>)
    with fb show ?thesis
      by (simp add: natOfBytes_append storeWord_eq natOfBytes_bytesOfNat len_rest)
  qed
  also have "\<dots> = natOfWords (drop s w)"
    unfolding w_split using s_le by (simp add: natOfWords_append power_mult lw_def)
  also have "\<dots> = bigintStored bi"
    by (simp add: natOfWords_drop bigintStored_def w_def s_def lw_def bigBits_def)
  finally have val: "natOfBytes (storeWord fb w0 @ rest) = bigintStored bi" .
  have "hd (storeWord fb w0) \<noteq> 0" "storeWord fb w0 \<noteq> []"
    using hd_bytesOfNat [of fb "unat w0"] fb by (auto simp: storeWord_eq)
  then have "storeWord fb w0 @ rest = minBytes (bigintStored bi)"
    using minBytes_unique [of "storeWord fb w0 @ rest"] val by auto
  with body0 show ?thesis by simp
qed

lemma length_minBytes: "n < 256 ^ k \<Longrightarrow> length (minBytes n) \<le> k"
proof (induction k arbitrary: n)
  case 0
  then show ?case by (simp add: minBytes.simps)
next
  case (Suc k)
  then have "n div 256 < 256 ^ k" by (simp add: less_mult_imp_div_less mult.commute)
  with Suc.IH show ?case by (cases "n = 0") (simp_all add: minBytes.simps [of n] minBytes.simps [of 0])
qed

lemma bigintStored_bound: "bigintStored bi < 256 ^ 248"
proof -
  have "bigintStored bi = natOfWords (drop (length (bigBits bi) - maxPackedBigintWords) (bigBits bi))"
    by (simp add: bigintStored_def natOfWords_drop bigBits_def)
  also have "\<dots> < 2 ^ (64 * length (drop (length (bigBits bi) - maxPackedBigintWords) (bigBits bi)))"
    by (rule natOfWords_bound)
  also have "\<dots> \<le> 2 ^ (8 * 248)"
    by (rule power_increasing) (simp_all add: maxPackedBigintWords_def wordBytes_def)
  finally show ?thesis by (simp only: power_mult) simp
qed

lemma bigintStored_small: "\<bar>bi\<bar> < 2 ^ 1984 \<Longrightarrow> bigintStored bi = nat \<bar>bi\<bar>"
proof -
  assume "\<bar>bi\<bar> < 2 ^ 1984"
  then have "nat \<bar>bi\<bar> < 2 ^ (64 * 31)" by (simp add: nat_less_iff)
  moreover have "length (wordsOfNat n) \<le> k" if "n < 2 ^ (64 * k)" for n k
    using that
  proof (induction k arbitrary: n)
    case (Suc k)
    then have "n div 2 ^ 64 < 2 ^ (64 * k)"
      by (simp add: less_mult_imp_div_less power_add mult.commute)
    with Suc.IH [of "n div 2 ^ 64"] show ?case
      by (cases "n = 0") (simp_all add: wordsOfNat.simps [of n])
  qed simp
  ultimately have "length (bigBits bi) \<le> 31" by (simp only: bigBits_def)
  then show ?thesis
    by (simp add: bigintStored_def maxPackedBigintWords_def wordBytes_def)
qed

lemma unpackBigint_packBigint:
  "unpackBigint (packBigint bi @ rest) = Ok (int (bigintStored bi), length (packBigint bi))"
proof -
  have "length (minBytes (bigintStored bi)) < 256"
    using length_minBytes [OF bigintStored_bound, of bi] by linarith
  then have "unat (of_nat (length (minBytes (bigintStored bi))) :: byte) = length (minBytes (bigintStored bi))"
    by (simp only: unat_of_nat_byte mod_less)
  moreover from this have "uint (of_nat (length (minBytes (bigintStored bi))) :: byte)
      = int (length (minBytes (bigintStored bi)))"
    by (simp only: uint_nat)
  ultimately show ?thesis
    by (simp add: packBigint_correct unpackBigint_def sliceR_def del: unat_of_nat_byte)
qed

text \<open>The amounts an encoding keeps whole.\<close>

definition amountOk :: "int \<Rightarrow> bool" where
  "amountOk v \<longleftrightarrow> 0 \<le> v \<and> v < 2 ^ 1984"

interpretation bigint: prefix_codec packBigint unpackBigint amountOk
  by unfold_locales
    (simp_all add: amountOk_def unpackBigint_packBigint bigintStored_small, simp add: packBigint_correct)

section \<open>Properties\<close>

text \<open>
  Keys of one descriptor sort by height, the newest block first: the order the index is
  read in.
\<close>

theorem packAddressKey_newest_first:
  "packAddressKey addrDesc h < packAddressKey addrDesc h' \<longleftrightarrow> h' < h"
  by (rule packAddressKey_less)

text \<open>
  C1: the loop over machine words writes, for every integer, one byte of length and then the
  shortest big-endian form of its absolute value, cut to its 31 most significant words; so the
  length never overflows its byte and an amount below \<open>2 ^ 1984\<close> reads back whole.
\<close>

theorem packBigint_reference:
  "packBigint bi = of_nat (length (minBytes (bigintStored bi))) # minBytes (bigintStored bi)
   \<and> length (packBigint bi) \<le> 249
   \<and> unpackBigint (packBigint bi @ rest) = Ok (int (bigintStored bi), length (packBigint bi))
   \<and> (\<bar>bi\<bar> < 2 ^ 1984 \<longrightarrow> int (bigintStored bi) = \<bar>bi\<bar>)"
  using length_minBytes [OF bigintStored_bound, of bi] bigintStored_small [of bi]
  by (intro conjI impI packBigint_correct unpackBigint_packBigint) (simp_all add: packBigint_correct)

text \<open>C1 at an amount of three bytes.\<close>

theorem packBigint_reference_witness:
  "packBigint 70000 = [3, 1, 17, 112] \<and> unpackBigint (packBigint 70000 @ [9]) = Ok (70000, 4)"
proof -
  have enc: "packBigint 70000 = [3, 1, 17, 112]" by code_simp
  have stored: "bigintStored 70000 = 70000" by (simp add: bigintStored_small)
  have "unpackBigint (packBigint 70000 @ [9]) = Ok (int (bigintStored 70000), length (packBigint 70000))"
    using packBigint_reference [of 70000 "[9]"] by (elim conjE)
  then show ?thesis unfolding stored enc by simp
qed

end
