(* ===== verification/ChainTypes.thy ===== *)
theory ChainTypes
  imports Prelude
begin

text \<open>
  The data of \<open>src/bchain/types.go\<close> (transactions, blocks, outpoints) and the interface
  \<open>BlockChainParser\<close> through which the index and the API see a coin. A field \<open>F\<close> of a
  struct \<open>S\<close> is the field \<open>s_F\<close> of a record. A nil slice and an empty one are both the
  empty list; \<open>json.RawMessage\<close> is its bytes.
\<close>

section \<open>Transactions and blocks\<close>

type_synonym AddressDescriptor = bytes

record Outpoint =
  op_Txid :: string
  op_Vout :: int32

record Vin =
  vin_Coinbase :: string
  vin_Txid :: string
  vin_Vout :: u32
  vin_ScriptSigHex :: string
  vin_Sequence :: u32
  vin_Addresses :: "string list"

record Vout =
  vout_ValueSat :: int
  vout_JsonValue :: string
  vout_N :: u32
  vout_ScriptPubKeyHex :: string
  vout_Addresses :: "string list"

record Tx =
  tx_Hex :: string
  tx_Txid :: string
  tx_Version :: int32
  tx_LockTime :: u32
  tx_Vin :: "Vin list"
  tx_Vout :: "Vout list"
  tx_Confirmations :: u32
  tx_Time :: int64
  tx_Blocktime :: int64
  tx_VShieldIn :: "bytes list"
  tx_VShieldOut :: "bytes list"
  tx_ShieldValBal :: int
  tx_CoinSpecificData :: "bytes option"

record BlockHeader =
  bh_Hash :: string
  bh_Prev :: string
  bh_Next :: string
  bh_Height :: u32
  bh_Confirmations :: int
  bh_Size :: int64
  bh_Time :: int64

record Block = BlockHeader +
  blk_Txs :: "Tx list"

record MempoolTxidEntry =
  mte_Txid :: string
  mte_Time :: u32

definition MaxAddressLength :: nat where
  "MaxAddressLength = 256"

definition ValidateAddressLength :: "string \<Rightarrow> unit res" where
  "ValidateAddressLength address =
     (if length address > MaxAddressLength then Err ErrAddressTooLong else Ok ())"

section \<open>The interface of a coin's parser\<close>

record chain_parser =
  cp_KeepBlockAddresses :: int64
  cp_AmountDecimals :: int
  cp_GetAddrDescFromVout :: "Vout \<Rightarrow> AddressDescriptor res"
  cp_GetAddrDescFromAddress :: "string \<Rightarrow> AddressDescriptor res"
  cp_GetAddressesFromAddrDesc :: "AddressDescriptor \<Rightarrow> (string list \<times> bool) res"
  cp_IsAddrDescIndexable :: "AddressDescriptor \<Rightarrow> bool"
  cp_PackedTxidLen :: nat
  cp_PackTxid :: "string \<Rightarrow> bytes res"
  cp_UnpackTxid :: "bytes \<Rightarrow> string res"
  cp_PackTx :: "Tx \<Rightarrow> u32 \<Rightarrow> int64 \<Rightarrow> bytes res"
  cp_UnpackTx :: "bytes \<Rightarrow> (Tx \<times> u32) res"
  cp_GetAddrDescForUnknownInput :: "Tx \<Rightarrow> nat \<Rightarrow> AddressDescriptor"
  cp_GetValueSatForUnknownInput :: "Tx \<Rightarrow> nat \<Rightarrow> int"
  cp_PackBlockHash :: "string \<Rightarrow> bytes res"
  cp_UnpackBlockHash :: "bytes \<Rightarrow> string res"

text \<open>
  The contract the index relies on: a packed transaction id has the parser's fixed length and
  reads back, and so does a block hash. \<open>okId\<close> are the ids the parser accepts.
\<close>

locale id_packing =
  fixes P :: chain_parser
    and okId :: "string \<Rightarrow> bool"
  assumes pack_txid: "okId t \<Longrightarrow> \<exists>b. cp_PackTxid P t = Ok b \<and> length b = cp_PackedTxidLen P
      \<and> cp_UnpackTxid P b = Ok t"
    and pack_hash: "okId t \<Longrightarrow> \<exists>b. cp_PackBlockHash P t = Ok b \<and> length b = cp_PackedTxidLen P
      \<and> cp_UnpackBlockHash P b = Ok t"
begin

lemma pack_txid_Ok:
  assumes "okId t" "cp_PackTxid P t = Ok b"
  shows "length b = cp_PackedTxidLen P" "cp_UnpackTxid P b = Ok t"
  using pack_txid [OF assms(1)] assms(2) by auto

lemma pack_hash_Ok:
  assumes "okId t" "cp_PackBlockHash P t = Ok b"
  shows "length b = cp_PackedTxidLen P" "cp_UnpackBlockHash P b = Ok t"
  using pack_hash [OF assms(1)] assms(2) by auto

lemma pack_txid_inject:
  assumes "okId t" "okId t'" "cp_PackTxid P t = Ok b" "cp_PackTxid P t' = Ok b"
  shows "t = t'"
  using pack_txid_Ok(2) [OF assms(1,3)] pack_txid_Ok(2) [OF assms(2,4)] by simp

end

end
