(* ===== verification/DbRecords.thy ===== *)
theory DbRecords
  imports Codec ChainTypes
begin

text \<open>
  The records the index keeps in its columns and their byte encodings
  (\<open>src/db/rocksdb.go\<close>): inputs and outputs of transactions with their addresses, balances
  of addresses with their unspent outputs, the transactions of an address in a block, the
  inputs of a block and the block headers. Every encoder has its decoder, and the lemmas show
  that the decoder reads back what the encoder wrote.
\<close>

section \<open>Records\<close>

record TxInput =
  ti_AddrDesc :: AddressDescriptor
  ti_ValueSat :: int

record TxOutput =
  to_AddrDesc :: AddressDescriptor
  to_Spent :: bool
  to_ValueSat :: int

record TxAddresses =
  ta_Height :: u32
  ta_Inputs :: "TxInput list"
  ta_Outputs :: "TxOutput list"
  ta_ShieldIns :: u32
  ta_ShieldOuts :: u32
  ta_ShieldValBal :: int

record Utxo =
  u_BtxID :: bytes
  u_Vout :: int32
  u_Height :: u32
  u_ValueSat :: int

record AddrBalance =
  ab_Txs :: u32
  ab_SentSat :: int
  ab_BalanceSat :: int
  ab_Utxos :: "Utxo list"
  ab_utxosMap :: "(bytes, nat) gomap"

datatype AddressBalanceDetail =
    AddressBalanceDetailNoUTXO
  | AddressBalanceDetailUTXO
  | AddressBalanceDetailUTXOIndexed

record txIndexes =
  txi_btxID :: bytes
  txi_indexes :: "int32 list"

type_synonym addressesMap = "(bytes, txIndexes list) gomap"

record outpoint =
  o_btxID :: bytes
  o_index :: int32

record blockTxs =
  bt_btxID :: bytes
  bt_inputs :: "outpoint list"

record BlockInfo =
  bi_Hash :: string
  bi_Time :: int64
  bi_Txs :: u32
  bi_Size :: u32
  bi_Height :: u32

definition emptyTxAddresses :: TxAddresses where
  "emptyTxAddresses = \<lparr>ta_Height = 0, ta_Inputs = [], ta_Outputs = [], ta_ShieldIns = 0,
     ta_ShieldOuts = 0, ta_ShieldValBal = 0\<rparr>"

definition emptyAddrBalance :: AddrBalance where
  "emptyAddrBalance = \<lparr>ab_Txs = 0, ab_SentSat = 0, ab_BalanceSat = 0, ab_Utxos = [], ab_utxosMap = []\<rparr>"

definition ReceivedSat :: "AddrBalance \<Rightarrow> int" where
  "ReceivedSat ab = ab_BalanceSat ab + ab_SentSat ab"

section \<open>Transactions with their addresses\<close>

text \<open>
  \<open>len\<close> of a slice as an \<open>int\<close> and a \<open>uint\<close>; \<open>packVaruint(uint(h))\<close> of a 32-bit number.
\<close>

abbreviation len64 :: "'a list \<Rightarrow> u64" where
  "len64 xs \<equiv> of_nat (length xs)"

definition appendTxInput :: "vlq_lib \<Rightarrow> TxInput \<Rightarrow> bytes" where
  "appendTxInput V txi =
     packVaruint V (len64 (ti_AddrDesc txi)) @ ti_AddrDesc txi @ packBigint (ti_ValueSat txi)"

definition appendTxOutput :: "vlq_lib \<Rightarrow> TxOutput \<Rightarrow> bytes" where
  "appendTxOutput V txo =
     (let la = len64 (to_AddrDesc txo);
          la = (if to_Spent txo then NOT la else la)
      in packVarint V la @ to_AddrDesc txo @ packBigint (to_ValueSat txo))"

definition packTxAddresses :: "vlq_lib \<Rightarrow> TxAddresses \<Rightarrow> bytes" where
  "packTxAddresses V ta =
     packVaruint V (ucast (ta_Height ta))
     @ packVaruint V (len64 (ta_Inputs ta)) @ concat (map (appendTxInput V) (ta_Inputs ta))
     @ packVaruint V (len64 (ta_Outputs ta)) @ concat (map (appendTxOutput V) (ta_Outputs ta))
     @ packVaruint V (ucast (ta_ShieldIns ta)) @ packVaruint V (ucast (ta_ShieldOuts ta))
     @ packBigint (ta_ShieldValBal ta)"

definition unpackTxInput :: "vlq_lib \<Rightarrow> bytes \<Rightarrow> (TxInput \<times> nat) res" where
  "unpackTxInput V buf =
     (let (al, l) = unpackVaruint V buf
      in bindR (sliceR buf (int l) (int l + sint al)) (\<lambda>desc.
         let al = al + of_nat l
         in bindR (sliceFromR buf (uint al)) (\<lambda>b.
            bindR (unpackBigint b) (\<lambda>(v, l).
            Ok (\<lparr>ti_AddrDesc = desc, ti_ValueSat = v\<rparr>, l + unat al)))))"

definition unpackTxOutput :: "vlq_lib \<Rightarrow> bytes \<Rightarrow> (TxOutput \<times> nat) res" where
  "unpackTxOutput V buf =
     (let (al, l) = unpackVarint V buf;
          spent = (al <s 0);
          al = (if spent then NOT al else al)
      in bindR (sliceR buf (int l) (int l + sint al)) (\<lambda>desc.
         bindR (sliceFromR buf (sint al + int l)) (\<lambda>b.
         bindR (unpackBigint b) (\<lambda>(v, l').
         Ok (\<lparr>to_AddrDesc = desc, to_Spent = spent, to_ValueSat = v\<rparr>, l' + (nat (sint al) + l))))))"

definition unpackTxAddresses :: "vlq_lib \<Rightarrow> bytes \<Rightarrow> TxAddresses res" where
  "unpackTxAddresses V buf =
     (let (height, l) = unpackVaruint V buf
      in bindR (sliceFromR buf (int l)) (\<lambda>b.
         let (inputs, ll) = unpackVaruint V b;
             l = l + ll
         in bindR (decodeN (unpackTxInput V) (unat inputs) buf l) (\<lambda>(ins, l).
         bindR (sliceFromR buf (int l)) (\<lambda>b.
         let (outputs, ll) = unpackVaruint V b;
             l = l + ll
         in bindR (decodeN (unpackTxOutput V) (unat outputs) buf l) (\<lambda>(outs, l).
         bindR (sliceFromR buf (int l)) (\<lambda>b.
         let (shieldinputs, ll) = unpackVaruint V b;
             l = l + ll
         in bindR (sliceFromR buf (int l)) (\<lambda>b.
         let (shieldoutputs, ll) = unpackVaruint V b;
             l = l + ll
         in bindR (sliceFromR buf (int l)) (\<lambda>b.
         bindR (unpackBigint b) (\<lambda>(valBal, _).
         Ok \<lparr>ta_Height = ucast height, ta_Inputs = ins, ta_Outputs = outs,
             ta_ShieldIns = ucast shieldinputs, ta_ShieldOuts = ucast shieldoutputs,
             ta_ShieldValBal = valBal\<rparr>)))))))))"

section \<open>Transactions of an address in a block\<close>

definition packIndex :: "vlq_lib \<Rightarrow> bool \<Rightarrow> int32 \<Rightarrow> bytes" where
  "packIndex V isLast index =
     (let index = push_bit 1 index;
          index = (if isLast then index OR 1 else index)
      in packVarint32 V index)"

definition packTxIndex :: "vlq_lib \<Rightarrow> txIndexes \<Rightarrow> bytes" where
  "packTxIndex V t =
     txi_btxID t
     @ concat (map (\<lambda>(i, index). packIndex V (i = length (txi_indexes t) - 1) index)
                   (indexed (txi_indexes t)))"

definition packTxIndexes :: "vlq_lib \<Rightarrow> txIndexes list \<Rightarrow> bytes" where
  "packTxIndexes V txi = concat (map (packTxIndex V) (rev txi))"

text \<open>
  The inner loop of \<open>GetAddrDescTransactions\<close>, which reads the indexes of one transaction
  until one has its lowest bit set. An iteration takes at least one byte, so the length of the
  value bounds the number of iterations.
\<close>

fun readIndexes :: "vlq_lib \<Rightarrow> nat \<Rightarrow> bytes \<Rightarrow> (int32 list \<times> bytes) res" where
  "readIndexes V 0 val = Err OutOfFuel"
| "readIndexes V (Suc fuel) val =
     (let (index, l) = unpackVarint32 V val
      in bindR (sliceFromR val (int l)) (\<lambda>val.
         if index AND 1 = 1 \<or> val = [] then Ok ([signed_drop_bit 1 index], val)
         else bindR (readIndexes V fuel val) (\<lambda>(indexes, val).
              Ok (signed_drop_bit 1 index # indexes, val))))"

section \<open>Inputs of a block\<close>

definition packOutpoint :: "vlq_lib \<Rightarrow> outpoint \<Rightarrow> bytes" where
  "packOutpoint V o' = o_btxID o' @ packVarint32 V (o_index o')"

definition packOutpoints :: "vlq_lib \<Rightarrow> outpoint list \<Rightarrow> bytes" where
  "packOutpoints V outpoints = concat (map (packOutpoint V) outpoints)"

fun unpackNOutpointsLoop :: "vlq_lib \<Rightarrow> nat \<Rightarrow> nat \<Rightarrow> bytes \<Rightarrow> nat \<Rightarrow> (outpoint list \<times> nat) res" where
  "unpackNOutpointsLoop V pl 0 buf p = Ok ([], p)"
| "unpackNOutpointsLoop V pl (Suc n) buf p =
     (if p + pl \<ge> length buf then Err (ErrMsg ''Inconsistent data in unpackNOutpoints'')
      else bindR (sliceR buf (int p) (int (p + pl))) (\<lambda>btxID.
           let p = p + pl
           in bindR (sliceFromR buf (int p)) (\<lambda>b.
              let (vout, voutLen) = unpackVarint32 V b;
                  p = p + voutLen
              in bindR (unpackNOutpointsLoop V pl n buf p) (\<lambda>(os, p).
                 Ok (\<lparr>o_btxID = btxID, o_index = vout\<rparr> # os, p)))))"

definition unpackNOutpoints :: "vlq_lib \<Rightarrow> nat \<Rightarrow> bytes \<Rightarrow> (outpoint list \<times> nat) res" where
  "unpackNOutpoints V pl buf =
     (let (n, p) = unpackVaruint V buf in unpackNOutpointsLoop V pl (unat n) buf p)"

section \<open>Block headers\<close>

definition packBlockInfo :: "vlq_lib \<Rightarrow> chain_parser \<Rightarrow> BlockInfo \<Rightarrow> bytes res" where
  "packBlockInfo V P block =
     bindR (cp_PackBlockHash P (bi_Hash block)) (\<lambda>b.
     Ok (b @ packUint (ucast (bi_Time block)) @ packVaruint V (ucast (bi_Txs block))
         @ packVaruint V (ucast (bi_Size block))))"

definition unpackBlockInfo :: "vlq_lib \<Rightarrow> chain_parser \<Rightarrow> bytes \<Rightarrow> BlockInfo option res" where
  "unpackBlockInfo V P buf =
     (let pl = cp_PackedTxidLen P
      in if length buf < pl + 4 + 2 then Ok None
         else bindR (sliceR buf 0 (int pl)) (\<lambda>h.
              bindR (cp_UnpackBlockHash P h) (\<lambda>txid.
              bindR (sliceFromR buf (int pl)) (\<lambda>b.
              bindR (unpackUint b) (\<lambda>t.
              bindR (sliceFromR buf (int (pl + 4))) (\<lambda>b.
              let (txs, l) = unpackVaruint V b
              in bindR (sliceFromR buf (int (pl + 4 + l))) (\<lambda>b.
              let (size, _) = unpackVaruint V b
              in Ok (Some \<lparr>bi_Hash = txid, bi_Time = ucast t, bi_Txs = ucast txs,
                           bi_Size = ucast size, bi_Height = 0\<rparr>))))))))"

section \<open>Decoding what was encoded\<close>

abbreviation lenOk :: "'a list \<Rightarrow> bool" where
  "lenOk xs \<equiv> length xs < 2 ^ 62"

definition okTxInput :: "TxInput \<Rightarrow> bool" where
  "okTxInput ti \<longleftrightarrow> lenOk (ti_AddrDesc ti) \<and> amountOk (ti_ValueSat ti)"

definition okTxOutput :: "TxOutput \<Rightarrow> bool" where
  "okTxOutput to \<longleftrightarrow> lenOk (to_AddrDesc to) \<and> amountOk (to_ValueSat to)"

definition okTxAddresses :: "TxAddresses \<Rightarrow> bool" where
  "okTxAddresses ta \<longleftrightarrow> list_all okTxInput (ta_Inputs ta) \<and> list_all okTxOutput (ta_Outputs ta)
     \<and> lenOk (ta_Inputs ta) \<and> lenOk (ta_Outputs ta) \<and> \<bar>ta_ShieldValBal ta\<bar> < 2 ^ 1984"

lemma sint_of_nat_len: "n < 2 ^ 63 \<Longrightarrow> sint (of_nat n :: 64 word) = int n"
  by (simp add: signed_of_nat signed_take_bit_int_eq_self_iff [THEN iffD2])

lemma unat_of_nat_len: "n < 2 ^ 64 \<Longrightarrow> unat (of_nat n :: 64 word) = n"
  by (simp add: unat_of_nat)

lemma of_nat_not_neg: "n < 2 ^ 63 \<Longrightarrow> \<not> (of_nat n :: 64 word) <s 0"
  by (simp add: word_sless_alt sint_of_nat_len)

lemma not_of_nat_neg: "n < 2 ^ 63 \<Longrightarrow> NOT (of_nat n :: 64 word) <s 0"
proof -
  assume n: "n < 2 ^ 63"
  have bit: "sint w < 0 \<longleftrightarrow> bit w 63" for w :: "64 word"
    using bit_last_iff [of w] by simp
  have "\<not> bit (of_nat n :: 64 word) 63"
    unfolding bit [symmetric] using n by (simp add: sint_of_nat_len)
  then have "bit (NOT (of_nat n :: 64 word)) 63" by (subst bit_not_iff) simp
  then show ?thesis by (simp only: word_sless_alt bit [symmetric] signed_0)
qed

lemma ucast_ucast_u32 [simp]: "(ucast (ucast (h :: u32) :: u64) :: u32) = h"
  by (rule bit_word_eqI) (simp add: bit_simps)

context vlq_documented begin

lemma unpackTxInput_append:
  assumes "okTxInput ti"
  shows "unpackTxInput V (appendTxInput V ti @ rest) = Ok (ti, length (appendTxInput V ti))"
proof -
  define d where "d = ti_AddrDesc ti"
  define p where "p = packVaruint V (len64 d)"
  have len: "length d < 2 ^ 62" "length p \<le> 10"
    using assms pack_length_max by (auto simp: d_def p_def okTxInput_def)
  have enc: "appendTxInput V ti = p @ d @ packBigint (ti_ValueSat ti)"
    by (simp add: appendTxInput_def d_def p_def)
  have "unpackVaruint V (p @ r) = (len64 d, length p)" for r
    by (simp add: p_def codec_simps)
  moreover have "sliceR (p @ d @ r) (int (length p)) (int (length p) + sint (len64 d)) = Ok d" for r
    using len by (intro sliceR_middle) (simp_all add: sint_of_nat_len)
  moreover have al: "unat (len64 d + of_nat (length p)) = length p + length d"
    using len by (simp only: of_nat_add [symmetric], subst unat_of_nat_len) simp_all
  moreover from al have "sliceFromR (p @ d @ r) (uint (len64 d + of_nat (length p))) = Ok r" for r
    using sliceFromR_append [of "p @ d" r] by (simp only: uint_nat) simp
  moreover have "unpackBigint (packBigint (ti_ValueSat ti) @ rest) = Ok (ti_ValueSat ti, length (packBigint (ti_ValueSat ti)))"
    using assms by (intro bigint.dec_enc) (simp add: okTxInput_def)
  ultimately show ?thesis
    by (simp add: unpackTxInput_def enc Let_def) (simp add: d_def)
qed

lemma unpackTxOutput_append:
  assumes "okTxOutput to"
  shows "unpackTxOutput V (appendTxOutput V to @ rest) = Ok (to, length (appendTxOutput V to))"
proof -
  define d where "d = to_AddrDesc to"
  define la where "la = (if to_Spent to then NOT (len64 d) else len64 d)"
  define p where "p = packVarint V la"
  have len: "length d < 2 ^ 62"
    using assms by (auto simp: d_def okTxOutput_def)
  have enc: "appendTxOutput V to = p @ d @ packBigint (to_ValueSat to)"
    by (simp add: appendTxOutput_def d_def p_def la_def Let_def)
  have "unpackVarint V (p @ r) = (la, length p)" for r
    by (simp add: p_def codec_simps)
  moreover have spent: "(la <s 0) = to_Spent to"
    using len of_nat_not_neg [of "length d"] not_of_nat_neg [of "length d"] by (simp add: la_def)
  moreover have al: "(if to_Spent to then NOT la else la) = len64 d"
    by (simp only: la_def bit.double_compl split: if_split) simp
  moreover have "sliceR (p @ d @ r) (int (length p)) (int (length p) + sint (len64 d)) = Ok d" for r
    using len by (intro sliceR_middle) (simp_all add: sint_of_nat_len)
  moreover from al have "sliceFromR (p @ d @ r) (sint (len64 d) + int (length p)) = Ok r" for r
    using sliceFromR_append [of "p @ d" r] len by (simp add: sint_of_nat_len add.commute)
  moreover have "unpackBigint (packBigint (to_ValueSat to) @ rest) = Ok (to_ValueSat to, length (packBigint (to_ValueSat to)))"
    using assms by (intro bigint.dec_enc) (simp add: okTxOutput_def)
  ultimately show ?thesis
    using len unfolding unpackTxOutput_def enc Let_def
    by (simp add: sint_of_nat_len) (simp add: d_def)
qed

end

sublocale vlq_documented \<subseteq> txin: prefix_codec "appendTxInput V" "unpackTxInput V" okTxInput
  by unfold_locales (simp_all add: unpackTxInput_append, simp add: appendTxInput_def)

sublocale vlq_documented \<subseteq> txout: prefix_codec "appendTxOutput V" "unpackTxOutput V" okTxOutput
  by unfold_locales (simp_all add: unpackTxOutput_append, simp add: appendTxOutput_def Let_def)

text \<open>An index whose shift by one bit loses nothing: its two top bits agree.\<close>

definition okIndex :: "int32 \<Rightarrow> bool" where
  "okIndex i \<longleftrightarrow> bit i 30 = bit i 31"

lemma okIndex_of_nat: "n < 2 ^ 30 \<Longrightarrow> okIndex (of_nat n) \<and> okIndex (NOT (of_nat n))"
proof -
  assume n: "n < 2 ^ 30"
  have "\<not> bit n k" if "30 \<le> k" for k
  proof -
    have "n < 2 ^ k" using n that by (meson less_le_trans one_le_numeral power_increasing)
    then show ?thesis by (simp add: bit_iff_odd)
  qed
  then have "\<not> bit (of_nat n :: int32) 30" "\<not> bit (of_nat n :: int32) 31"
    by (simp_all add: bit_of_nat_iff)
  then show ?thesis
    by (simp only: okIndex_def bit_not_iff) simp
qed

lemma bit_shift_index: "bit (push_bit 1 i :: int32) n \<longleftrightarrow> 0 < n \<and> n < 32 \<and> bit i (n - 1)"
  by (simp only: bit_push_bit_iff) auto

lemma shift_index:
  assumes "okIndex i"
  shows "signed_drop_bit 1 (push_bit 1 i) = i" "signed_drop_bit 1 (push_bit 1 i OR 1) = i"
proof -
  have "bit (signed_drop_bit 1 (push_bit 1 i OR 1)) n = bit i n" if "n < 32" for n
    unfolding bit_signed_drop_bit_iff bit_or_iff bit_shift_index
    using that assms by (cases "n = 31") (auto simp: okIndex_def bit_1_iff)
  then show "signed_drop_bit 1 (push_bit 1 i OR 1) = i" by (intro bit_word_eqI) simp
  have "bit (signed_drop_bit 1 (push_bit 1 i)) n = bit i n" if "n < 32" for n
    unfolding bit_signed_drop_bit_iff bit_shift_index
    using that assms by (cases "n = 31") (auto simp: okIndex_def)
  then show "signed_drop_bit 1 (push_bit 1 i) = i" by (intro bit_word_eqI) simp
qed

lemma index_flag: "push_bit 1 i AND 1 = (0 :: int32)" "(push_bit 1 i OR 1) AND 1 = (1 :: int32)"
proof -
  show "push_bit 1 i AND 1 = (0 :: int32)"
    by (rule bit_word_eqI) (simp only: bit_and_iff bit_shift_index bit_1_iff bit_0, auto)
  show "(push_bit 1 i OR 1) AND 1 = (1 :: int32)"
    by (rule bit_word_eqI) (simp only: bit_and_iff bit_or_iff bit_shift_index bit_1_iff, auto)
qed

lemma packIndex_word:
  assumes "okIndex x"
  obtains w where "packIndex V b x = packVarint32 V w" "signed_drop_bit 1 w = x" "(w AND 1 = 1) = b"
proof
  let ?w = "if b then push_bit 1 x OR 1 else push_bit 1 x"
  show "packIndex V b x = packVarint32 V ?w" by (simp only: packIndex_def Let_def)
  show "signed_drop_bit 1 ?w = x" using shift_index [OF assms] by (simp only: split: if_split) simp
  show "(?w AND 1 = 1) = b" using index_flag [of x] by (simp only: split: if_split) simp
qed

definition okTxIndexes :: "nat \<Rightarrow> txIndexes \<Rightarrow> bool" where
  "okTxIndexes pl t \<longleftrightarrow> length (txi_btxID t) = pl \<and> txi_indexes t \<noteq> [] \<and> list_all okIndex (txi_indexes t)"

definition okOutpoint :: "nat \<Rightarrow> outpoint \<Rightarrow> bool" where
  "okOutpoint pl o' \<longleftrightarrow> length (o_btxID o') = pl"

context vlq_documented begin

lemma unpackTxAddresses_pack:
  assumes "okTxAddresses ta"
  shows "unpackTxAddresses V (packTxAddresses V ta) = Ok (ta\<lparr>ta_ShieldValBal := \<bar>ta_ShieldValBal ta\<bar>\<rparr>)"
proof -
  define h iN i oN k m where defs: "h = packVaruint V (ucast (ta_Height ta))"
    "iN = packVaruint V (len64 (ta_Inputs ta))" "i = concat (map (appendTxInput V) (ta_Inputs ta))"
    "oN = packVaruint V (len64 (ta_Outputs ta))" "k = concat (map (appendTxOutput V) (ta_Outputs ta))"
    "m = packVaruint V (ucast (ta_ShieldIns ta))"
  define n b where defs2: "n = packVaruint V (ucast (ta_ShieldOuts ta))" "b = packBigint (ta_ShieldValBal ta)"
  let ?buf = "h @ iN @ i @ oN @ k @ m @ n @ b"
  have buf: "packTxAddresses V ta = ?buf" by (simp add: packTxAddresses_def defs defs2)
  have slices: "sliceFromR ?buf (int (length h)) = Ok (iN @ i @ oN @ k @ m @ n @ b)"
      "sliceFromR ?buf (int (length h + length iN + length i)) = Ok (oN @ k @ m @ n @ b)"
      "sliceFromR ?buf (int (length h + length iN + length i + length oN + length k)) = Ok (m @ n @ b)"
      "sliceFromR ?buf (int (length h + length iN + length i + length oN + length k + length m)) = Ok (n @ b)"
      "sliceFromR ?buf (int (length h + length iN + length i + length oN + length k + length m + length n)) = Ok b"
    using sliceFromR_append [of h "iN @ i @ oN @ k @ m @ n @ b"]
      sliceFromR_append [of "h @ iN @ i" "oN @ k @ m @ n @ b"]
      sliceFromR_append [of "h @ iN @ i @ oN @ k" "m @ n @ b"]
      sliceFromR_append [of "h @ iN @ i @ oN @ k @ m" "n @ b"]
      sliceFromR_append [of "h @ iN @ i @ oN @ k @ m @ n" "b"]
    by (simp_all add: add.assoc)
  have ints: "unpackVaruint V (h @ r) = (ucast (ta_Height ta), length h)"
      "unpackVaruint V (iN @ r) = (len64 (ta_Inputs ta), length iN)"
      "unpackVaruint V (oN @ r) = (len64 (ta_Outputs ta), length oN)"
      "unpackVaruint V (m @ r) = (ucast (ta_ShieldIns ta), length m)"
      "unpackVaruint V (n @ r) = (ucast (ta_ShieldOuts ta), length n)" for r
    by (simp_all add: defs defs2 codec_simps)
  have counts: "unat (len64 (ta_Inputs ta)) = length (ta_Inputs ta)"
      "unat (len64 (ta_Outputs ta)) = length (ta_Outputs ta)"
    using assms by (simp_all add: okTxAddresses_def unat_of_nat_len)
  have ins: "decodeN (unpackTxInput V) (length (ta_Inputs ta)) ?buf (length h + length iN)
      = Ok (ta_Inputs ta, length h + length iN + length i)"
    using txin.decodeN_concat [of "ta_Inputs ta" "h @ iN" "oN @ k @ m @ n @ b"] assms
    by (simp add: okTxAddresses_def defs)
  have outs: "decodeN (unpackTxOutput V) (length (ta_Outputs ta)) ?buf (length h + length iN + length i + length oN)
      = Ok (ta_Outputs ta, length h + length iN + length i + length oN + length k)"
    using txout.decodeN_concat [of "ta_Outputs ta" "h @ iN @ i @ oN" "m @ n @ b"] assms
    by (simp add: okTxAddresses_def defs add.assoc)
  have big: "unpackBigint b = Ok (\<bar>ta_ShieldValBal ta\<bar>, length b)"
    using assms unpackBigint_packBigint [of "ta_ShieldValBal ta" "[]"]
    by (simp add: okTxAddresses_def defs2 bigintStored_small)
  show ?thesis
    unfolding buf unpackTxAddresses_def
    by (simp add: Let_def ints slices counts ins outs big del: of_nat_add)
qed

lemma readIndexes_pack:
  assumes "is \<noteq> []" "list_all okIndex is" "length is \<le> fuel"
  shows "readIndexes V fuel (concat (map (\<lambda>(i, index). packIndex V (i = length is - 1) index) (indexed is)) @ rest)
      = Ok (is, rest)"
proof -
  have "readIndexes V fuel (concat (map (\<lambda>(i, index). packIndex V (i = n + length is - 1) index) (zip [n..<n + length is] is)) @ rest)
      = Ok (is, rest)" for n
    using assms
  proof (induction "is" arbitrary: n fuel)
    case (Cons x xs)
    then obtain f where f: "fuel = Suc f" by (cases fuel) auto
    obtain w where w: "packIndex V (xs = []) x = packVarint32 V w" "signed_drop_bit 1 w = x"
        "(w AND 1 = 1) = (xs = [])"
      using Cons.prems packIndex_word [of x V "xs = []"] by auto
    define r where "r = concat (map (\<lambda>(i, index). packIndex V (i = Suc n + length xs - 1) index) (zip [Suc n..<Suc n + length xs] xs))"
    have r: "r = [] \<longleftrightarrow> xs = []" by (cases xs) (auto simp: r_def packIndex_def Let_def upt_rec)
    have zip: "zip [n..<n + length (x # xs)] (x # xs) = (n, x) # zip [Suc n..<Suc n + length xs] xs"
        "(n = n + length (x # xs) - 1) = (xs = [])" "n + length (x # xs) = Suc n + length xs"
      by (auto simp: upt_rec)
    have enc: "concat (map (\<lambda>(i, index). packIndex V (i = n + length (x # xs) - 1) index)
        (zip [n..<n + length (x # xs)] (x # xs))) = packVarint32 V w @ r"
      unfolding zip(1) by (simp add: r_def w(1) [symmetric] zip(3) del: upt_Suc)
    have "readIndexes V f (r @ rest) = Ok (xs, rest)" if "xs \<noteq> []"
      using Cons that f unfolding r_def by (intro Cons.IH) auto
    then show ?case
      unfolding enc f using w r by (cases "xs = []") (simp_all add: codec_simps)
  qed simp
  from this [of 0] show ?thesis by (simp add: indexed_def)
qed

lemma unpackNOutpointsLoop_pack:
  assumes "list_all (okOutpoint pl) os"
  shows "unpackNOutpointsLoop V pl (length os) (pre @ packOutpoints V os @ rest) (length pre)
      = Ok (os, length pre + length (packOutpoints V os))"
  using assms
proof (induction os arbitrary: pre)
  case Nil
  then show ?case by (simp add: packOutpoints_def)
next
  case (Cons x os)
  define v where "v = packVarint32 V (o_index x)"
  define r where "r = packOutpoints V os @ rest"
  have pl: "length (o_btxID x) = pl" using Cons.prems by (simp add: okOutpoint_def)
  have buf: "pre @ packOutpoints V (x # os) @ rest = pre @ o_btxID x @ v @ r"
      "length (packOutpoints V (x # os)) = pl + length v + length (packOutpoints V os)"
    using pl by (simp_all add: packOutpoints_def packOutpoint_def v_def r_def)
  have v: "0 < length v" "unpackVarint32 V (v @ r) = (o_index x, length v)"
    by (simp_all add: v_def codec_simps)
  have slices: "sliceR (pre @ o_btxID x @ v @ r) (int (length pre)) (int (length pre + pl)) = Ok (o_btxID x)"
      "sliceFromR (pre @ o_btxID x @ v @ r) (int (length pre + pl)) = Ok (v @ r)"
    using sliceR_middle [of "int (length pre)" pre _ "o_btxID x" "v @ r"]
      sliceFromR_append [of "pre @ o_btxID x" "v @ r"] pl by simp_all
  have "unpackNOutpointsLoop V pl (length os) ((pre @ o_btxID x @ v) @ packOutpoints V os @ rest)
      (length (pre @ o_btxID x @ v))
      = Ok (os, length (pre @ o_btxID x @ v) + length (packOutpoints V os))"
    using Cons by (intro Cons.IH) simp
  then have "unpackNOutpointsLoop V pl (length os) (pre @ o_btxID x @ v @ r) (length pre + pl + length v)
      = Ok (os, length pre + pl + length v + length (packOutpoints V os))"
    using pl by (simp add: r_def add.assoc)
  then show ?case
    unfolding buf using v slices pl by (simp add: Let_def del: of_nat_add)
qed

lemma unpackNOutpoints_pack:
  assumes "list_all (okOutpoint pl) os" "lenOk os"
  shows "unpackNOutpoints V pl (packVaruint V (len64 os) @ packOutpoints V os @ rest)
      = Ok (os, length (packVaruint V (len64 os)) + length (packOutpoints V os))"
  using unpackNOutpointsLoop_pack [OF assms(1), of "packVaruint V (len64 os)" rest] assms(2)
  by (simp add: unpackNOutpoints_def codec_simps unat_of_nat_len)

text \<open>A block header reads back, with its time cut to 32 bits and no height.\<close>

lemma unpackBlockInfo_pack:
  assumes hash: "cp_PackBlockHash P (bi_Hash b) = Ok h" "length h = cp_PackedTxidLen P"
      "cp_UnpackBlockHash P h = Ok (bi_Hash b)"
  shows "packBlockInfo V P b = Ok buf
    \<Longrightarrow> unpackBlockInfo V P buf = Ok (Some (b\<lparr>bi_Time := ucast (ucast (bi_Time b) :: u32), bi_Height := 0\<rparr>))"
proof -
  assume pack: "packBlockInfo V P b = Ok buf"
  define t x y where defs: "t = packUint (ucast (bi_Time b))" "x = packVaruint V (ucast (bi_Txs b))"
    "y = packVaruint V (ucast (bi_Size b))"
  have buf: "buf = h @ t @ x @ y" using pack hash by (simp add: packBlockInfo_def defs)
  have len: "length t = 4" "1 \<le> length x" "1 \<le> length y"
    by (simp_all add: defs Suc_le_eq)
  have ints: "unpackUint (t @ r) = Ok (ucast (bi_Time b))" "unpackVaruint V (x @ r) = (ucast (bi_Txs b), length x)"
      "unpackVaruint V y = (ucast (bi_Size b), length y)" for r
    using varuint.dec_enc_alone by (simp_all add: defs codec_simps)
  have slices: "sliceR buf 0 (int (cp_PackedTxidLen P)) = Ok h"
      "sliceFromR buf (int (cp_PackedTxidLen P)) = Ok (t @ x @ y)"
      "sliceFromR buf (int (cp_PackedTxidLen P + 4)) = Ok (x @ y)"
      "sliceFromR buf (int (cp_PackedTxidLen P + 4 + length x)) = Ok y"
    using sliceR_prefix [of h "t @ x @ y"] sliceFromR_append [of h "t @ x @ y"]
      sliceFromR_append [of "h @ t" "x @ y"] sliceFromR_append [of "h @ t @ x" y] hash len
    by (simp_all add: buf add.assoc)
  have "\<not> length buf < cp_PackedTxidLen P + 4 + 2" using hash len by (simp add: buf)
  then show ?thesis
    unfolding unpackBlockInfo_def Let_def using slices hash ints
    by (simp add: slices del: of_nat_add)
qed

end

section \<open>Properties\<close>

text \<open>
  C4: the stored form of a transaction reads back as the same height, inputs, outputs (with
  their spent flags) and shield counts, whatever the sizes; of the shield value balance the
  encoding keeps the absolute value only.
\<close>

theorem txAddresses_roundtrip:
  assumes "vlq_documented V" "okTxAddresses ta"
  shows "unpackTxAddresses V (packTxAddresses V ta) = Ok (ta\<lparr>ta_ShieldValBal := \<bar>ta_ShieldValBal ta\<bar>\<rparr>)"
  using vlq_documented.unpackTxAddresses_pack [OF assms] .

definition sampleTxAddresses :: TxAddresses where
  "sampleTxAddresses = \<lparr>ta_Height = 300, ta_Inputs = [\<lparr>ti_AddrDesc = [1, 2], ti_ValueSat = 70000\<rparr>],
     ta_Outputs = [\<lparr>to_AddrDesc = [9], to_Spent = True, to_ValueSat = 5\<rparr>,
                   \<lparr>to_AddrDesc = [], to_Spent = False, to_ValueSat = 0\<rparr>],
     ta_ShieldIns = 1, ta_ShieldOuts = 1, ta_ShieldValBal = - 6\<rparr>"

text \<open>C4 at a transaction with a spent output and a negative shield balance.\<close>

theorem txAddresses_roundtrip_witness:
  "unpackTxAddresses vlq128 (packTxAddresses vlq128 sampleTxAddresses)
     = Ok (sampleTxAddresses\<lparr>ta_ShieldValBal := 6\<rparr>)"
proof -
  have "okTxAddresses sampleTxAddresses"
    by (simp add: okTxAddresses_def sampleTxAddresses_def okTxInput_def okTxOutput_def amountOk_def)
  from txAddresses_roundtrip [OF vlq128.vlq_documented_axioms this] show ?thesis
    by (simp add: sampleTxAddresses_def)
qed

end
