(* ===== verification/AddrBalances.thy ===== *)
theory AddrBalances
  imports DbRecords
begin

text \<open>
  The balance of an address (\<open>AddrBalance\<close> in \<open>src/db/rocksdb.go\<close>): the list of its outputs
  with the index by transaction id that is built from the sixteenth output on, spending an
  output, and the encoding of the balance, which drops spent outputs.
\<close>

section \<open>Operations\<close>

fun hasUtxoLinear :: "bytes \<Rightarrow> int32 \<Rightarrow> Utxo list \<Rightarrow> bool" where
  "hasUtxoLinear btxID vout [] = False"
| "hasUtxoLinear btxID vout (utxo # us) =
     (if u_BtxID utxo = btxID \<and> u_Vout utxo = vout then True else hasUtxoLinear btxID vout us)"

definition hasUtxo :: "AddrBalance \<Rightarrow> bytes \<Rightarrow> int32 \<Rightarrow> bool res" where
  "hasUtxo ab btxID vout =
     (if length (ab_utxosMap ab) > 0
      then (case mapGet (ab_utxosMap ab) btxID of
              Some i \<Rightarrow> bindR (indexR (ab_Utxos ab) (int i)) (\<lambda>u. Ok (u_Vout u = vout))
            | None \<Rightarrow> Ok False)
      else Ok (hasUtxoLinear btxID vout (ab_Utxos ab)))"

text \<open>\<open>if _, e := m[s]; !e { m[s] = i }\<close>\<close>

definition putIfAbsent :: "bytes \<Rightarrow> nat \<Rightarrow> (bytes, nat) gomap \<Rightarrow> (bytes, nat) gomap" where
  "putIfAbsent s i m = (case mapGet m s of None \<Rightarrow> mapPut s i m | Some _ \<Rightarrow> m)"

definition addUtxo :: "Utxo \<Rightarrow> AddrBalance \<Rightarrow> AddrBalance" where
  "addUtxo u ab =
     (let us = ab_Utxos ab @ [u];
          l = length us;
          m = (if l \<ge> 16
               then if length (ab_utxosMap ab) = 0
                    then fold (\<lambda>(i, x). putIfAbsent (u_BtxID x) i) (indexed us) []
                    else putIfAbsent (u_BtxID u) (l - 1) (ab_utxosMap ab)
               else ab_utxosMap ab)
      in ab\<lparr>ab_Utxos := us, ab_utxosMap := m\<rparr>)"

text \<open>
  The two searches of \<open>markUtxoAsSpent\<close>. The linear one compares the first eight bytes of the
  two ids through \<open>unsafe.Pointer\<close> before it compares them whole, which panics on an empty
  id and otherwise adds nothing.
\<close>

fun markLinear :: "bytes \<Rightarrow> int32 \<Rightarrow> Utxo list \<Rightarrow> Utxo list res" where
  "markLinear btxID vout [] = Ok []"
| "markLinear btxID vout (utxo # us) =
     (if u_Vout utxo = vout
      then if u_BtxID utxo = [] \<or> btxID = [] then Err (Panic ''index out of range'')
           else if u_BtxID utxo = btxID then Ok (utxo\<lparr>u_Vout := - 1\<rparr> # us)
           else bindR (markLinear btxID vout us) (\<lambda>us. Ok (utxo # us))
      else bindR (markLinear btxID vout us) (\<lambda>us. Ok (utxo # us)))"

fun markIndexed :: "bytes \<Rightarrow> int32 \<Rightarrow> Utxo list \<Rightarrow> Utxo list" where
  "markIndexed btxID vout [] = []"
| "markIndexed btxID vout (utxo # us) =
     (if u_Vout utxo = vout
      then if u_BtxID utxo = btxID then utxo\<lparr>u_Vout := - 1\<rparr> # us else utxo # us
      else utxo # markIndexed btxID vout us)"

definition markUtxoAsSpent :: "bytes \<Rightarrow> int32 \<Rightarrow> AddrBalance \<Rightarrow> AddrBalance res" where
  "markUtxoAsSpent btxID vout ab =
     (if length (ab_utxosMap ab) = 0
      then bindR (markLinear btxID vout (ab_Utxos ab)) (\<lambda>us. Ok (ab\<lparr>ab_Utxos := us\<rparr>))
      else case mapGet (ab_utxosMap ab) btxID of
             Some i \<Rightarrow> Ok (ab\<lparr>ab_Utxos := take i (ab_Utxos ab)
                               @ markIndexed btxID vout (drop i (ab_Utxos ab))\<rparr>)
           | None \<Rightarrow> Ok ab)"

section \<open>Encoding\<close>

definition packUtxo :: "vlq_lib \<Rightarrow> Utxo \<Rightarrow> bytes" where
  "packUtxo V utxo =
     u_BtxID utxo @ packVaruint V (scast (u_Vout utxo)) @ packVaruint V (ucast (u_Height utxo))
     @ packBigint (u_ValueSat utxo)"

definition packAddrBalance :: "vlq_lib \<Rightarrow> AddrBalance \<Rightarrow> bytes" where
  "packAddrBalance V ab =
     packVaruint V (ucast (ab_Txs ab)) @ packBigint (ab_SentSat ab) @ packBigint (ab_BalanceSat ab)
     @ concat (map (\<lambda>utxo. if 0 \<le>s u_Vout utxo then packUtxo V utxo else []) (ab_Utxos ab))"

definition unpackUtxo :: "vlq_lib \<Rightarrow> nat \<Rightarrow> bytes \<Rightarrow> nat \<Rightarrow> (Utxo \<times> nat) res" where
  "unpackUtxo V pl buf l =
     bindR (sliceR buf (int l) (int (l + pl))) (\<lambda>btxID.
     let l = l + pl
     in bindR (sliceFromR buf (int l)) (\<lambda>b.
     let (vout, ll) = unpackVaruint V b;
         l = l + ll
     in bindR (sliceFromR buf (int l)) (\<lambda>b.
     let (height, ll) = unpackVaruint V b;
         l = l + ll
     in bindR (sliceFromR buf (int l)) (\<lambda>b.
        bindR (unpackBigint b) (\<lambda>(valueSat, ll).
        Ok (\<lparr>u_BtxID = btxID, u_Vout = ucast vout, u_Height = ucast height, u_ValueSat = valueSat\<rparr>,
            l + ll))))))"

text \<open>
  The loop \<open>for len(buf[l:]) >= txidUnpackedLen+3\<close>. An iteration takes at least one byte, for
  the value, so the length of the buffer bounds the number of iterations.
\<close>

fun unpackUtxos :: "vlq_lib \<Rightarrow> nat \<Rightarrow> AddressBalanceDetail \<Rightarrow> nat \<Rightarrow> bytes \<Rightarrow> nat \<Rightarrow> AddrBalance \<Rightarrow> AddrBalance res" where
  "unpackUtxos V pl detail 0 buf l ab = Err OutOfFuel"
| "unpackUtxos V pl detail (Suc fuel) buf l ab =
     bindR (sliceFromR buf (int l)) (\<lambda>b.
       if length b \<ge> pl + 3
       then bindR (unpackUtxo V pl buf l) (\<lambda>(u, l).
            unpackUtxos V pl detail fuel buf l
              (if detail = AddressBalanceDetailUTXO then ab\<lparr>ab_Utxos := ab_Utxos ab @ [u]\<rparr>
               else addUtxo u ab))
       else Ok ab)"

definition unpackAddrBalance :: "vlq_lib \<Rightarrow> bytes \<Rightarrow> nat \<Rightarrow> AddressBalanceDetail \<Rightarrow> AddrBalance res" where
  "unpackAddrBalance V buf txidUnpackedLen detail =
     (let (txs, l) = unpackVaruint V buf
      in bindR (sliceFromR buf (int l)) (\<lambda>b.
         bindR (unpackBigint b) (\<lambda>(sentSat, sl).
         bindR (sliceFromR buf (int (l + sl))) (\<lambda>b.
         bindR (unpackBigint b) (\<lambda>(balanceSat, bl).
         let l = l + sl + bl;
             ab = \<lparr>ab_Txs = ucast txs, ab_SentSat = sentSat, ab_BalanceSat = balanceSat,
                   ab_Utxos = [], ab_utxosMap = []\<rparr>
         in if detail \<noteq> AddressBalanceDetailNoUTXO
            then bindR (sliceFromR buf (int l)) (\<lambda>_.
                 unpackUtxos V txidUnpackedLen detail (Suc (length buf)) buf l ab)
            else Ok ab)))))"

section \<open>The index of outputs by transaction\<close>

text \<open>Position of the first output of a transaction.\<close>

fun firstIndex :: "Utxo list \<Rightarrow> bytes \<Rightarrow> nat option" where
  "firstIndex [] b = None"
| "firstIndex (u # us) b = (if u_BtxID u = b then Some 0 else map_option Suc (firstIndex us b))"

text \<open>
  The index, once built, maps a transaction id to the position of its first output; it is
  built when there are sixteen.
\<close>

definition wfIndex :: "AddrBalance \<Rightarrow> bool" where
  "wfIndex ab \<longleftrightarrow> wfMap (ab_utxosMap ab)
     \<and> (ab_utxosMap ab \<noteq> [] \<longrightarrow> 16 \<le> length (ab_Utxos ab)
          \<and> mapGet (ab_utxosMap ab) = firstIndex (ab_Utxos ab))"

lemma firstIndex_snoc:
  "firstIndex (us @ [u]) b =
     (case firstIndex us b of Some i \<Rightarrow> Some i | None \<Rightarrow> if u_BtxID u = b then Some (length us) else None)"
  by (induction us) (auto split: option.splits)

lemma firstIndex_map_id: "map u_BtxID us = map u_BtxID vs \<Longrightarrow> firstIndex us = firstIndex vs"
proof (induction us arbitrary: vs)
  case (Cons u us)
  then obtain v vs' where "vs = v # vs'" "u_BtxID u = u_BtxID v" "map u_BtxID us = map u_BtxID vs'"
    by (cases vs) auto
  with Cons.IH [of vs'] show ?case by (simp add: fun_eq_iff)
qed simp

lemma firstIndex_SomeD: "firstIndex us b = Some i \<Longrightarrow> i < length us \<and> u_BtxID (us ! i) = b \<and> (\<forall>j < i. u_BtxID (us ! j) \<noteq> b)"
proof (induction us arbitrary: i)
  case (Cons u us)
  then show ?case
    by (cases i) (auto split: if_splits simp: less_Suc_eq_0_disj)
qed simp

lemma firstIndex_None: "firstIndex us b = None \<longleftrightarrow> b \<notin> u_BtxID ` set us"
  by (induction us) auto

lemma wfMap_putIfAbsent: "wfMap m \<Longrightarrow> wfMap (putIfAbsent s i m)"
  by (simp add: putIfAbsent_def split: option.splits)

lemma buildIndex:
  "wfMap (fold (\<lambda>(i, x). putIfAbsent (u_BtxID x) i) (indexed us) [])
   \<and> mapGet (fold (\<lambda>(i, x). putIfAbsent (u_BtxID x) i) (indexed us) []) = firstIndex us"
proof (induction us rule: rev_induct)
  case Nil
  then show ?case by (simp add: fun_eq_iff)
next
  case (snoc u us)
  then show ?case
    by (auto simp: indexed_append wfMap_putIfAbsent putIfAbsent_def fun_eq_iff firstIndex_snoc
        split: option.splits)
qed

lemma addUtxo_wfIndex: "wfIndex ab \<Longrightarrow> wfIndex (addUtxo u ab)"
proof -
  assume wf: "wfIndex ab"
  show ?thesis
  proof (cases "ab_utxosMap ab = []")
    case True
    then show ?thesis
      using buildIndex [of "ab_Utxos ab @ [u]"] by (simp add: addUtxo_def wfIndex_def Let_def)
  next
    case False
    with wf have "16 \<le> length (ab_Utxos ab)" "mapGet (ab_utxosMap ab) = firstIndex (ab_Utxos ab)"
        "wfMap (ab_utxosMap ab)"
      by (auto simp: wfIndex_def)
    with False show ?thesis
      by (auto simp: addUtxo_def wfIndex_def Let_def wfMap_putIfAbsent putIfAbsent_def fun_eq_iff firstIndex_snoc
          split: option.splits)
  qed
qed

section \<open>Decoding a balance\<close>

abbreviation isLive :: "Utxo \<Rightarrow> bool" where
  "isLive u \<equiv> 0 \<le>s u_Vout u"

definition liveUtxos :: "AddrBalance \<Rightarrow> Utxo list" where
  "liveUtxos ab = filter isLive (ab_Utxos ab)"

definition okUtxo :: "nat \<Rightarrow> Utxo \<Rightarrow> bool" where
  "okUtxo pl u \<longleftrightarrow> length (u_BtxID u) = pl \<and> amountOk (u_ValueSat u)"

definition okAddrBalance :: "nat \<Rightarrow> AddrBalance \<Rightarrow> bool" where
  "okAddrBalance pl ab \<longleftrightarrow> list_all (okUtxo pl) (liveUtxos ab)
     \<and> amountOk (ab_SentSat ab) \<and> amountOk (ab_BalanceSat ab)"

text \<open>What a reader of the stored balance gets, by the detail asked for.\<close>

definition storedBalance :: "AddressBalanceDetail \<Rightarrow> AddrBalance \<Rightarrow> AddrBalance" where
  "storedBalance detail ab =
     (let ab0 = ab\<lparr>ab_Utxos := [], ab_utxosMap := []\<rparr>
      in case detail of
           AddressBalanceDetailNoUTXO \<Rightarrow> ab0
         | AddressBalanceDetailUTXO \<Rightarrow> ab0\<lparr>ab_Utxos := liveUtxos ab\<rparr>
         | AddressBalanceDetailUTXOIndexed \<Rightarrow> fold addUtxo (liveUtxos ab) ab0)"

lemma ucast_scast_vout [simp]: "(ucast (scast (v :: int32) :: u64) :: int32) = v"
  by (rule bit_word_eqI) (simp add: bit_simps)

lemma packAddrBalance_alt:
  "packAddrBalance V ab = packVaruint V (ucast (ab_Txs ab)) @ packBigint (ab_SentSat ab)
     @ packBigint (ab_BalanceSat ab) @ concat (map (packUtxo V) (liveUtxos ab))"
proof -
  have "concat (map (\<lambda>u. if isLive u then packUtxo V u else []) us) = concat (map (packUtxo V) (filter isLive us))" for us
    by (induction us) auto
  then show ?thesis by (simp add: packAddrBalance_def liveUtxos_def)
qed

context vlq_documented begin

lemma length_packUtxo: "okUtxo pl u \<Longrightarrow> pl + 3 \<le> length (packUtxo V u)"
proof -
  assume "okUtxo pl u"
  moreover have "1 \<le> length (packVaruint V x)" for x by (simp add: Suc_le_eq)
  from this [of "scast (u_Vout u)"] this [of "ucast (u_Height u)"]
  have "2 \<le> length (packVaruint V (scast (u_Vout u))) + length (packVaruint V (ucast (u_Height u)))"
    by linarith
  ultimately show ?thesis by (simp add: okUtxo_def packUtxo_def packBigint_correct)
qed

lemma unpackUtxo_pack:
  assumes "okUtxo pl u"
  shows "unpackUtxo V pl (pre @ packUtxo V u @ rest) (length pre)
      = Ok (u, length pre + length (packUtxo V u))"
proof -
  define t x y z where defs: "t = u_BtxID u" "x = packVaruint V (scast (u_Vout u))"
    "y = packVaruint V (ucast (u_Height u))" "z = packBigint (u_ValueSat u)"
  have buf: "packUtxo V u = t @ x @ y @ z" by (simp add: packUtxo_def defs)
  have pl: "length t = pl" using assms by (simp add: okUtxo_def defs)
  have slices: "sliceR (pre @ t @ x @ y @ z @ rest) (int (length pre)) (int (length pre + pl)) = Ok t"
      "sliceFromR (pre @ t @ x @ y @ z @ rest) (int (length pre + pl)) = Ok (x @ y @ z @ rest)"
      "sliceFromR (pre @ t @ x @ y @ z @ rest) (int (length pre + pl + length x)) = Ok (y @ z @ rest)"
      "sliceFromR (pre @ t @ x @ y @ z @ rest) (int (length pre + pl + length x + length y)) = Ok (z @ rest)"
    using sliceR_middle [of "int (length pre)" pre _ t "x @ y @ z @ rest"]
      sliceFromR_append [of "pre @ t" "x @ y @ z @ rest"] sliceFromR_append [of "pre @ t @ x" "y @ z @ rest"]
      sliceFromR_append [of "pre @ t @ x @ y" "z @ rest"] pl
    by (simp_all add: add.assoc)
  have ints: "unpackVaruint V (x @ r) = (scast (u_Vout u), length x)"
      "unpackVaruint V (y @ r) = (ucast (u_Height u), length y)" for r
    by (simp_all add: defs codec_simps)
  have big: "unpackBigint (z @ rest) = Ok (u_ValueSat u, length z)"
    using assms bigint.dec_enc [of "u_ValueSat u"] by (simp add: okUtxo_def defs)
  show ?thesis
    unfolding unpackUtxo_def buf Let_def
    by (simp add: slices ints big pl del: of_nat_add) (simp add: defs(1))
qed

lemma unpackUtxos_pack:
  assumes "list_all (okUtxo pl) us" "length us < fuel"
  shows "unpackUtxos V pl detail fuel (pre @ concat (map (packUtxo V) us)) (length pre) ab
      = Ok (if detail = AddressBalanceDetailUTXO then ab\<lparr>ab_Utxos := ab_Utxos ab @ us\<rparr> else fold addUtxo us ab)"
  using assms
proof (induction us arbitrary: pre fuel ab)
  case Nil
  then obtain f where "fuel = Suc f" by (cases fuel) auto
  then show ?case using sliceFromR_append [of pre "[]"] by simp
next
  case (Cons u us)
  then obtain f where f: "fuel = Suc f" by (cases fuel) auto
  have u: "okUtxo pl u" using Cons.prems by simp
  define r where "r = concat (map (packUtxo V) us)"
  have IH: "unpackUtxos V pl detail f (pre @ packUtxo V u @ r) (length pre + length (packUtxo V u)) ab'
      = Ok (if detail = AddressBalanceDetailUTXO then ab'\<lparr>ab_Utxos := ab_Utxos ab' @ us\<rparr> else fold addUtxo us ab')"
    for ab'
    using Cons.IH [of f "pre @ packUtxo V u" ab'] Cons.prems f by (simp add: r_def)
  have "sliceFromR (pre @ packUtxo V u @ r) (int (length pre)) = Ok (packUtxo V u @ r)"
    by (rule sliceFromR_append)
  then show ?case
    using length_packUtxo [OF u] f
    by (simp add: r_def [symmetric] unpackUtxo_pack [OF u] IH)
qed

lemma unpackAddrBalance_pack:
  assumes "okAddrBalance pl ab"
  shows "unpackAddrBalance V (packAddrBalance V ab) pl detail = Ok (storedBalance detail ab)"
proof -
  define x y z r where defs: "x = packVaruint V (ucast (ab_Txs ab))" "y = packBigint (ab_SentSat ab)"
    "z = packBigint (ab_BalanceSat ab)" "r = concat (map (packUtxo V) (liveUtxos ab))"
  have buf: "packAddrBalance V ab = x @ y @ z @ r" by (simp add: packAddrBalance_alt defs)
  have slices: "sliceFromR (x @ y @ z @ r) (int (length x)) = Ok (y @ z @ r)"
      "sliceFromR (x @ y @ z @ r) (int (length x + length y)) = Ok (z @ r)"
      "sliceFromR (x @ y @ z @ r) (int (length x + length y + length z)) = Ok r"
    using sliceFromR_append [of x "y @ z @ r"] sliceFromR_append [of "x @ y" "z @ r"]
      sliceFromR_append [of "x @ y @ z" r] by (simp_all add: add.assoc)
  have nums: "unpackVaruint V (x @ s) = (ucast (ab_Txs ab), length x)"
      "unpackBigint (y @ s) = Ok (ab_SentSat ab, length y)"
      "unpackBigint (z @ s) = Ok (ab_BalanceSat ab, length z)" for s
    using assms bigint.dec_enc [of "ab_SentSat ab"] bigint.dec_enc [of "ab_BalanceSat ab"]
    by (simp_all add: defs codec_simps okAddrBalance_def)
  have "length us \<le> length (concat (map (packUtxo V) us))" if "list_all (okUtxo pl) us" for us
    using that
  proof (induction us)
    case (Cons u us)
    then show ?case using length_packUtxo [of pl u] by simp
  qed simp
  then have "length (liveUtxos ab) < Suc (length (x @ y @ z @ r))"
    using assms by (simp add: okAddrBalance_def defs) (meson le_imp_less_Suc trans_le_add2)
  from unpackUtxos_pack [OF _ this, of pl detail "x @ y @ z"] assms
  have "unpackUtxos V pl detail (Suc (length (x @ y @ z @ r))) (x @ y @ z @ r) (length x + length y + length z) ab'
      = Ok (if detail = AddressBalanceDetailUTXO then ab'\<lparr>ab_Utxos := ab_Utxos ab' @ liveUtxos ab\<rparr>
            else fold addUtxo (liveUtxos ab) ab')" for ab'
    by (simp add: okAddrBalance_def defs(4) add.assoc)
  moreover have ab: "\<lparr>ab_Txs = ab_Txs ab, ab_SentSat = ab_SentSat ab,
      ab_BalanceSat = ab_BalanceSat ab, ab_Utxos = [], ab_utxosMap = []\<rparr> = ab\<lparr>ab_Utxos := [], ab_utxosMap := []\<rparr>"
    by simp
  ultimately show ?thesis
    unfolding unpackAddrBalance_def buf storedBalance_def
    by (cases detail) (simp_all add: Let_def nums slices ab del: of_nat_add)
qed

end

section \<open>Spending an output\<close>

text \<open>The reference: the first output with that transaction and number is marked.\<close>

fun spendFirst :: "bytes \<Rightarrow> int32 \<Rightarrow> Utxo list \<Rightarrow> Utxo list" where
  "spendFirst b v [] = []"
| "spendFirst b v (u # us) =
     (if u_BtxID u = b \<and> u_Vout u = v then u\<lparr>u_Vout := - 1\<rparr> # us else u # spendFirst b v us)"

text \<open>The outputs of one transaction are next to each other in the list.\<close>

definition grouped :: "Utxo list \<Rightarrow> bool" where
  "grouped us \<longleftrightarrow> distinct (remdups_adj (map u_BtxID us))"

definition idsOk :: "Utxo list \<Rightarrow> bool" where
  "idsOk us \<longleftrightarrow> list_all (\<lambda>u. u_BtxID u \<noteq> []) us"

lemma map_id_spendFirst [simp]: "map u_BtxID (spendFirst b v us) = map u_BtxID us"
  by (induction us) auto

lemma length_spendFirst [simp]: "length (spendFirst b v us) = length us"
  by (induction us) auto

lemma spendFirst_absent: "b \<notin> u_BtxID ` set us \<Longrightarrow> spendFirst b v us = us"
  by (induction us) auto

lemma grouped_spendFirst [simp]: "grouped (spendFirst b v us) = grouped us"
  by (simp add: grouped_def)

lemma idsOk_map: "idsOk us \<longleftrightarrow> [] \<notin> set (map u_BtxID us)"
  by (force simp: idsOk_def list_all_iff)

lemma idsOk_spendFirst [simp]: "idsOk (spendFirst b v us) = idsOk us"
  by (simp only: idsOk_map map_id_spendFirst)

lemma markLinear_reference: "b \<noteq> [] \<Longrightarrow> idsOk us \<Longrightarrow> markLinear b v us = Ok (spendFirst b v us)"
  by (induction us) (auto simp: idsOk_def)

lemma grouped_Cons: "grouped (u # us) \<Longrightarrow> grouped us"
  by (cases us) (auto simp: grouped_def split: if_splits)

lemma grouped_leave:
  "grouped (x # y # us) \<Longrightarrow> u_BtxID x \<noteq> u_BtxID y \<Longrightarrow> u_BtxID x \<notin> u_BtxID ` set (y # us)"
  by (auto simp: grouped_def)

lemma markIndexed_reference:
  "grouped us \<Longrightarrow> us \<noteq> [] \<Longrightarrow> u_BtxID (hd us) = b \<Longrightarrow> markIndexed b v us = spendFirst b v us"
proof (induction us)
  case (Cons x us)
  show ?case
  proof (cases us)
    case Nil
    then show ?thesis using Cons.prems by simp
  next
    case (Cons y ys)
    show ?thesis
    proof (cases "u_BtxID y = b")
      case True
      then show ?thesis
        using Cons Cons.IH Cons.prems grouped_Cons [of x us] by auto
    next
      case False
      then have "b \<notin> u_BtxID ` set us"
        using Cons Cons.prems grouped_leave [of x y ys] by auto
      then have "spendFirst b v us = us" "markIndexed b v us = us"
        using spendFirst_absent by (auto, induction us) auto
      with Cons.prems show ?thesis by auto
    qed
  qed
qed simp

lemma grouped_drop: "grouped us \<Longrightarrow> grouped (drop i us)"
proof (induction i arbitrary: us)
  case (Suc i)
  then show ?case by (cases us) (auto dest: grouped_Cons)
qed simp

lemma spendFirst_skip:
  "\<forall>u \<in> set xs. u_BtxID u \<noteq> b \<Longrightarrow> spendFirst b v (xs @ ys) = xs @ spendFirst b v ys"
  by (induction xs) auto

lemma markUtxoAsSpent_spendFirst:
  assumes "wfIndex ab" "grouped (ab_Utxos ab)" "idsOk (ab_Utxos ab)" "b \<noteq> []"
  shows "markUtxoAsSpent b v ab = Ok (ab\<lparr>ab_Utxos := spendFirst b v (ab_Utxos ab)\<rparr>)"
proof (cases "ab_utxosMap ab = []")
  case True
  then show ?thesis using assms by (simp add: markUtxoAsSpent_def markLinear_reference)
next
  case False
  then have idx: "mapGet (ab_utxosMap ab) b = firstIndex (ab_Utxos ab) b"
    using assms by (simp add: wfIndex_def)
  show ?thesis
  proof (cases "firstIndex (ab_Utxos ab) b")
    case None
    then have "spendFirst b v (ab_Utxos ab) = ab_Utxos ab"
      by (intro spendFirst_absent) (simp add: firstIndex_None)
    then show ?thesis
      using False idx None by (simp add: markUtxoAsSpent_def)
  next
    case (Some i)
    let ?us = "ab_Utxos ab"
    from firstIndex_SomeD [OF Some] have i: "i < length ?us" "u_BtxID (?us ! i) = b"
        "\<forall>u \<in> set (take i ?us). u_BtxID u \<noteq> b"
      by (auto simp: in_set_conv_nth)
    have "markIndexed b v (drop i ?us) = spendFirst b v (drop i ?us)"
      using i assms(2) by (intro markIndexed_reference grouped_drop) (auto simp: hd_drop_conv_nth)
    moreover have "spendFirst b v (take i ?us @ drop i ?us) = take i ?us @ spendFirst b v (drop i ?us)"
      using i(3) by (rule spendFirst_skip)
    ultimately show ?thesis
      using False idx Some by (simp add: markUtxoAsSpent_def)
  qed
qed

text \<open>
  C5: spending an output through the index finds exactly the output the linear search finds,
  when the index is well formed and the outputs of one transaction stand together.
\<close>

theorem markUtxoAsSpent_reference:
  assumes "wfIndex ab" "grouped (ab_Utxos ab)" "idsOk (ab_Utxos ab)" "b \<noteq> []"
  shows "markUtxoAsSpent b v ab = Ok (ab\<lparr>ab_Utxos := spendFirst b v (ab_Utxos ab)\<rparr>)"
  using assms by (rule markUtxoAsSpent_spendFirst)

text \<open>Sixteen outputs, two of each of eight transactions, the index built.\<close>

definition sampleUtxo :: "nat \<Rightarrow> nat \<Rightarrow> Utxo" where
  "sampleUtxo t v = \<lparr>u_BtxID = [of_nat t], u_Vout = of_nat v, u_Height = 1, u_ValueSat = 10\<rparr>"

definition sampleBalance :: AddrBalance where
  "sampleBalance = fold addUtxo (map (\<lambda>i. sampleUtxo (i div 2 + 1) (i mod 2)) [0..<16]) emptyAddrBalance"

lemma wfIndex_empty: "wfIndex emptyAddrBalance"
  by (simp add: wfIndex_def emptyAddrBalance_def)

lemma fold_addUtxo_wfIndex: "wfIndex ab \<Longrightarrow> wfIndex (fold addUtxo us ab)"
  by (induction us arbitrary: ab) (auto intro: addUtxo_wfIndex)

text \<open>C5 at the second output of the third transaction of the sample.\<close>

theorem markUtxoAsSpent_reference_witness:
  "ab_utxosMap sampleBalance \<noteq> []
   \<and> markUtxoAsSpent [3] 1 sampleBalance
       = Ok (sampleBalance\<lparr>ab_Utxos := spendFirst [3] 1 (ab_Utxos sampleBalance)\<rparr>)"
proof
  show "ab_utxosMap sampleBalance \<noteq> []" by code_simp
  have "wfIndex sampleBalance"
    by (simp only: sampleBalance_def fold_addUtxo_wfIndex wfIndex_empty)
  moreover have "grouped (ab_Utxos sampleBalance)" "idsOk (ab_Utxos sampleBalance)"
    by code_simp+
  ultimately show "markUtxoAsSpent [3] 1 sampleBalance
       = Ok (sampleBalance\<lparr>ab_Utxos := spendFirst [3] 1 (ab_Utxos sampleBalance)\<rparr>)"
    by (intro markUtxoAsSpent_reference) simp_all
qed

text \<open>
  Where the outputs of a transaction do not stand together the indexed search gives up at the
  first output with the same number: the seventeenth output here stays unspent, while the
  linear search finds it.
\<close>

lemma markUtxoAsSpent_scattered:
  "map_sum id ab_Utxos (markUtxoAsSpent [1] 5 (addUtxo (sampleUtxo 1 5) (addUtxo (sampleUtxo 9 5) sampleBalance)))
     = Ok (ab_Utxos sampleBalance @ [sampleUtxo 9 5, sampleUtxo 1 5])
   \<and> spendFirst [1] 5 (ab_Utxos sampleBalance @ [sampleUtxo 9 5, sampleUtxo 1 5])
     = ab_Utxos sampleBalance @ [sampleUtxo 9 5, (sampleUtxo 1 5)\<lparr>u_Vout := - 1\<rparr>]"
  by (intro conjI; code_simp)

text \<open>
  With the index built, \<open>hasUtxo\<close> looks at the first output of a transaction only: it denies
  the second one, which the list holds.
\<close>

lemma hasUtxo_indexed_misses:
  "hasUtxo sampleBalance [3] 1 = Ok False \<and> hasUtxoLinear [3] 1 (ab_Utxos sampleBalance)"
  by (intro conjI; code_simp)

section \<open>The balance sheet of an address\<close>

text \<open>
  What the code that connects blocks relies on: adding an output appends it to the unspent
  ones, spending one takes it out, and the invariant survives both. \<open>fresh u s\<close> says that
  the output may be added: it belongs to a new transaction or to the last one.
\<close>

fun removeOut :: "bytes \<Rightarrow> int32 \<Rightarrow> Utxo list \<Rightarrow> Utxo list" where
  "removeOut b v [] = []"
| "removeOut b v (u # us) = (if u_BtxID u = b \<and> u_Vout u = v then us else u # removeOut b v us)"

definition utxoWorth :: "Utxo list \<Rightarrow> int" where
  "utxoWorth us = sum_list (map u_ValueSat us)"

locale utxo_sheet =
  fixes inv :: "'s \<Rightarrow> bool"
    and live :: "'s \<Rightarrow> Utxo list"
    and fresh :: "Utxo \<Rightarrow> 's \<Rightarrow> bool"
    and add :: "Utxo \<Rightarrow> 's \<Rightarrow> 's"
    and spend :: "bytes \<Rightarrow> int32 \<Rightarrow> 's \<Rightarrow> 's res"
  assumes add_inv: "inv s \<Longrightarrow> fresh u s \<Longrightarrow> inv (add u s)"
    and add_live: "0 \<le>s u_Vout u \<Longrightarrow> live (add u s) = live s @ [u]"
    and spend_ok: "inv s \<Longrightarrow> b \<noteq> [] \<Longrightarrow> 0 \<le>s v
      \<Longrightarrow> \<exists>s'. spend b v s = Ok s' \<and> inv s' \<and> live s' = removeOut b v (live s)"
begin

lemma worth_add: "0 \<le>s u_Vout u \<Longrightarrow> utxoWorth (live (add u s)) = utxoWorth (live s) + u_ValueSat u"
  by (simp add: utxoWorth_def add_live)

lemma worth_spend:
  assumes "inv s" "b \<noteq> []" "0 \<le>s v" "spend b v s = Ok s'"
  shows "utxoWorth (live s') = utxoWorth (live s) - (case find (\<lambda>u. u_BtxID u = b \<and> u_Vout u = v) (live s) of
                                 None \<Rightarrow> 0 | Some u \<Rightarrow> u_ValueSat u)"
proof -
  have "sum_list (map u_ValueSat (removeOut b v us)) = sum_list (map u_ValueSat us)
      - (case find (\<lambda>u. u_BtxID u = b \<and> u_Vout u = v) us of None \<Rightarrow> 0 | Some u \<Rightarrow> u_ValueSat u)" for us
    by (induction us) auto
  moreover have "live s' = removeOut b v (live s)"
    using spend_ok [OF assms(1-3)] assms(4) by auto
  ultimately show ?thesis by (simp add: utxoWorth_def)
qed

lemma spend_inv: "inv s \<Longrightarrow> b \<noteq> [] \<Longrightarrow> 0 \<le>s v \<Longrightarrow> spend b v s = Ok s' \<Longrightarrow> inv s'"
  using spend_ok by fastforce

end

definition sheetInv :: "AddrBalance \<Rightarrow> bool" where
  "sheetInv ab \<longleftrightarrow> wfIndex ab \<and> grouped (ab_Utxos ab) \<and> idsOk (ab_Utxos ab)"

definition freshUtxo :: "Utxo \<Rightarrow> AddrBalance \<Rightarrow> bool" where
  "freshUtxo u ab \<longleftrightarrow> u_BtxID u \<noteq> []
     \<and> (u_BtxID u \<notin> u_BtxID ` set (ab_Utxos ab)
        \<or> ab_Utxos ab \<noteq> [] \<and> u_BtxID (last (ab_Utxos ab)) = u_BtxID u)"

lemma addUtxo_fields [simp]:
  "ab_Utxos (addUtxo u ab) = ab_Utxos ab @ [u]" "ab_Txs (addUtxo u ab) = ab_Txs ab"
  "ab_SentSat (addUtxo u ab) = ab_SentSat ab" "ab_BalanceSat (addUtxo u ab) = ab_BalanceSat ab"
  by (simp_all add: addUtxo_def Let_def)

lemma remdups_adj_snoc:
  "remdups_adj (xs @ [x]) = (if xs \<noteq> [] \<and> last xs = x then remdups_adj xs else remdups_adj xs @ [x])"
  by (induction xs rule: remdups_adj.induct) auto

lemma addUtxo_sheetInv: "sheetInv ab \<Longrightarrow> freshUtxo u ab \<Longrightarrow> sheetInv (addUtxo u ab)"
  by (auto simp: sheetInv_def freshUtxo_def addUtxo_wfIndex idsOk_def grouped_def remdups_adj_snoc last_map)

lemma live_spendFirst:
  "0 \<le>s v \<Longrightarrow> filter isLive (spendFirst b v us) = removeOut b v (filter isLive us)"
  by (induction us) (auto simp: word_sle_eq)

interpretation sheet: utxo_sheet sheetInv liveUtxos freshUtxo addUtxo markUtxoAsSpent
proof unfold_locales
  show "sheetInv (addUtxo u s)" if "sheetInv s" "freshUtxo u s" for s u
    using that by (rule addUtxo_sheetInv)
  show "liveUtxos (addUtxo u s) = liveUtxos s @ [u]" if "0 \<le>s u_Vout u" for u s
    using that by (simp add: liveUtxos_def)
  show "\<exists>s'. markUtxoAsSpent b v s = Ok s' \<and> sheetInv s' \<and> liveUtxos s' = removeOut b v (liveUtxos s)"
    if "sheetInv s" "b \<noteq> []" "0 \<le>s v" for s b v
    using that markUtxoAsSpent_spendFirst [of s b v]
    by (auto simp: sheetInv_def liveUtxos_def live_spendFirst wfIndex_def
        firstIndex_map_id [OF map_id_spendFirst])
qed

section \<open>Properties of the stored balance\<close>

text \<open>
  C6: a stored balance reads back with its counters and amounts, and with exactly the unspent
  outputs, in order, for each of the three levels of detail; spent outputs are dropped.
\<close>

theorem addrBalance_roundtrip:
  assumes "vlq_documented V" "okAddrBalance pl ab"
  shows "unpackAddrBalance V (packAddrBalance V ab) pl detail = Ok (storedBalance detail ab)"
  using vlq_documented.unpackAddrBalance_pack [OF assms] .

text \<open>C6 at a balance with a spent output, read with the index.\<close>

theorem addrBalance_roundtrip_witness:
  "unpackAddrBalance vlq128
     (packAddrBalance vlq128 (addUtxo (sampleUtxo 2 0) (addUtxo ((sampleUtxo 1 0)\<lparr>u_Vout := - 1\<rparr>) emptyAddrBalance)))
     1 AddressBalanceDetailUTXOIndexed
   = Ok (addUtxo (sampleUtxo 2 0) emptyAddrBalance)"
proof -
  let ?ab = "addUtxo (sampleUtxo 2 0) (addUtxo ((sampleUtxo 1 0)\<lparr>u_Vout := - 1\<rparr>) emptyAddrBalance)"
  have live: "liveUtxos ?ab = [sampleUtxo 2 0]"
    by (simp add: liveUtxos_def emptyAddrBalance_def sampleUtxo_def word_sle_eq)
  then have "okAddrBalance 1 ?ab"
    by (simp add: okAddrBalance_def amountOk_def emptyAddrBalance_def okUtxo_def sampleUtxo_def)
  moreover have "storedBalance AddressBalanceDetailUTXOIndexed ?ab = addUtxo (sampleUtxo 2 0) emptyAddrBalance"
    by code_simp
  ultimately show ?thesis
    using addrBalance_roundtrip [OF vlq128.vlq_documented_axioms, of 1 ?ab AddressBalanceDetailUTXOIndexed]
    by simp
qed

end
