(* ===== verification/Store.thy ===== *)
theory Store
  imports Prelude
begin

text \<open>
  The key-value store under the index. RocksDB and its Go binding are not part of the
  repository: the operations the program calls are the record \<open>kv_lib\<close> over the type
  \<open>'db\<close> of its states, and the locale \<open>kv_store\<close> states what the program relies on, by an
  abstraction \<open>val\<close> of a state to the contents of its columns. The store may fail: the laws
  speak of calls that succeed. The interpretation on association lists shows that the laws can
  be met.
\<close>

section \<open>Columns and write batches\<close>

datatype cf = cfDefault | cfHeight | cfAddresses | cfBlockTxs | cfTransactions | cfAddressBalance | cfTxAddresses

datatype wb_op = PutCF cf bytes bytes | DeleteCF cf bytes

type_synonym write_batch = "wb_op list"
type_synonym contents = "cf \<Rightarrow> bytes \<Rightarrow> bytes option"

record 'db kv_lib =
  kv_GetCF :: "'db \<Rightarrow> cf \<Rightarrow> bytes \<Rightarrow> bytes option res"
  kv_PutCF :: "cf \<Rightarrow> bytes \<Rightarrow> bytes \<Rightarrow> 'db \<Rightarrow> 'db res"
  kv_DeleteCF :: "cf \<Rightarrow> bytes \<Rightarrow> 'db \<Rightarrow> 'db res"
  kv_Write :: "write_batch \<Rightarrow> 'db \<Rightarrow> 'db res"
  kv_Seek :: "'db \<Rightarrow> cf \<Rightarrow> bytes \<Rightarrow> (bytes \<times> bytes) list"
  kv_SeekToLast :: "'db \<Rightarrow> cf \<Rightarrow> (bytes \<times> bytes) option"

text \<open>\<open>slice.Data()\<close> of a lookup: nil when there is no such key.\<close>

definition dataOf :: "bytes option \<Rightarrow> bytes" where
  "dataOf v = (case v of None \<Rightarrow> [] | Some b \<Rightarrow> b)"

fun wbStep :: "wb_op \<Rightarrow> contents \<Rightarrow> contents" where
  "wbStep (PutCF c k v) m = m(c := (m c)(k \<mapsto> v))"
| "wbStep (DeleteCF c k) m = m(c := (m c)(k := None))"

definition applyBatch :: "write_batch \<Rightarrow> contents \<Rightarrow> contents" where
  "applyBatch wb m = fold wbStep wb m"

fun opKey :: "wb_op \<Rightarrow> cf \<times> bytes" where
  "opKey (PutCF c k v) = (c, k)"
| "opKey (DeleteCF c k) = (c, k)"

section \<open>The contract\<close>

locale kv_store =
  fixes K :: "'db kv_lib"
    and val :: "'db \<Rightarrow> contents"
  assumes get_val: "kv_GetCF K db c k = Ok ov \<Longrightarrow> ov = val db c k"
    and put_val: "kv_PutCF K c k v db = Ok db' \<Longrightarrow> val db' = wbStep (PutCF c k v) (val db)"
    and delete_val: "kv_DeleteCF K c k db = Ok db' \<Longrightarrow> val db' = wbStep (DeleteCF c k) (val db)"
    and write_val: "kv_Write K wb db = Ok db' \<Longrightarrow> val db' = applyBatch wb (val db)"
    and seek_sorted: "sorted_wrt (<) (map fst (kv_Seek K db c s))"
    and seek_iff: "(k, v) \<in> set (kv_Seek K db c s) \<longleftrightarrow> s \<le> k \<and> val db c k = Some v"
    and last_None: "kv_SeekToLast K db c = None \<longleftrightarrow> val db c = Map.empty"
    and last_Some: "kv_SeekToLast K db c = Some (k, v)
      \<Longrightarrow> val db c k = Some v \<and> (\<forall>k'. val db c k' \<noteq> None \<longrightarrow> k' \<le> k)"

section \<open>Batches\<close>

lemma applyBatch_Nil [simp]: "applyBatch [] m = m"
  by (simp add: applyBatch_def)

lemma applyBatch_Cons: "applyBatch (op # wb) m = applyBatch wb (wbStep op m)"
  by (simp add: applyBatch_def)

lemma applyBatch_append: "applyBatch (wb @ wb') m = applyBatch wb' (applyBatch wb m)"
  by (simp add: applyBatch_def)

lemma wbStep_other: "opKey op \<noteq> (c, k) \<Longrightarrow> wbStep op m c k = m c k"
  by (cases op) auto

lemma applyBatch_other: "(c, k) \<notin> opKey ` set wb \<Longrightarrow> applyBatch wb m c k = m c k"
proof (induction wb arbitrary: m)
  case (Cons op wb)
  then show ?case using wbStep_other [of op c k m] by (auto simp: applyBatch_Cons)
qed simp

text \<open>The last operation on a key decides.\<close>

lemma applyBatch_put:
  "(c, k) \<notin> opKey ` set wb' \<Longrightarrow> applyBatch (wb @ PutCF c k v # wb') m c k = Some v"
  by (simp add: applyBatch_append applyBatch_Cons applyBatch_other)

lemma applyBatch_delete:
  "(c, k) \<notin> opKey ` set wb' \<Longrightarrow> applyBatch (wb @ DeleteCF c k # wb') m c k = None"
  by (simp add: applyBatch_append applyBatch_Cons applyBatch_other)

text \<open>A batch with one put for every entry of a Go map.\<close>

lemma applyBatch_map_put:
  assumes "distinct (map kf xs)" "x \<in> set xs"
  shows "applyBatch (map (\<lambda>x. PutCF c (kf x) (vf x)) xs) m c (kf x) = Some (vf x)"
proof -
  obtain ys zs where xs: "xs = ys @ x # zs" using assms(2) by (auto simp: in_set_conv_decomp)
  then have "kf x \<notin> kf ` set zs" using assms(1) by auto
  then have "(c, kf x) \<notin> opKey ` set (map (\<lambda>x. PutCF c (kf x) (vf x)) zs)" by auto
  then show ?thesis
    using applyBatch_put [of c "kf x" _ "map (\<lambda>x. PutCF c (kf x) (vf x)) ys" "vf x" m] xs by simp
qed

section \<open>A store of association lists\<close>

type_synonym alist_db = "((cf \<times> bytes) \<times> bytes) list"

definition alistVal :: "alist_db \<Rightarrow> contents" where
  "alistVal db c k = mapGet db (c, k)"

fun alistStep :: "wb_op \<Rightarrow> alist_db \<Rightarrow> alist_db" where
  "alistStep (PutCF c k v) db = mapPut (c, k) v db"
| "alistStep (DeleteCF c k) db = mapDelete (c, k) db"

definition alistKeys :: "alist_db \<Rightarrow> cf \<Rightarrow> bytes list" where
  "alistKeys db c = sort (remdups (map (snd \<circ> fst) (filter (\<lambda>e. fst (fst e) = c) db)))"

definition alistSeek :: "alist_db \<Rightarrow> cf \<Rightarrow> bytes \<Rightarrow> (bytes \<times> bytes) list" where
  "alistSeek db c s =
     map (\<lambda>k. (k, case mapGet db (c, k) of Some v \<Rightarrow> v | None \<Rightarrow> [])) (filter (\<lambda>k. s \<le> k) (alistKeys db c))"

definition alistStore :: "alist_db kv_lib" where
  "alistStore =
     \<lparr>kv_GetCF = (\<lambda>db c k. Ok (mapGet db (c, k))),
      kv_PutCF = (\<lambda>c k v db. Ok (alistStep (PutCF c k v) db)),
      kv_DeleteCF = (\<lambda>c k db. Ok (alistStep (DeleteCF c k) db)),
      kv_Write = (\<lambda>wb db. Ok (fold alistStep wb db)),
      kv_Seek = alistSeek,
      kv_SeekToLast = (\<lambda>db c. let es = alistSeek db c [] in if es = [] then None else Some (last es))\<rparr>"

lemma alistVal_step: "alistVal (alistStep op db) = wbStep op (alistVal db)"
  by (cases op) (auto simp: alistVal_def fun_eq_iff)

lemma alistVal_fold: "alistVal (fold alistStep wb db) = applyBatch wb (alistVal db)"
  by (induction wb arbitrary: db) (simp_all add: applyBatch_Cons alistVal_step)

lemma set_alistKeys: "k \<in> set (alistKeys db c) \<longleftrightarrow> alistVal db c k \<noteq> None"
  by (force simp: alistKeys_def alistVal_def map_of_eq_None_iff image_iff)

lemma alistKeys_sorted: "sorted_wrt (<) (alistKeys db c)"
  by (simp add: alistKeys_def strict_sorted_iff)

lemma alistSeek_iff: "(k, v) \<in> set (alistSeek db c s) \<longleftrightarrow> s \<le> k \<and> alistVal db c k = Some v"
  by (auto simp: alistSeek_def set_alistKeys image_iff) (auto simp: alistVal_def)

lemma alistSeek_sorted: "sorted_wrt (<) (map fst (alistSeek db c s))"
  using alistKeys_sorted [of db c] by (simp add: alistSeek_def comp_def sorted_wrt_filter)

lemma sorted_wrt_last: "sorted_wrt (<) xs \<Longrightarrow> x \<in> set xs \<Longrightarrow> x \<le> (last xs :: 'a :: linorder)"
  by (induction xs) (auto simp: less_imp_le)

interpretation alist: kv_store alistStore alistVal
proof unfold_locales
  show "v = alistVal db c k" if "kv_GetCF alistStore db c k = Ok v" for db c k v
    using that by (simp add: alistStore_def alistVal_def)
  show "alistVal db' = wbStep (PutCF c k v) (alistVal db)" if "kv_PutCF alistStore c k v db = Ok db'" for c k v db db'
    using that by (auto simp: alistStore_def alistVal_step simp del: wbStep.simps alistStep.simps)
  show "alistVal db' = wbStep (DeleteCF c k) (alistVal db)" if "kv_DeleteCF alistStore c k db = Ok db'" for c k db db'
    using that by (auto simp: alistStore_def alistVal_step simp del: wbStep.simps alistStep.simps)
  show "alistVal db' = applyBatch wb (alistVal db)" if "kv_Write alistStore wb db = Ok db'" for wb db db'
    using that by (auto simp: alistStore_def alistVal_fold)
  show "sorted_wrt (<) (map fst (kv_Seek alistStore db c s))" for db c s
    by (simp add: alistStore_def alistSeek_sorted)
  show "((k, v) \<in> set (kv_Seek alistStore db c s)) = (s \<le> k \<and> alistVal db c k = Some v)" for k v db c s
    by (simp add: alistStore_def alistSeek_iff)
  show "(kv_SeekToLast alistStore db c = None) = (alistVal db c = Map.empty)" for db c
  proof -
    have "alistSeek db c [] = [] \<longleftrightarrow> (\<forall>k v. (k, v) \<notin> set (alistSeek db c []))"
      by (cases "alistSeek db c []") auto
    also have "\<dots> \<longleftrightarrow> alistVal db c = Map.empty"
      by (auto simp: alistSeek_iff fun_eq_iff)
    finally show ?thesis by (simp add: alistStore_def Let_def)
  qed
  show "alistVal db c k = Some v \<and> (\<forall>k'. alistVal db c k' \<noteq> None \<longrightarrow> k' \<le> k)"
    if "kv_SeekToLast alistStore db c = Some (k, v)" for db c k v
  proof -
    from that have last: "alistSeek db c [] \<noteq> []" "last (alistSeek db c []) = (k, v)"
      by (auto simp: alistStore_def Let_def split: if_splits)
    then have "(k, v) \<in> set (alistSeek db c [])" by (metis last_in_set)
    moreover have "k' \<le> k" if "alistVal db c k' \<noteq> None" for k'
    proof -
      from that obtain v' where "(k', v') \<in> set (alistSeek db c [])"
        by (auto simp: alistSeek_iff)
      then have "k' \<in> set (map fst (alistSeek db c []))" by force
      from sorted_wrt_last [OF alistSeek_sorted this] last show ?thesis
        by (simp add: last_map)
    qed
    ultimately show ?thesis by (simp add: alistSeek_iff)
  qed
qed

end
