(* ===== verification/InternalStates.thy ===== *)
theory InternalStates
  imports Prelude
begin

text \<open>
  \<open>src/common/internalstate.go\<close>: the state of synchronisation and the statistics of the
  columns that the parts of the server share. Every method holds the mutex from its first line
  to its return, so each is one atomic step on the record; \<open>time.Now()\<close> is the argument
  \<open>now\<close>. JSON belongs to the caller: \<open>Pack\<close> and \<open>UnpackInternalState\<close> take the codec as an
  argument.
\<close>

type_synonym go_time = int

definition DbStateClosed :: u32 where "DbStateClosed = 0"
definition DbStateOpen :: u32 where "DbStateOpen = 1"
definition DbStateInconsistent :: u32 where "DbStateInconsistent = 2"

record InternalStateColumn =
  col_Name :: string
  col_Version :: u32
  col_Rows :: int64
  col_KeyBytes :: int64
  col_ValueBytes :: int64
  col_Updated :: go_time

record InternalState =
  is_Coin :: string
  is_CoinShortcut :: string
  is_CoinLabel :: string
  is_Host :: string
  is_DbState :: u32
  is_LastStore :: go_time
  is_SyncMode :: bool
  is_InitialSync :: bool
  is_IsSynchronized :: bool
  is_BestHeight :: u32
  is_LastSync :: go_time
  is_IsMempoolSynchronized :: bool
  is_MempoolSize :: int
  is_LastMempoolSync :: go_time
  is_DbColumns :: "InternalStateColumn list"

definition StartedSync :: "InternalState \<Rightarrow> InternalState" where
  "StartedSync is = is\<lparr>is_IsSynchronized := False\<rparr>"

definition FinishedSync :: "go_time \<Rightarrow> u32 \<Rightarrow> InternalState \<Rightarrow> InternalState" where
  "FinishedSync now bestHeight is =
     is\<lparr>is_IsSynchronized := True, is_BestHeight := bestHeight, is_LastSync := now\<rparr>"

definition UpdateBestHeight :: "go_time \<Rightarrow> u32 \<Rightarrow> InternalState \<Rightarrow> InternalState" where
  "UpdateBestHeight now bestHeight is = is\<lparr>is_BestHeight := bestHeight, is_LastSync := now\<rparr>"

definition FinishedSyncNoChange :: "InternalState \<Rightarrow> InternalState" where
  "FinishedSyncNoChange is = is\<lparr>is_IsSynchronized := True\<rparr>"

definition GetSyncState :: "InternalState \<Rightarrow> bool \<times> u32 \<times> go_time" where
  "GetSyncState is = (is_IsSynchronized is, is_BestHeight is, is_LastSync is)"

definition StartedMempoolSync :: "InternalState \<Rightarrow> InternalState" where
  "StartedMempoolSync is = is\<lparr>is_IsMempoolSynchronized := False\<rparr>"

definition FinishedMempoolSync :: "go_time \<Rightarrow> int \<Rightarrow> InternalState \<Rightarrow> InternalState" where
  "FinishedMempoolSync now mempoolSize is =
     is\<lparr>is_IsMempoolSynchronized := True, is_MempoolSize := mempoolSize, is_LastMempoolSync := now\<rparr>"

definition GetMempoolSyncState :: "InternalState \<Rightarrow> bool \<times> go_time \<times> int" where
  "GetMempoolSyncState is = (is_IsMempoolSynchronized is, is_LastMempoolSync is, is_MempoolSize is)"

definition AddDBColumnStats :: "go_time \<Rightarrow> nat \<Rightarrow> int64 \<Rightarrow> int64 \<Rightarrow> int64 \<Rightarrow> InternalState \<Rightarrow> InternalState res" where
  "AddDBColumnStats now c rowsDiff keyBytesDiff valueBytesDiff is =
     bindR (indexR (is_DbColumns is) (int c)) (\<lambda>dc.
     Ok (is\<lparr>is_DbColumns := (is_DbColumns is)[c := dc\<lparr>col_Rows := col_Rows dc + rowsDiff,
           col_KeyBytes := col_KeyBytes dc + keyBytesDiff,
           col_ValueBytes := col_ValueBytes dc + valueBytesDiff, col_Updated := now\<rparr>]\<rparr>))"

definition SetDBColumnStats :: "go_time \<Rightarrow> nat \<Rightarrow> int64 \<Rightarrow> int64 \<Rightarrow> int64 \<Rightarrow> InternalState \<Rightarrow> InternalState res" where
  "SetDBColumnStats now c rows keyBytes valueBytes is =
     bindR (indexR (is_DbColumns is) (int c)) (\<lambda>dc.
     Ok (is\<lparr>is_DbColumns := (is_DbColumns is)[c := dc\<lparr>col_Rows := rows, col_KeyBytes := keyBytes,
           col_ValueBytes := valueBytes, col_Updated := now\<rparr>]\<rparr>))"

definition GetDBColumnStatValues :: "InternalState \<Rightarrow> nat \<Rightarrow> int64 \<times> int64 \<times> int64" where
  "GetDBColumnStatValues is c =
     (if c < length (is_DbColumns is)
      then (col_Rows (is_DbColumns is ! c), col_KeyBytes (is_DbColumns is ! c), col_ValueBytes (is_DbColumns is ! c))
      else (0, 0, 0))"

definition GetAllDBColumnStats :: "InternalState \<Rightarrow> InternalStateColumn list" where
  "GetAllDBColumnStats is = is_DbColumns is"

definition DBSizeTotal :: "InternalState \<Rightarrow> int64" where
  "DBSizeTotal is = fold (\<lambda>c total. total + (col_KeyBytes c + col_ValueBytes c)) (is_DbColumns is) 0"

text \<open>\<open>json.Marshal\<close> and \<open>json.Unmarshal\<close> of the record.\<close>

record is_json =
  isj_Marshal :: "InternalState \<Rightarrow> bytes res"
  isj_Unmarshal :: "bytes \<Rightarrow> InternalState res"

definition Pack :: "is_json \<Rightarrow> go_time \<Rightarrow> InternalState \<Rightarrow> InternalState \<times> bytes res" where
  "Pack J now is = (let is = is\<lparr>is_LastStore := now\<rparr> in (is, isj_Marshal J is))"

definition UnpackInternalState :: "is_json \<Rightarrow> bytes \<Rightarrow> InternalState res" where
  "UnpackInternalState J buf = isj_Unmarshal J buf"

section \<open>Properties\<close>

lemma DBSizeTotal_sum: "DBSizeTotal is = (\<Sum>c\<leftarrow>is_DbColumns is. col_KeyBytes c + col_ValueBytes c)"
proof -
  have "fold (\<lambda>c t. t + (col_KeyBytes c + col_ValueBytes c)) cs t
      = t + (\<Sum>c\<leftarrow>cs. col_KeyBytes c + col_ValueBytes c)" for cs :: "InternalStateColumn list" and t
    by (induction cs arbitrary: t) (simp_all add: add.assoc)
  then show ?thesis by (simp add: DBSizeTotal_def)
qed

lemma sum_list_update_group:
  fixes f :: "'a \<Rightarrow> 'b :: ab_group_add"
  shows "c < length xs \<Longrightarrow> (\<Sum>x\<leftarrow>xs[c := y]. f x) = (\<Sum>x\<leftarrow>xs. f x) + (f y - f (xs ! c))"
proof (induction xs arbitrary: c)
  case (Cons x xs)
  then show ?case by (cases c) (simp_all add: algebra_simps)
qed simp

text \<open>
  Adding to the statistics of a column moves the total size by exactly the difference of
  its key and value bytes, with 64-bit wrap-around, and panics for a column that does not
  exist.
\<close>

theorem AddDBColumnStats_total:
  "case AddDBColumnStats now c rowsDiff k v is of
     Inr is' \<Rightarrow> c < length (is_DbColumns is) \<and> DBSizeTotal is' = DBSizeTotal is + k + v
       \<and> GetDBColumnStatValues is' c =
           (let (r, kb, vb) = GetDBColumnStatValues is c in (r + rowsDiff, kb + k, vb + v))
   | Inl e \<Rightarrow> length (is_DbColumns is) \<le> c \<and> (\<exists>msg. e = Panic msg)"
  by (auto simp: AddDBColumnStats_def indexR_def DBSizeTotal_sum sum_list_update_group
      GetDBColumnStatValues_def algebra_simps)

end
