(* ===== verification/RocksDb.thy ===== *)
theory RocksDb
  imports AddrBalances Store InternalStates
begin

text \<open>
  Connecting a block to the index and reading the index back (\<open>src/db/rocksdb.go\<close>). The
  libraries the code calls are the record \<open>deps\<close>; the handle \<open>*RocksDB\<close> is the record
  \<open>RocksDB\<close> of the store's state, the shared internal state and the counters of the caches.

  \<open>processAddressesBitcoinType\<close> works on maps of pointers. A balance is reachable under one
  key only, so the map holds the balance itself. A \<open>TxAddresses\<close> object is reachable both from
  the map and from the list of the block's transactions, and two transactions of a block may
  have one id, so these objects live in an explicit heap and the map holds their addresses.
\<close>

section \<open>Libraries and state\<close>

datatype script_op = AddOp byte | AddData bytes

record 'db deps =
  vlqOf :: vlq_lib
  parserOf :: chain_parser
  kvOf :: "'db kv_lib"
  scriptOf :: "script_op list \<Rightarrow> bytes res"

record connectBlockStats =
  cbs_txAddressesHit :: int
  cbs_txAddressesMiss :: int
  cbs_balancesHit :: int
  cbs_balancesMiss :: int

record 'db RocksDB =
  d_db :: 'db
  d_is :: "InternalState option"
  d_cbs :: connectBlockStats

definition maxAddrDescLen :: nat where
  "maxAddrDescLen = 1024"

section \<open>Reading the index\<close>

definition GetAddrDescBalance :: "'db deps \<Rightarrow> 'db \<Rightarrow> AddressDescriptor \<Rightarrow> AddressBalanceDetail \<Rightarrow> AddrBalance option res" where
  "GetAddrDescBalance D db addrDesc detail =
     bindR (kv_GetCF (kvOf D) db cfAddressBalance addrDesc) (\<lambda>val.
     let buf = dataOf val
     in if length buf < 3 then Ok None
        else bindR (unpackAddrBalance (vlqOf D) buf (cp_PackedTxidLen (parserOf D)) detail) (\<lambda>ab. Ok (Some ab)))"

definition GetAddressBalance :: "'db deps \<Rightarrow> 'db \<Rightarrow> string \<Rightarrow> AddressBalanceDetail \<Rightarrow> AddrBalance option res" where
  "GetAddressBalance D db address detail =
     bindR (cp_GetAddrDescFromAddress (parserOf D) address) (\<lambda>addrDesc.
     GetAddrDescBalance D db addrDesc detail)"

definition getTxAddresses :: "'db deps \<Rightarrow> 'db \<Rightarrow> bytes \<Rightarrow> TxAddresses option res" where
  "getTxAddresses D db btxID =
     bindR (kv_GetCF (kvOf D) db cfTxAddresses btxID) (\<lambda>val.
     let buf = dataOf val
     in if length buf < 3 then Ok None
        else bindR (unpackTxAddresses (vlqOf D) buf) (\<lambda>ta. Ok (Some ta)))"

definition GetTxAddresses :: "'db deps \<Rightarrow> 'db \<Rightarrow> string \<Rightarrow> TxAddresses option res" where
  "GetTxAddresses D db txid = bindR (cp_PackTxid (parserOf D) txid) (getTxAddresses D db)"

text \<open>
  \<open>AddrDescForOutpoint\<close> returns nil on any error; an input is named by the complement of its
  number.
\<close>

definition AddrDescForOutpoint :: "'db deps \<Rightarrow> 'db \<Rightarrow> Outpoint \<Rightarrow> AddressDescriptor res" where
  "AddrDescForOutpoint D db op =
     catchR (GetTxAddresses D db (op_Txid op)) (\<lambda>_. Ok []) (\<lambda>ta.
       case ta of None \<Rightarrow> Ok []
       | Some ta \<Rightarrow>
           if op_Vout op <s 0
           then let vin = NOT (op_Vout op)
                in if int (length (ta_Inputs ta)) \<le> sint vin then Ok []
                   else bindR (indexR (ta_Inputs ta) (sint vin)) (\<lambda>i. Ok (ti_AddrDesc i))
           else if int (length (ta_Outputs ta)) \<le> sint (op_Vout op) then Ok []
                else bindR (indexR (ta_Outputs ta) (sint (op_Vout op))) (\<lambda>o'. Ok (to_AddrDesc o')))"

text \<open>The loop of \<open>getBlockTxs\<close>; a round takes at least one byte when the txid length is not 0.\<close>

fun getBlockTxsLoop :: "vlq_lib \<Rightarrow> nat \<Rightarrow> nat \<Rightarrow> bytes \<Rightarrow> nat \<Rightarrow> blockTxs list res" where
  "getBlockTxsLoop V pl 0 buf i = Err OutOfFuel"
| "getBlockTxsLoop V pl (Suc fuel) buf i =
     (if i < length buf
      then if length buf - i < pl then Err (ErrMsg ''Inconsistent data in blockTxs'')
           else bindR (sliceR buf (int i) (int (i + pl))) (\<lambda>txid.
                let i = i + pl
                in bindR (sliceFromR buf (int i)) (\<lambda>b.
                   catchR (unpackNOutpoints V pl b)
                     (\<lambda>_. Err (ErrMsg ''Inconsistent data in blockTxs''))
                     (\<lambda>(os, ol).
                       bindR (getBlockTxsLoop V pl fuel buf (i + ol)) (\<lambda>bt.
                       Ok (\<lparr>bt_btxID = txid, bt_inputs = os\<rparr> # bt)))))
      else Ok [])"

definition getBlockTxs :: "'db deps \<Rightarrow> 'db \<Rightarrow> u32 \<Rightarrow> blockTxs list res" where
  "getBlockTxs D db height =
     bindR (kv_GetCF (kvOf D) db cfBlockTxs (packUint height)) (\<lambda>val.
     let buf = dataOf val
     in getBlockTxsLoop (vlqOf D) (cp_PackedTxidLen (parserOf D)) (Suc (length buf)) buf 0)"

definition GetBestBlock :: "'db deps \<Rightarrow> 'db \<Rightarrow> (u32 \<times> string) res" where
  "GetBestBlock D db =
     (case kv_SeekToLast (kvOf D) db cfHeight of
        None \<Rightarrow> Ok (0, [])
      | Some (k, v) \<Rightarrow>
          bindR (unpackUint k) (\<lambda>bestHeight.
          catchR (unpackBlockInfo (vlqOf D) (parserOf D) v) (\<lambda>_. Ok (0, [])) (\<lambda>info.
            case info of None \<Rightarrow> Ok (0, []) | Some info \<Rightarrow> Ok (bestHeight, bi_Hash info))))"

definition GetBlockHash :: "'db deps \<Rightarrow> 'db \<Rightarrow> u32 \<Rightarrow> string res" where
  "GetBlockHash D db height =
     bindR (kv_GetCF (kvOf D) db cfHeight (packUint height)) (\<lambda>val.
     bindR (unpackBlockInfo (vlqOf D) (parserOf D) (dataOf val)) (\<lambda>info.
     case info of None \<Rightarrow> Ok [] | Some info \<Rightarrow> Ok (bi_Hash info)))"

definition GetBlockInfo :: "'db deps \<Rightarrow> 'db \<Rightarrow> u32 \<Rightarrow> BlockInfo option res" where
  "GetBlockInfo D db height =
     bindR (kv_GetCF (kvOf D) db cfHeight (packUint height)) (\<lambda>val.
     bindR (unpackBlockInfo (vlqOf D) (parserOf D) (dataOf val)) (\<lambda>bi.
     Ok (map_option (\<lambda>bi. bi\<lparr>bi_Height := height\<rparr>) bi)))"

text \<open>
  \<open>GetAddrDescTransactions\<close> calls back for every transaction it finds. The callback is a
  function on a state \<open>'s\<close> (what its closure captures); it may go on, stop the iteration or
  fail.
\<close>

datatype 's cb_result = CbNext 's | CbStop 's | CbErr go_error

datatype 's scan = ScanOn 's | ScanDone 's

fun scanVal :: "'db deps \<Rightarrow> (string \<Rightarrow> u32 \<Rightarrow> int32 list \<Rightarrow> 's \<Rightarrow> 's cb_result) \<Rightarrow> u32 \<Rightarrow> nat \<Rightarrow> bytes \<Rightarrow> 's \<Rightarrow> 's scan res" where
  "scanVal D fn height 0 val s = Err OutOfFuel"
| "scanVal D fn height (Suc fuel) val s =
     (let pl = cp_PackedTxidLen (parserOf D)
      in if length val > pl
         then bindR (sliceR val 0 (int pl)) (\<lambda>t.
              bindR (cp_UnpackTxid (parserOf D) t) (\<lambda>tx.
              bindR (sliceFromR val (int pl)) (\<lambda>val.
              bindR (readIndexes (vlqOf D) (Suc (length val)) val) (\<lambda>(indexes, val).
              case fn tx height indexes s of
                CbNext s \<Rightarrow> scanVal D fn height fuel val s
              | CbStop s \<Rightarrow> Ok (ScanDone s)
              | CbErr e \<Rightarrow> Err e))))
         else Ok (ScanOn s))"

fun scanEntries :: "'db deps \<Rightarrow> (string \<Rightarrow> u32 \<Rightarrow> int32 list \<Rightarrow> 's \<Rightarrow> 's cb_result) \<Rightarrow> bytes \<Rightarrow> (bytes \<times> bytes) list \<Rightarrow> 's \<Rightarrow> 's res" where
  "scanEntries D fn stopKey [] s = Ok s"
| "scanEntries D fn stopKey ((key, val) # es) s =
     (if key > stopKey then Ok s
      else bindR (unpackAddressKey key) (\<lambda>(_, height).
           bindR (scanVal D fn height (Suc (length val)) val s) (\<lambda>r.
           case r of ScanDone s \<Rightarrow> Ok s | ScanOn s \<Rightarrow> scanEntries D fn stopKey es s)))"

definition GetAddrDescTransactions :: "'db deps \<Rightarrow> 'db \<Rightarrow> AddressDescriptor \<Rightarrow> u32 \<Rightarrow> u32
    \<Rightarrow> (string \<Rightarrow> u32 \<Rightarrow> int32 list \<Rightarrow> 's \<Rightarrow> 's cb_result) \<Rightarrow> 's \<Rightarrow> 's res" where
  "GetAddrDescTransactions D db addrDesc lower higher fn s =
     (let startKey = packAddressKey addrDesc higher;
          stopKey = packAddressKey addrDesc lower
      in scanEntries D fn stopKey (kv_Seek (kvOf D) db cfAddresses startKey) s)"

definition GetTransactions :: "'db deps \<Rightarrow> 'db \<Rightarrow> string \<Rightarrow> u32 \<Rightarrow> u32
    \<Rightarrow> (string \<Rightarrow> u32 \<Rightarrow> int32 list \<Rightarrow> 's \<Rightarrow> 's cb_result) \<Rightarrow> 's \<Rightarrow> 's res" where
  "GetTransactions D db address lower higher fn s =
     bindR (cp_GetAddrDescFromAddress (parserOf D) address) (\<lambda>addrDesc.
     GetAddrDescTransactions D db addrDesc lower higher fn s)"

section \<open>Cold-staking scripts\<close>

definition OP_CHECKCOLDSTAKEVERIFY_LOF :: byte where "OP_CHECKCOLDSTAKEVERIFY_LOF = 0xd1"
definition OP_CHECKCOLDSTAKEVERIFY :: byte where "OP_CHECKCOLDSTAKEVERIFY = 0xd2"

definition isPayToColdStake :: "bytes \<Rightarrow> bool" where
  "isPayToColdStake signatureScript \<longleftrightarrow> length signatureScript > 50
     \<and> (signatureScript ! 4 = OP_CHECKCOLDSTAKEVERIFY \<or> signatureScript ! 4 = OP_CHECKCOLDSTAKEVERIFY_LOF)"

text \<open>\<open>copy\<close> into a slice of 20 bytes takes the first 20 of the 21 it is given.\<close>

definition getOwnerFromP2CS :: "'db deps \<Rightarrow> bytes \<Rightarrow> bytes res" where
  "getOwnerFromP2CS D signatureScript =
     bindR (sliceR signatureScript 28 49) (\<lambda>src.
     let OwnerScript = take 20 src @ replicate (20 - length src) 0
     in scriptOf D [AddOp 0x76, AddOp 0xa9, AddData OwnerScript, AddOp 0x88, AddOp 0xac])"

definition vAddrDescriptors :: "'db deps \<Rightarrow> AddressDescriptor \<Rightarrow> AddressDescriptor list res" where
  "vAddrDescriptors D addrDesc =
     (if isPayToColdStake addrDesc
      then catchR (getOwnerFromP2CS D addrDesc) (\<lambda>_. Ok [addrDesc]) (\<lambda>ownerDesc. Ok [addrDesc, ownerDesc])
      else Ok [addrDesc])"

section \<open>Processing a block\<close>

record ps =
  ps_addresses :: addressesMap
  ps_heap :: "TxAddresses list"
  ps_txAddressesMap :: "(bytes, nat) gomap"
  ps_balances :: "(bytes, AddrBalance) gomap"
  ps_cbs :: connectBlockStats

text \<open>
  The loop of \<open>addToAddressesMap\<close> over the transactions of an address: the first with that id
  gets the index.
\<close>

fun appendIndex :: "bytes \<Rightarrow> int32 \<Rightarrow> txIndexes list \<Rightarrow> txIndexes list option" where
  "appendIndex btxID index [] = None"
| "appendIndex btxID index (t # at) =
     (if btxID = txi_btxID t then Some (t\<lparr>txi_indexes := txi_indexes t @ [index]\<rparr> # at)
      else map_option ((#) t) (appendIndex btxID index at))"

definition addToAddressesMap :: "addressesMap \<Rightarrow> bytes \<Rightarrow> bytes \<Rightarrow> int32 \<Rightarrow> addressesMap \<times> bool" where
  "addToAddressesMap addresses strAddrDesc btxID index =
     (let at = (case mapGet addresses strAddrDesc of None \<Rightarrow> [] | Some at \<Rightarrow> at)
      in case appendIndex btxID index at of
           Some at' \<Rightarrow> (mapPut strAddrDesc at' addresses, True)
         | None \<Rightarrow> (mapPut strAddrDesc (at @ [\<lparr>txi_btxID = btxID, txi_indexes = [index]\<rparr>]) addresses, False))"

definition resetValueSatToZero :: "int \<Rightarrow> int" where
  "resetValueSatToZero valueSat = 0"

text \<open>\<open>balances[strAddrDesc]\<close>, loaded from the store on the first use.\<close>

definition loadBalance :: "'db deps \<Rightarrow> 'db \<Rightarrow> AddressDescriptor \<Rightarrow> ps \<Rightarrow> (AddrBalance \<times> ps) res" where
  "loadBalance D db oad st =
     (case mapGet (ps_balances st) oad of
        Some balance \<Rightarrow>
          Ok (balance, st\<lparr>ps_cbs := (ps_cbs st)\<lparr>cbs_balancesHit := cbs_balancesHit (ps_cbs st) + 1\<rparr>\<rparr>)
      | None \<Rightarrow>
          bindR (GetAddrDescBalance D db oad AddressBalanceDetailUTXOIndexed) (\<lambda>b.
          let balance = (case b of None \<Rightarrow> emptyAddrBalance | Some b \<Rightarrow> b)
          in Ok (balance, st\<lparr>ps_balances := mapPut oad balance (ps_balances st),
               ps_cbs := (ps_cbs st)\<lparr>cbs_balancesMiss := cbs_balancesMiss (ps_cbs st) + 1\<rparr>\<rparr>)))"

text \<open>The body of the loop over the descriptors of an output.\<close>

definition creditOutput :: "'db deps \<Rightarrow> 'db \<Rightarrow> u32 \<Rightarrow> bytes \<Rightarrow> nat \<Rightarrow> int \<Rightarrow> AddressDescriptor \<Rightarrow> ps \<Rightarrow> ps res" where
  "creditOutput D db height btxID i valueSat oad st =
     (if cp_IsAddrDescIndexable (parserOf D) oad
      then bindR (loadBalance D db oad st) (\<lambda>(balance, st).
           bindR (hasUtxo balance btxID (of_nat i)) (\<lambda>has.
           if has then Ok st
           else let balance = balance\<lparr>ab_BalanceSat := ab_BalanceSat balance + valueSat\<rparr>;
                    balance = addUtxo \<lparr>u_BtxID = btxID, u_Vout = of_nat i, u_Height = height, u_ValueSat = valueSat\<rparr> balance;
                    (addresses, counted) = addToAddressesMap (ps_addresses st) oad btxID (of_nat i);
                    balance = (if counted then balance else balance\<lparr>ab_Txs := ab_Txs balance + 1\<rparr>)
                in Ok (st\<lparr>ps_addresses := addresses, ps_balances := mapPut oad balance (ps_balances st)\<rparr>)))
      else Ok st)"

text \<open>The body of the loop over the outputs of a transaction; \<open>p\<close> is the address of \<open>ta\<close>.\<close>

definition updateTa :: "nat \<Rightarrow> (TxAddresses \<Rightarrow> TxAddresses) \<Rightarrow> ps \<Rightarrow> ps" where
  "updateTa p f st = st\<lparr>ps_heap := (ps_heap st)[p := f (ps_heap st ! p)]\<rparr>"

definition processOutput :: "'db deps \<Rightarrow> 'db \<Rightarrow> u32 \<Rightarrow> bytes \<Rightarrow> nat \<Rightarrow> nat \<times> Vout \<Rightarrow> ps \<Rightarrow> ps res" where
  "processOutput D db height btxID p = (\<lambda>(i, output) st.
     let st = updateTa p (\<lambda>ta. ta\<lparr>ta_Outputs := (ta_Outputs ta)[i := (ta_Outputs ta ! i)\<lparr>to_ValueSat := vout_ValueSat output\<rparr>]\<rparr>) st
     in catchR (cp_GetAddrDescFromVout (parserOf D) output) (\<lambda>_. Ok st) (\<lambda>addrDesc.
        if length addrDesc = 0 \<or> length addrDesc > maxAddrDescLen then Ok st
        else let st = updateTa p (\<lambda>ta. ta\<lparr>ta_Outputs := (ta_Outputs ta)[i := (ta_Outputs ta ! i)\<lparr>to_AddrDesc := addrDesc\<rparr>]\<rparr>) st
             in bindR (vAddrDescriptors D addrDesc) (\<lambda>ads.
                foldR (creditOutput D db height btxID i (vout_ValueSat output)) ads st)))"

definition emptyTxOutput :: TxOutput where
  "emptyTxOutput = \<lparr>to_AddrDesc = [], to_Spent = False, to_ValueSat = 0\<rparr>"

definition emptyTxInput :: TxInput where
  "emptyTxInput = \<lparr>ti_AddrDesc = [], ti_ValueSat = 0\<rparr>"

text \<open>The first loop over the transactions; it returns their ids and objects.\<close>

definition processTxOutputs :: "'db deps \<Rightarrow> 'db \<Rightarrow> u32 \<Rightarrow> Tx \<Rightarrow> (bytes \<times> nat) list \<times> ps \<Rightarrow> ((bytes \<times> nat) list \<times> ps) res" where
  "processTxOutputs D db height tx = (\<lambda>(blockTxs, st).
     bindR (cp_PackTxid (parserOf D) (tx_Txid tx)) (\<lambda>btxID.
     let ta = emptyTxAddresses\<lparr>ta_Height := height, ta_Outputs := replicate (length (tx_Vout tx)) emptyTxOutput\<rparr>;
         p = length (ps_heap st);
         st = st\<lparr>ps_heap := ps_heap st @ [ta], ps_txAddressesMap := mapPut btxID p (ps_txAddressesMap st)\<rparr>
     in bindR (foldR (processOutput D db height btxID p) (indexed (tx_Vout tx)) st) (\<lambda>st.
        Ok (blockTxs @ [(btxID, p)], st))))"

text \<open>The body of the loop over the descriptors of a spent output.\<close>

definition debitInput :: "'db deps \<Rightarrow> 'db \<Rightarrow> bytes \<Rightarrow> nat \<Rightarrow> bytes \<Rightarrow> u32 \<Rightarrow> int \<Rightarrow> AddressDescriptor \<Rightarrow> ps \<Rightarrow> ps res" where
  "debitInput D db spendingTxid i btxID vout valueSat soad st =
     (if cp_IsAddrDescIndexable (parserOf D) soad
      then bindR (loadBalance D db soad st) (\<lambda>(balance, st).
           let (addresses, counted) = addToAddressesMap (ps_addresses st) soad spendingTxid (NOT (of_nat i));
               balance = (if counted then balance else balance\<lparr>ab_Txs := ab_Txs balance + 1\<rparr>);
               balance = balance\<lparr>ab_BalanceSat := ab_BalanceSat balance - valueSat\<rparr>
           in bindR (markUtxoAsSpent btxID vout balance) (\<lambda>balance.
              let balance = (if ab_BalanceSat balance < 0
                             then balance\<lparr>ab_BalanceSat := resetValueSatToZero (ab_BalanceSat balance)\<rparr> else balance);
                  balance = balance\<lparr>ab_SentSat := ab_SentSat balance + valueSat\<rparr>
              in Ok (st\<lparr>ps_addresses := addresses, ps_balances := mapPut soad balance (ps_balances st)\<rparr>)))
      else Ok st)"

text \<open>\<open>txAddressesMap[stxID]\<close>, loaded from the store on the first use.\<close>

definition loadTxAddresses :: "'db deps \<Rightarrow> 'db \<Rightarrow> bytes \<Rightarrow> ps \<Rightarrow> (nat option \<times> ps) res" where
  "loadTxAddresses D db btxID st =
     (case mapGet (ps_txAddressesMap st) btxID of
        Some q \<Rightarrow>
          Ok (Some q, st\<lparr>ps_cbs := (ps_cbs st)\<lparr>cbs_txAddressesHit := cbs_txAddressesHit (ps_cbs st) + 1\<rparr>\<rparr>)
      | None \<Rightarrow>
          bindR (getTxAddresses D db btxID) (\<lambda>ita.
          case ita of None \<Rightarrow> Ok (None, st)
          | Some ita \<Rightarrow>
              Ok (Some (length (ps_heap st)),
                  st\<lparr>ps_heap := ps_heap st @ [ita],
                     ps_txAddressesMap := mapPut btxID (length (ps_heap st)) (ps_txAddressesMap st),
                     ps_cbs := (ps_cbs st)\<lparr>cbs_txAddressesMiss := cbs_txAddressesMiss (ps_cbs st) + 1\<rparr>\<rparr>)))"

definition setInput :: "nat \<Rightarrow> nat \<Rightarrow> AddressDescriptor \<Rightarrow> int \<Rightarrow> ps \<Rightarrow> ps" where
  "setInput p i addrDesc valueSat =
     updateTa p (\<lambda>ta. ta\<lparr>ta_Inputs := (ta_Inputs ta)[i := \<lparr>ti_AddrDesc = addrDesc, ti_ValueSat = valueSat\<rparr>]\<rparr>)"

definition processInput :: "'db deps \<Rightarrow> 'db \<Rightarrow> Tx \<Rightarrow> bytes \<Rightarrow> nat \<Rightarrow> nat \<times> Vin \<Rightarrow> ps \<Rightarrow> ps res" where
  "processInput D db tx spendingTxid p = (\<lambda>(i, input) st.
     catchR (cp_PackTxid (parserOf D) (vin_Txid input))
       (\<lambda>err. if err = ErrTxidMissing then Ok st else Err err)
       (\<lambda>btxID. bindR (loadTxAddresses D db btxID st) (\<lambda>(ita, st).
          case ita of
            None \<Rightarrow> Ok (setInput p i (cp_GetAddrDescForUnknownInput (parserOf D) tx i)
                        (cp_GetValueSatForUnknownInput (parserOf D) tx i) st)
          | Some q \<Rightarrow>
              if length (ta_Outputs (ps_heap st ! q)) \<le> unat (vin_Vout input) then Ok st
              else let spentOutput = ta_Outputs (ps_heap st ! q) ! unat (vin_Vout input);
                       st = setInput p i (to_AddrDesc spentOutput) (to_ValueSat spentOutput) st;
                       st = updateTa q (\<lambda>ta. ta\<lparr>ta_Outputs := (ta_Outputs ta)[unat (vin_Vout input) := spentOutput\<lparr>to_Spent := True\<rparr>]\<rparr>) st
                   in if length (to_AddrDesc spentOutput) = 0 then Ok st
                      else bindR (vAddrDescriptors D (to_AddrDesc spentOutput)) (\<lambda>ads.
                           foldR (debitInput D db spendingTxid i btxID (vin_Vout input) (to_ValueSat spentOutput)) ads st))))"

text \<open>The second loop over the transactions. Both shield counts are the length of \<open>VShieldIn\<close>.\<close>

definition processTxInputs :: "'db deps \<Rightarrow> 'db \<Rightarrow> Tx \<times> bytes \<times> nat \<Rightarrow> ps \<Rightarrow> ps res" where
  "processTxInputs D db = (\<lambda>(tx, spendingTxid, p) st.
     let st = updateTa p (\<lambda>ta. ta\<lparr>ta_Inputs := replicate (length (tx_Vin tx)) emptyTxInput\<rparr>) st
     in bindR (foldR (processInput D db tx spendingTxid p) (indexed (tx_Vin tx)) st) (\<lambda>st.
        Ok (updateTa p (\<lambda>ta. ta\<lparr>ta_ShieldIns := of_nat (length (tx_VShieldIn tx)),
              ta_ShieldOuts := of_nat (length (tx_VShieldIn tx)), ta_ShieldValBal := tx_ShieldValBal tx\<rparr>) st)))"

definition processAddressesBitcoinType :: "'db deps \<Rightarrow> 'db \<Rightarrow> Block \<Rightarrow> ps \<Rightarrow> ps res" where
  "processAddressesBitcoinType D db block st =
     bindR (foldR (processTxOutputs D db (bh_Height block)) (blk_Txs block) ([], st)) (\<lambda>(blockTxs, st).
     foldR (processTxInputs D db) (zip (blk_Txs block) blockTxs) st)"

section \<open>Storing a block\<close>

text \<open>
  Each of these appends to a write batch. A Go map is iterated in the order of its association
  list; the entries have distinct keys, so the order does not matter to what the batch does.
\<close>

definition storeAddresses :: "'db deps \<Rightarrow> u32 \<Rightarrow> addressesMap \<Rightarrow> write_batch" where
  "storeAddresses D height addresses =
     map (\<lambda>(addrDesc, txi). PutCF cfAddresses (packAddressKey addrDesc height) (packTxIndexes (vlqOf D) txi)) addresses"

definition storeTxAddresses :: "'db deps \<Rightarrow> (bytes, TxAddresses) gomap \<Rightarrow> write_batch" where
  "storeTxAddresses D am = map (\<lambda>(txID, ta). PutCF cfTxAddresses txID (packTxAddresses (vlqOf D) ta)) am"

definition storeBalances :: "'db deps \<Rightarrow> (bytes, AddrBalance option) gomap \<Rightarrow> write_batch" where
  "storeBalances D abm =
     map (\<lambda>(addrDesc, ab).
            case ab of
              None \<Rightarrow> DeleteCF cfAddressBalance addrDesc
            | Some ab \<Rightarrow> if ab_Txs ab = 0 then DeleteCF cfAddressBalance addrDesc
                         else PutCF cfAddressBalance addrDesc (packAddrBalance (vlqOf D) ab)) abm"

text \<open>
  The loop over \<open>rh\<close> deletes in the store at once, not through the batch, and ignores the
  error of \<open>DeleteCF\<close>.
\<close>

fun cleanupLoop :: "'db deps \<Rightarrow> nat \<Rightarrow> 'db \<Rightarrow> 'db \<times> unit res" where
  "cleanupLoop D 0 db = (db, Ok ())"
| "cleanupLoop D (Suc rh) db =
     (let key = packUint (of_nat (Suc rh))
      in case kv_GetCF (kvOf D) db cfBlockTxs key of
           Inl e \<Rightarrow> (db, Err e)
         | Inr None \<Rightarrow> (db, Ok ())
         | Inr (Some _) \<Rightarrow>
             cleanupLoop D rh (case kv_DeleteCF (kvOf D) cfBlockTxs key db of Inl _ \<Rightarrow> db | Inr db \<Rightarrow> db))"

definition cleanupBlockTxs :: "'db deps \<Rightarrow> u32 \<Rightarrow> 'db \<Rightarrow> 'db \<times> unit res" where
  "cleanupBlockTxs D height db =
     (let keep = ucast (cp_KeepBlockAddresses (parserOf D)) :: u32
      in if height > keep then cleanupLoop D (unat (height - keep)) db else (db, Ok ()))"

definition blockTxOutpoints :: "'db deps \<Rightarrow> Tx \<Rightarrow> outpoint list res" where
  "blockTxOutpoints D tx =
     mapR (\<lambda>vin. catchR (cp_PackTxid (parserOf D) (vin_Txid vin))
                  (\<lambda>err. if err = ErrTxidMissing
                         then Ok \<lparr>o_btxID = replicate (cp_PackedTxidLen (parserOf D)) 0, o_index = vin_Vout vin\<rparr>
                         else Err err)
                  (\<lambda>btxID. Ok \<lparr>o_btxID = btxID, o_index = vin_Vout vin\<rparr>)) (tx_Vin tx)"

definition packBlockTx :: "'db deps \<Rightarrow> Tx \<Rightarrow> bytes res" where
  "packBlockTx D tx =
     bindR (blockTxOutpoints D tx) (\<lambda>os.
     bindR (cp_PackTxid (parserOf D) (tx_Txid tx)) (\<lambda>btxID.
     Ok (btxID @ packVaruint (vlqOf D) (len64 os) @ packOutpoints (vlqOf D) os)))"

definition storeBlockTxs :: "'db deps \<Rightarrow> Block \<Rightarrow> write_batch res" where
  "storeBlockTxs D block =
     bindR (mapR (packBlockTx D) (blk_Txs block)) (\<lambda>bufs.
     Ok [PutCF cfBlockTxs (packUint (bh_Height block)) (concat bufs)])"

text \<open>\<open>storeAndCleanupBlockTxs\<close>: the state of the store, and the batch or the error.\<close>

definition storeAndCleanupBlockTxs :: "'db deps \<Rightarrow> Block \<Rightarrow> 'db \<Rightarrow> 'db \<times> write_batch res" where
  "storeAndCleanupBlockTxs D block db =
     (case storeBlockTxs D block of
        Inl e \<Rightarrow> (db, Err e)
      | Inr wb \<Rightarrow> (let (db, r) = cleanupBlockTxs D (bh_Height block) db in (db, bindR r (\<lambda>_. Ok wb))))"

datatype db_op = opInsert | opDelete

text \<open>\<open>writeHeight\<close> updates the internal state, which panics when there is none.\<close>

definition writeHeight :: "'db deps \<Rightarrow> go_time \<Rightarrow> u32 \<Rightarrow> BlockInfo \<Rightarrow> db_op \<Rightarrow> InternalState option
    \<Rightarrow> (InternalState option \<times> write_batch) res" where
  "writeHeight D now height bi op is =
     (case op of
        opInsert \<Rightarrow>
          bindR (packBlockInfo (vlqOf D) (parserOf D) bi) (\<lambda>val.
          case is of None \<Rightarrow> Err (Panic ''nil pointer dereference'')
          | Some is \<Rightarrow> Ok (Some (UpdateBestHeight now height is), [PutCF cfHeight (packUint height) val]))
      | opDelete \<Rightarrow>
          (case is of None \<Rightarrow> Err (Panic ''nil pointer dereference'')
          | Some is \<Rightarrow> Ok (Some (UpdateBestHeight now (height - 1) is), [DeleteCF cfHeight (packUint height)])))"

definition blockInfoOf :: "Block \<Rightarrow> BlockInfo" where
  "blockInfoOf block =
     \<lparr>bi_Hash = bh_Hash block, bi_Time = bh_Time block, bi_Txs = of_nat (length (blk_Txs block)),
      bi_Size = ucast (bh_Size block), bi_Height = bh_Height block\<rparr>"

definition writeHeightFromBlock :: "'db deps \<Rightarrow> go_time \<Rightarrow> Block \<Rightarrow> db_op \<Rightarrow> InternalState option
    \<Rightarrow> (InternalState option \<times> write_batch) res" where
  "writeHeightFromBlock D now block op is = writeHeight D now (bh_Height block) (blockInfoOf block) op is"

definition emptyPs :: "connectBlockStats \<Rightarrow> ps" where
  "emptyPs cbs = \<lparr>ps_addresses = [], ps_heap = [], ps_txAddressesMap = [], ps_balances = [], ps_cbs = cbs\<rparr>"

text \<open>The objects the map of transactions points to, and the balances as pointers that are not nil.\<close>

definition txAddressesOf :: "ps \<Rightarrow> (bytes, TxAddresses) gomap" where
  "txAddressesOf st = map (\<lambda>(k, p). (k, ps_heap st ! p)) (ps_txAddressesMap st)"

definition balancesOf :: "ps \<Rightarrow> (bytes, AddrBalance option) gomap" where
  "balancesOf st = map (\<lambda>(k, b). (k, Some b)) (ps_balances st)"

text \<open>
  \<open>ConnectBlock\<close> returns the new state of the handle with its result: the internal state, the
  counters and the deletions of \<open>cleanupBlockTxs\<close> stay when a later step fails. The counters
  serve the log only; those of a block whose processing fails half-way are left out.
\<close>

definition ConnectBlock :: "'db deps \<Rightarrow> go_time \<Rightarrow> Block \<Rightarrow> 'db RocksDB \<Rightarrow> 'db RocksDB \<times> unit res" where
  "ConnectBlock D now block d =
     (case writeHeightFromBlock D now block opInsert (d_is d) of
        Inl e \<Rightarrow> (d, Err e)
      | Inr (is, wb) \<Rightarrow>
          let d = d\<lparr>d_is := is\<rparr>
          in case processAddressesBitcoinType D (d_db d) block (emptyPs (d_cbs d)) of
               Inl e \<Rightarrow> (d, Err e)
             | Inr st \<Rightarrow>
                 let d = d\<lparr>d_cbs := ps_cbs st\<rparr>;
                     wb = wb @ storeTxAddresses D (txAddressesOf st);
                     wb = wb @ storeBalances D (balancesOf st);
                     (db, r) = storeAndCleanupBlockTxs D block (d_db d);
                     d = d\<lparr>d_db := db\<rparr>
                 in case r of
                      Inl e \<Rightarrow> (d, Err e)
                    | Inr wb' \<Rightarrow>
                        let wb = wb @ wb';
                            wb = wb @ storeAddresses D (bh_Height block) (ps_addresses st)
                        in case kv_Write (kvOf D) wb (d_db d) of
                             Inl e \<Rightarrow> (d, Err e)
                           | Inr db \<Rightarrow> (d\<lparr>d_db := db\<rparr>, Ok ()))"

definition GetAndResetConnectBlockStats :: "'db RocksDB \<Rightarrow> 'db RocksDB \<times> connectBlockStats" where
  "GetAndResetConnectBlockStats d =
     (d\<lparr>d_cbs := \<lparr>cbs_txAddressesHit = 0, cbs_txAddressesMiss = 0, cbs_balancesHit = 0, cbs_balancesMiss = 0\<rparr>\<rparr>,
      d_cbs d)"

end
