(* ===== verification/BaseParser.thy ===== *)
theory BaseParser
  imports ChainTypes
begin

text \<open>
  \<open>src/bchain/baseparser.go\<close>: transaction ids and block hashes as hexadecimal strings,
  amounts as decimal strings, and transactions packed for the column \<open>transactions\<close>. The
  protobuf library is the parameter \<open>proto_lib\<close>; \<open>encoding/hex\<close>, \<open>strings\<close> and the
  decimal conversions of \<open>math/big\<close> belong to Go and are modelled.
\<close>

section \<open>Hexadecimal strings\<close>

text \<open>\<open>hex.EncodeToString\<close> (lower case) and \<open>hex.DecodeString\<close> (either case).\<close>

definition hexDigit :: "nat \<Rightarrow> char" where
  "hexDigit n = (''0123456789abcdef'' ! n)"

definition fromHexChar :: "char \<Rightarrow> nat option" where
  "fromHexChar c =
     (let k = of_char c :: nat
      in if 48 \<le> k \<and> k \<le> 57 then Some (k - 48)
         else if 97 \<le> k \<and> k \<le> 102 then Some (k - 97 + 10)
         else if 65 \<le> k \<and> k \<le> 70 then Some (k - 65 + 10)
         else None)"

fun hexEncodeToString :: "bytes \<Rightarrow> string" where
  "hexEncodeToString [] = []"
| "hexEncodeToString (b # bs) =
     hexDigit (unat b div 16) # hexDigit (unat b mod 16) # hexEncodeToString bs"

fun hexDecodeString :: "string \<Rightarrow> bytes res" where
  "hexDecodeString [] = Ok []"
| "hexDecodeString [c] =
     (case fromHexChar c of
        None \<Rightarrow> Err (ErrMsg ''encoding/hex: invalid byte'')
      | Some _ \<Rightarrow> Err (ErrMsg ''encoding/hex: odd length hex string''))"
| "hexDecodeString (c # d # cs) =
     (case (fromHexChar c, fromHexChar d) of
        (Some h, Some l) \<Rightarrow> bindR (hexDecodeString cs) (\<lambda>bs. Ok (of_nat (h * 16 + l) # bs))
      | _ \<Rightarrow> Err (ErrMsg ''encoding/hex: invalid byte''))"

section \<open>The parser\<close>

record BaseParser =
  bp_BlockAddressesToKeep :: int64
  bp_AmountDecimalPoint :: int

definition GetAddrDescForUnknownInput :: "Tx \<Rightarrow> nat \<Rightarrow> AddressDescriptor" where
  "GetAddrDescForUnknownInput tx input = []"

definition GetValueSatForUnknownInput :: "Tx \<Rightarrow> nat \<Rightarrow> int" where
  "GetValueSatForUnknownInput tx input = 0"

definition PackedTxidLen :: nat where
  "PackedTxidLen = 32"

definition KeepBlockAddresses :: "BaseParser \<Rightarrow> int64" where
  "KeepBlockAddresses p = bp_BlockAddressesToKeep p"

definition AmountDecimals :: "BaseParser \<Rightarrow> int" where
  "AmountDecimals p = bp_AmountDecimalPoint p"

definition PackTxid :: "string \<Rightarrow> bytes res" where
  "PackTxid txid = (if txid = [] then Err ErrTxidMissing else hexDecodeString txid)"

definition UnpackTxid :: "bytes \<Rightarrow> string res" where
  "UnpackTxid buf = Ok (hexEncodeToString buf)"

definition PackBlockHash :: "string \<Rightarrow> bytes res" where
  "PackBlockHash hash = hexDecodeString hash"

definition UnpackBlockHash :: "bytes \<Rightarrow> string res" where
  "UnpackBlockHash buf = Ok (hexEncodeToString buf)"

definition IsAddrDescIndexable :: "AddressDescriptor \<Rightarrow> bool" where
  "IsAddrDescIndexable addrDesc = True"

section \<open>Amounts\<close>

definition digitChar :: "nat \<Rightarrow> char" where
  "digitChar n = (''0123456789'' ! n)"

definition digitVal :: "char \<Rightarrow> nat option" where
  "digitVal c = (let k = of_char c :: nat in if 48 \<le> k \<and> k \<le> 57 then Some (k - 48) else None)"

text \<open>\<open>big.Int.String\<close> and \<open>big.Int.SetString\<close> in base 10.\<close>

fun natString :: "nat \<Rightarrow> string" where
  "natString n = (if n < 10 then [digitChar n] else natString (n div 10) @ [digitChar (n mod 10)])"

declare natString.simps [simp del]

definition bigString :: "int \<Rightarrow> string" where
  "bigString a = (if a < 0 then CHR ''-'' # natString (nat (- a)) else natString (nat a))"

fun digitsVal :: "string \<Rightarrow> nat \<Rightarrow> nat option" where
  "digitsVal [] acc = Some acc"
| "digitsVal (c # cs) acc = (case digitVal c of None \<Rightarrow> None | Some d \<Rightarrow> digitsVal cs (acc * 10 + d))"

definition natSetString :: "string \<Rightarrow> nat option" where
  "natSetString s = (if s = [] then None else digitsVal s 0)"

fun bigSetString :: "string \<Rightarrow> int option" where
  "bigSetString [] = None"
| "bigSetString (c # cs) =
     (if c = CHR ''-'' then map_option (\<lambda>n. - int n) (natSetString cs)
      else if c = CHR ''+'' then map_option int (natSetString cs)
      else map_option int (natSetString (c # cs)))"

text \<open>\<open>strings.IndexByte\<close> (\<open>-1\<close> when absent) and \<open>strings.TrimRight\<close> of one character.\<close>

definition indexByte :: "string \<Rightarrow> char \<Rightarrow> int" where
  "indexByte s c = (if c \<in> set s then int (length (takeWhile (\<lambda>x. x \<noteq> c) s)) else - 1)"

definition trimRight :: "string \<Rightarrow> char \<Rightarrow> string" where
  "trimRight s c = rev (dropWhile (\<lambda>x. x = c) (rev s))"

definition zeros :: string where
  "zeros = replicate 40 (CHR ''0'')"

definition AmountToBigInt :: "int \<Rightarrow> string \<Rightarrow> int res" where
  "AmountToBigInt decimalPoint n =
     (let s = n;
          i = indexByte s (CHR ''.'');
          d = (if decimalPoint > int (length zeros) then int (length zeros) else decimalPoint)
      in bindR
           (if i = - 1 then bindR (sliceR zeros 0 d) (\<lambda>z. Ok (s @ z))
            else let z = d - int (length s) + i + 1
                 in bindR (sliceR s 0 i) (\<lambda>ip.
                    if z > 0
                    then bindR (sliceFromR s (i + 1)) (\<lambda>fp. bindR (sliceR zeros 0 z) (\<lambda>zs. Ok (ip @ fp @ zs)))
                    else bindR (sliceR s (i + 1) (int (length s) + z)) (\<lambda>fp. Ok (ip @ fp))))
           (\<lambda>s. case bigSetString s of
                  None \<Rightarrow> Err (ErrMsg ''AmountToBigInt: failed to convert'')
                | Some r \<Rightarrow> Ok r))"

definition AmountToDecimalString :: "int option \<Rightarrow> int \<Rightarrow> string res" where
  "AmountToDecimalString a d =
     (case a of None \<Rightarrow> Ok []
      | Some a \<Rightarrow>
          let n = bigString a;
              neg = (n ! 0 = CHR ''-'');
              n = (if neg then tl n else n);
              s = (if neg then ''-'' else []);
              d = (if d > int (length zeros) then int (length zeros) else d)
          in bindR (if int (length n) \<le> d
                    then bindR (sliceR zeros 0 (d - int (length n) + 1)) (\<lambda>z. Ok (z @ n))
                    else Ok n) (\<lambda>n.
             let i = int (length n) - d
             in bindR (sliceFromR n i) (\<lambda>frac.
                let ad = trimRight frac (CHR ''0'')
                in bindR (sliceR n 0 i) (\<lambda>ip.
                   Ok (s @ (if length ad > 0 then ip @ ''.'' @ ad else ip))))))"

section \<open>Transactions in protobuf\<close>

text \<open>
  The messages of \<open>src/bchain/tx.pb.go\<close> and the protobuf library's \<open>proto.Marshal\<close> and
  \<open>proto.Unmarshal\<close> for them.
\<close>

record ProtoVin =
  pvin_Coinbase :: string
  pvin_Txid :: bytes
  pvin_Vout :: u32
  pvin_ScriptSigHex :: bytes
  pvin_Sequence :: u32
  pvin_Addresses :: "string list"

record ProtoVout =
  pvout_ValueSat :: bytes
  pvout_N :: u32
  pvout_ScriptPubKeyHex :: bytes
  pvout_Addresses :: "string list"

record ProtoTransaction =
  pt_Txid :: bytes
  pt_Hex :: bytes
  pt_Blocktime :: u64
  pt_Locktime :: u32
  pt_Height :: u32
  pt_Vin :: "ProtoVin list"
  pt_Vout :: "ProtoVout list"
  pt_Version :: int32

record proto_lib =
  proto_Marshal :: "ProtoTransaction \<Rightarrow> bytes res"
  proto_Unmarshal :: "bytes \<Rightarrow> ProtoTransaction res"

definition packVin :: "Vin \<Rightarrow> ProtoVin res" where
  "packVin vi =
     bindR (hexDecodeString (vin_ScriptSigHex vi)) (\<lambda>hex.
     bindR (case PackTxid (vin_Txid vi) of
              Inl e \<Rightarrow> if e = ErrTxidMissing then Ok [] else Err e
            | Inr itxid \<Rightarrow> Ok itxid) (\<lambda>itxid.
     Ok \<lparr>pvin_Coinbase = vin_Coinbase vi, pvin_Txid = itxid, pvin_Vout = vin_Vout vi,
         pvin_ScriptSigHex = hex, pvin_Sequence = vin_Sequence vi,
         pvin_Addresses = vin_Addresses vi\<rparr>))"

definition packVout :: "Vout \<Rightarrow> ProtoVout res" where
  "packVout vo =
     bindR (hexDecodeString (vout_ScriptPubKeyHex vo)) (\<lambda>hex.
     Ok \<lparr>pvout_ValueSat = minBytes (nat \<bar>vout_ValueSat vo\<bar>), pvout_N = vout_N vo,
         pvout_ScriptPubKeyHex = hex, pvout_Addresses = vout_Addresses vo\<rparr>)"

definition PackTx :: "proto_lib \<Rightarrow> Tx \<Rightarrow> u32 \<Rightarrow> int64 \<Rightarrow> bytes res" where
  "PackTx L tx height blockTime =
     bindR (mapR packVin (tx_Vin tx)) (\<lambda>pti.
     bindR (mapR packVout (tx_Vout tx)) (\<lambda>pto.
     bindR (hexDecodeString (tx_Hex tx)) (\<lambda>hex.
     bindR (PackTxid (tx_Txid tx)) (\<lambda>txid.
     proto_Marshal L \<lparr>pt_Txid = txid, pt_Hex = hex, pt_Blocktime = blockTime,
       pt_Locktime = tx_LockTime tx, pt_Height = height, pt_Vin = pti, pt_Vout = pto,
       pt_Version = tx_Version tx\<rparr>))))"

definition unpackVin :: "ProtoVin \<Rightarrow> Vin res" where
  "unpackVin pti =
     bindR (UnpackTxid (pvin_Txid pti)) (\<lambda>itxid.
     Ok \<lparr>vin_Coinbase = pvin_Coinbase pti, vin_Txid = itxid, vin_Vout = pvin_Vout pti,
         vin_ScriptSigHex = hexEncodeToString (pvin_ScriptSigHex pti),
         vin_Sequence = pvin_Sequence pti, vin_Addresses = pvin_Addresses pti\<rparr>)"

definition unpackVout :: "ProtoVout \<Rightarrow> Vout" where
  "unpackVout pto =
     \<lparr>vout_ValueSat = int (natOfBytes (pvout_ValueSat pto)), vout_JsonValue = [],
      vout_N = pvout_N pto, vout_ScriptPubKeyHex = hexEncodeToString (pvout_ScriptPubKeyHex pto),
      vout_Addresses = pvout_Addresses pto\<rparr>"

definition UnpackTx :: "proto_lib \<Rightarrow> bytes \<Rightarrow> (Tx \<times> u32) res" where
  "UnpackTx L buf =
     bindR (proto_Unmarshal L buf) (\<lambda>pt.
     bindR (UnpackTxid (pt_Txid pt)) (\<lambda>txid.
     bindR (mapR unpackVin (pt_Vin pt)) (\<lambda>vin.
     Ok (\<lparr>tx_Hex = hexEncodeToString (pt_Hex pt), tx_Txid = txid, tx_Version = pt_Version pt,
          tx_LockTime = pt_Locktime pt, tx_Vin = vin, tx_Vout = map unpackVout (pt_Vout pt),
          tx_Confirmations = 0, tx_Time = pt_Blocktime pt, tx_Blocktime = pt_Blocktime pt,
          tx_VShieldIn = [], tx_VShieldOut = [], tx_ShieldValBal = 0,
          tx_CoinSpecificData = None\<rparr>, pt_Height pt))))"

section \<open>Hexadecimal strings read back\<close>

text \<open>The strings \<open>hex.EncodeToString\<close> produces.\<close>

definition lowerHex :: "string \<Rightarrow> bool" where
  "lowerHex s = (even (length s) \<and> list_all (\<lambda>c. c \<in> set ''0123456789abcdef'') s)"

lemma hexDigit_table: "list_all (\<lambda>n. fromHexChar (hexDigit n) = Some n) [0..<16]"
  by code_simp

lemma fromHexChar_hexDigit [simp]: "n < 16 \<Longrightarrow> fromHexChar (hexDigit n) = Some n"
  using hexDigit_table by (simp add: list_all_iff del: upt_rec_numeral)

lemma hexDigit_fromHexChar:
  "c \<in> set ''0123456789abcdef'' \<Longrightarrow> \<exists>n < 16. fromHexChar c = Some n \<and> hexDigit n = c"
  by (auto simp: hexDigit_def fromHexChar_def)

lemma hexDecode_encode [simp, codec_simps]: "hexDecodeString (hexEncodeToString bs) = Ok bs"
proof (induction bs)
  case Nil
  then show ?case by simp
next
  case (Cons b bs)
  have "unat b div 16 < 16" "unat b mod 16 < 16"
    using unat_byte_less [of b] by linarith+
  moreover have "(of_nat (unat b div 16 * 16 + unat b mod 16) :: byte) = b"
    by (simp only: div_mult_mod_eq) simp
  ultimately show ?case
    using Cons by (simp del: of_nat_add of_nat_mult)
qed

lemma hexDecode_lowerHex:
  "lowerHex s \<Longrightarrow> \<exists>bs. hexDecodeString s = Ok bs \<and> length s = 2 * length bs \<and> hexEncodeToString bs = s"
proof (induction s rule: hexDecodeString.induct)
  case (3 c d cs)
  then obtain h l where h: "h < 16" "fromHexChar c = Some h" "hexDigit h = c"
      and l: "l < 16" "fromHexChar d = Some l" "hexDigit l = d"
    using hexDigit_fromHexChar [of c] hexDigit_fromHexChar [of d]
    by (auto simp only: lowerHex_def list.pred_inject)
  have "lowerHex cs" using "3.prems" by (simp add: lowerHex_def)
  with "3.IH" [OF refl h(2) l(2)] obtain bs where "hexDecodeString cs = Ok bs"
      "length cs = 2 * length bs" "hexEncodeToString bs = cs"
    by auto
  moreover have "unat (of_nat (h * 16 + l) :: byte) = h * 16 + l"
    using h(1) l(1) by (simp only: unat_of_nat_byte) simp
  ultimately show ?case
    using h l by (simp del: of_nat_add of_nat_mult)
qed (auto simp: lowerHex_def)

section \<open>Amounts read back\<close>

lemma digit_table: "list_all (\<lambda>n. digitVal (digitChar n) = Some n \<and> digitChar n \<notin> set ''+-.'') [0..<10]"
  by code_simp

lemma digitVal_digitChar [simp]: "n < 10 \<Longrightarrow> digitVal (digitChar n) = Some n"
  and digitChar_not_sign: "n < 10 \<Longrightarrow> digitChar n \<notin> set ''+-.''"
  using digit_table by (simp_all add: list_all_iff del: upt_rec_numeral list.set)

definition allDigits :: "string \<Rightarrow> bool" where
  "allDigits s = (s \<noteq> [] \<and> list_all (\<lambda>c. \<exists>n < 10. c = digitChar n) s)"

lemma digitChar_0: "CHR ''0'' = digitChar 0"
  by (simp add: digitChar_def)

lemma digitsVal_append:
  "digitsVal (xs @ ys) acc = (case digitsVal xs acc of None \<Rightarrow> None | Some v \<Rightarrow> digitsVal ys v)"
  by (induction xs arbitrary: acc) (auto split: option.splits)

lemma natString_digits: "allDigits (natString n)"
proof (induction n rule: natString.induct)
  case (1 n)
  show ?case
  proof (cases "n < 10")
    case True
    then show ?thesis by (auto simp: allDigits_def natString.simps [of n])
  next
    case False
    have "\<exists>k < 10. digitChar (n mod 10) = digitChar k"
      by (rule exI [of _ "n mod 10"]) simp
    with 1 [OF False] False show ?thesis by (simp add: allDigits_def natString.simps [of n])
  qed
qed

lemma digitsVal_natString: "digitsVal (natString n) 0 = Some n"
proof (induction n rule: natString.induct)
  case (1 n)
  then show ?case
    by (cases "n < 10") (simp_all add: natString.simps [of n] digitsVal_append)
qed

lemma digitsVal_zeros: "digitsVal (replicate k (CHR ''0'') @ n) 0 = digitsVal n 0"
  by (induction k) (simp_all add: digitChar_0)

lemma allDigits_no_sign: "allDigits s \<Longrightarrow> c \<in> set s \<Longrightarrow> c \<notin> set ''+-.''"
  using digitChar_not_sign by (auto simp only: allDigits_def list_all_iff)

lemma bigSetString_digits:
  assumes "allDigits n" "digitsVal n 0 = Some k"
  shows "bigSetString n = Some (int k)" "bigSetString (CHR ''-'' # n) = Some (- int k)"
proof -
  obtain c cs where n: "n = c # cs" using assms(1) by (cases n) (auto simp: allDigits_def)
  then have "c \<noteq> CHR ''-''" "c \<noteq> CHR ''+''"
    using allDigits_no_sign [OF assms(1), of c] by auto
  then show "bigSetString n = Some (int k)" "bigSetString (CHR ''-'' # n) = Some (- int k)"
    using n assms(2) by (simp_all add: natSetString_def)
qed

lemma trimRight_split:
  obtains k where "s = trimRight s c @ replicate k c"
proof
  let ?k = "length (takeWhile (\<lambda>x. x = c) (rev s))"
  have "takeWhile (\<lambda>x. x = c) (rev s) = replicate ?k c"
    by (metis (mono_tags, lifting) replicate_eqI set_takeWhileD)
  then have "rev s = replicate ?k c @ dropWhile (\<lambda>x. x = c) (rev s)"
    by (metis takeWhile_dropWhile_id)
  from arg_cong [OF this, of rev] show "s = trimRight s c @ replicate ?k c"
    by (simp add: trimRight_def)
qed

lemma indexByte_absent: "c \<notin> set s \<Longrightarrow> indexByte s c = - 1"
  by (simp add: indexByte_def)

lemma indexByte_first: "c \<notin> set s \<Longrightarrow> indexByte (s @ c # t) c = int (length s)"
proof -
  assume "c \<notin> set s"
  then have "takeWhile (\<lambda>x. x \<noteq> c) (s @ c # t) = s" by (induction s) auto
  then show ?thesis by (simp add: indexByte_def)
qed

text \<open>What the parser of amounts sees of a sign, integer part and trimmed fraction.\<close>

lemma AmountToBigInt_integral:
  assumes "CHR ''.'' \<notin> set s" "0 \<le> d"
    and "bigSetString (s @ replicate (nat (min d 40)) (CHR ''0'')) = Some r"
  shows "AmountToBigInt d s = Ok r"
  using assms by (auto simp: AmountToBigInt_def indexByte_absent zeros_def sliceR_def min_def nat_le_iff)

lemma AmountToBigInt_fraction:
  assumes "CHR ''.'' \<notin> set s" "0 \<le> d" "length t + k = nat (min d 40)"
    and "bigSetString (s @ t @ replicate k (CHR ''0'')) = Some r"
  shows "AmountToBigInt d (s @ CHR ''.'' # t) = Ok r"
proof -
  have k: "(if d > int (length zeros) then int (length zeros) else d) - int (length (s @ CHR ''.'' # t))
      + int (length s) + 1 = int k" "k \<le> 40"
    using assms(2,3) by (auto simp: zeros_def min_def split: if_splits)
  have "sliceR zeros 0 (int k) = Ok (replicate k (CHR ''0''))"
    using k(2) by (simp add: sliceR_def zeros_def)
  moreover have "sliceR (s @ CHR ''.'' # t) 0 (int (length s)) = Ok s"
    by (rule sliceR_prefix)
  moreover have "sliceFromR (s @ CHR ''.'' # t) (int (length s) + 1) = Ok t"
    using sliceFromR_append [of "s @ ''.''" t] by (simp add: add.commute)
  ultimately show ?thesis
    using assms(4) k(1)
    by (cases "k = 0") (simp_all add: AmountToBigInt_def Let_def indexByte_first [OF assms(1)] sliceFromR_def del: of_nat_add)
qed

text \<open>The shape of what \<open>AmountToDecimalString\<close> prints.\<close>

lemma AmountToDecimalString_shape:
  assumes "0 \<le> d"
  obtains ip ad k where
    "AmountToDecimalString (Some a) d
       = Ok ((if a < 0 then ''-'' else []) @ (if ad = [] then ip else ip @ CHR ''.'' # ad))"
    "length ad + k = nat (min d 40)"
    "allDigits (ip @ ad @ replicate k (CHR ''0''))" "ip \<noteq> []"
    "digitsVal (ip @ ad @ replicate k (CHR ''0'')) 0 = Some (nat \<bar>a\<bar>)"
proof -
  define e where "e = nat (min d 40)"
  define n where "n = natString (nat \<bar>a\<bar>)"
  define p where "p = replicate (if length n \<le> e then e - length n + 1 else 0) (CHR ''0'') @ n"
  define ip where "ip = take (length p - e) p"
  define frac where "frac = drop (length p - e) p"
  have n: "allDigits n" "n \<noteq> []" using natString_digits by (auto simp: n_def allDigits_def)
  then have "\<not> n ! 0 = CHR ''-''"
    using allDigits_no_sign [OF n(1), of "n ! 0"] nth_mem [of 0 n] by auto
  then have sign: "(bigString a ! 0 = CHR ''-'') = (a < 0)"
      "(if a < 0 then tl (bigString a) else bigString a) = n"
    by (auto simp: bigString_def n_def)
  have e: "(if d > int (length zeros) then int (length zeros) else d) = int e" "e \<le> 40"
    using assms by (auto simp: e_def zeros_def min_def)
  have "e < length p" "1 \<le> length n" using n by (auto simp: p_def Suc_le_eq)
  then have ip: "ip \<noteq> []" "length frac = e" "ip @ frac = p"
    by (auto simp: ip_def frac_def)
  obtain k where k: "frac = trimRight frac (CHR ''0'') @ replicate k (CHR ''0'')"
    by (rule trimRight_split)
  have pad: "(if int (length n) \<le> int e
      then bindR (sliceR zeros 0 (int e - int (length n) + 1)) (\<lambda>z. Ok (z @ n)) else Ok n) = Ok p"
    using e(2) \<open>1 \<le> length n\<close>
    by (auto simp: p_def sliceR_def zeros_def nat_diff_distrib nat_add_distrib)
  have slices: "sliceFromR p (int (length p) - int e) = Ok frac" "sliceR p 0 (int (length p) - int e) = Ok ip"
    using \<open>e < length p\<close> by (auto simp: sliceFromR_def sliceR_def frac_def ip_def nat_diff_distrib)
  have "AmountToDecimalString (Some a) d
      = Ok ((if a < 0 then ''-'' else []) @ (if trimRight frac (CHR ''0'') = [] then ip
            else ip @ CHR ''.'' # trimRight frac (CHR ''0'')))"
    unfolding AmountToDecimalString_def Let_def option.case sign e(1) pad bindR_Ok slices by simp
  moreover have "length (trimRight frac (CHR ''0'')) + k = nat (min d 40)"
    using arg_cong [OF k, of length] ip(2) by (simp add: e_def)
  moreover have p: "ip @ trimRight frac (CHR ''0'') @ replicate k (CHR ''0'') = p"
    using k ip(3) by simp
  moreover have "allDigits p"
  proof -
    have "\<exists>m < 10. digitChar 0 = digitChar m" by (rule exI [of _ 0]) simp
    with n(1) show ?thesis by (auto simp: p_def allDigits_def digitChar_0 list_all_iff)
  qed
  moreover have "digitsVal p 0 = Some (nat \<bar>a\<bar>)"
    by (simp add: p_def digitsVal_zeros) (simp add: n_def digitsVal_natString)
  ultimately show thesis using ip(1) that by metis
qed

text \<open>
  C2: an amount printed with a decimal point reads back as the same number, for every amount,
  sign and number of decimals (both directions cap the decimals at 40).
\<close>

theorem amount_roundtrip:
  assumes "0 \<le> d"
  shows "bindR (AmountToDecimalString (Some a) d) (AmountToBigInt d) = Ok a"
proof -
  obtain ip ad k where str: "AmountToDecimalString (Some a) d
       = Ok ((if a < 0 then ''-'' else []) @ (if ad = [] then ip else ip @ CHR ''.'' # ad))"
    and len: "length ad + k = nat (min d 40)"
    and dig: "allDigits (ip @ ad @ replicate k (CHR ''0''))" "ip \<noteq> []"
    and val: "digitsVal (ip @ ad @ replicate k (CHR ''0'')) 0 = Some (nat \<bar>a\<bar>)"
    by (rule AmountToDecimalString_shape [OF assms])
  define s where "s = (if a < 0 then ''-'' else []) @ ip"
  have set: "bigSetString (s @ ad @ replicate k (CHR ''0'')) = Some a"
    using bigSetString_digits [OF dig(1) val] by (auto simp: s_def)
  have dot: "CHR ''.'' \<notin> set s"
    using allDigits_no_sign [OF dig(1), of "CHR ''.''"] by (auto simp: s_def)
  show ?thesis
  proof (cases "ad = []")
    case True
    then show ?thesis
      using AmountToBigInt_integral [OF dot assms] set len str by (simp add: s_def)
  next
    case False
    then show ?thesis
      using AmountToBigInt_fraction [OF dot assms len set] str by (simp add: s_def)
  qed
qed

text \<open>C2 at a negative amount of eight decimals.\<close>

theorem amount_roundtrip_witness:
  "AmountToDecimalString (Some (- 123456700)) 8 = Ok ''-1.234567''
   \<and> bindR (AmountToDecimalString (Some (- 123456700)) 8) (AmountToBigInt 8) = Ok (- 123456700)"
proof
  show "AmountToDecimalString (Some (- 123456700)) 8 = Ok ''-1.234567''"
    by (simp add: AmountToDecimalString_def bigString_def natString.simps digitChar_def zeros_def
        sliceR_def sliceFromR_def trimRight_def Let_def)
  show "bindR (AmountToDecimalString (Some (- 123456700)) 8) (AmountToBigInt 8) = Ok (- 123456700)"
    by (rule amount_roundtrip) simp
qed

section \<open>Transaction ids and packed transactions read back\<close>

text \<open>A transaction id or block hash: 32 bytes in lower-case hexadecimal.\<close>

definition okHash :: "string \<Rightarrow> bool" where
  "okHash t = (lowerHex t \<and> length t = 64)"

lemma PackTxid_okHash:
  assumes "okHash t"
  shows "\<exists>b. PackTxid t = Ok b \<and> PackBlockHash t = Ok b \<and> length b = PackedTxidLen \<and> hexEncodeToString b = t"
proof -
  obtain b where "hexDecodeString t = Ok b" "length t = 2 * length b" "hexEncodeToString b = t"
    using hexDecode_lowerHex [of t] assms by (auto simp: okHash_def)
  then show ?thesis
    using assms by (auto simp: PackTxid_def PackBlockHash_def okHash_def PackedTxidLen_def)
qed

definition okVin :: "Vin \<Rightarrow> bool" where
  "okVin vi = (lowerHex (vin_ScriptSigHex vi) \<and> lowerHex (vin_Txid vi))"

definition okVout :: "Vout \<Rightarrow> bool" where
  "okVout vo = (lowerHex (vout_ScriptPubKeyHex vo) \<and> 0 \<le> vout_ValueSat vo \<and> vout_JsonValue vo = [])"

definition okTx :: "Tx \<Rightarrow> bool" where
  "okTx tx = (lowerHex (tx_Hex tx) \<and> lowerHex (tx_Txid tx) \<and> tx_Txid tx \<noteq> []
     \<and> list_all okVin (tx_Vin tx) \<and> list_all okVout (tx_Vout tx))"

text \<open>What the packed form keeps: the fields that come from the block or the node are reset.\<close>

definition storedTx :: "Tx \<Rightarrow> int64 \<Rightarrow> Tx" where
  "storedTx tx blockTime = tx\<lparr>tx_Confirmations := 0, tx_Time := blockTime, tx_Blocktime := blockTime,
     tx_VShieldIn := [], tx_VShieldOut := [], tx_ShieldValBal := 0, tx_CoinSpecificData := None\<rparr>"

lemma unpackVin_packVin: "okVin vi \<Longrightarrow> \<exists>p. packVin vi = Ok p \<and> unpackVin p = Ok vi"
  using hexDecode_lowerHex [of "vin_ScriptSigHex vi"] hexDecode_lowerHex [of "vin_Txid vi"]
  by (cases "vin_Txid vi = []")
    (auto simp: okVin_def packVin_def unpackVin_def UnpackTxid_def PackTxid_def)

lemma unpackVout_packVout: "okVout vo \<Longrightarrow> \<exists>p. packVout vo = Ok p \<and> unpackVout p = vo"
  using hexDecode_lowerHex [of "vout_ScriptPubKeyHex vo"]
  by (auto simp: okVout_def packVout_def unpackVout_def)

lemma mapR_roundtrip:
  assumes "\<And>x. x \<in> set xs \<Longrightarrow> \<exists>p. f x = Ok p \<and> g p = Ok x"
  shows "\<exists>ps. mapR f xs = Ok ps \<and> mapR g ps = Ok xs"
  using assms
proof (induction xs)
  case (Cons x xs)
  then obtain ps where "mapR f xs = Ok ps" "mapR g ps = Ok xs" by auto
  moreover obtain p where "f x = Ok p" "g p = Ok x" using Cons.prems [of x] by auto
  ultimately have "mapR f (x # xs) = Ok (p # ps) \<and> mapR g (p # ps) = Ok (x # xs)" by simp
  then show ?case by blast
qed simp

lemma mapR_Ok_map: "mapR (\<lambda>x. Ok (g x)) xs = Ok (map g xs)"
  by (induction xs) auto


definition sampleTx :: Tx where
  "sampleTx = \<lparr>tx_Hex = ''0102'', tx_Txid = ''ab'', tx_Version = 1, tx_LockTime = 0,
     tx_Vin = [\<lparr>vin_Coinbase = ''03'', vin_Txid = [], vin_Vout = 0, vin_ScriptSigHex = [], vin_Sequence = 5,
                vin_Addresses = []\<rparr>],
     tx_Vout = [\<lparr>vout_ValueSat = 300, vout_JsonValue = [], vout_N = 0, vout_ScriptPubKeyHex = ''76a9'',
                 vout_Addresses = [''o1'']\<rparr>],
     tx_Confirmations = 4, tx_Time = 9, tx_Blocktime = 9, tx_VShieldIn = [], tx_VShieldOut = [],
     tx_ShieldValBal = 0, tx_CoinSpecificData = None\<rparr>"

text \<open>A protobuf library that knows the one message of \<open>sampleTx\<close>.\<close>

definition sampleMessage :: ProtoTransaction where
  "sampleMessage = \<lparr>pt_Txid = [0xab], pt_Hex = [1, 2], pt_Blocktime = 9, pt_Locktime = 0, pt_Height = 7,
     pt_Vin = [\<lparr>pvin_Coinbase = ''03'', pvin_Txid = [], pvin_Vout = 0, pvin_ScriptSigHex = [],
       pvin_Sequence = 5, pvin_Addresses = []\<rparr>],
     pt_Vout = [\<lparr>pvout_ValueSat = [1, 44], pvout_N = 0, pvout_ScriptPubKeyHex = [0x76, 0xa9],
       pvout_Addresses = [''o1'']\<rparr>], pt_Version = 1\<rparr>"

definition sampleProto :: proto_lib where
  "sampleProto = \<lparr>proto_Marshal = (\<lambda>pt. if pt = sampleMessage then Ok [10] else Err (ErrMsg ''unknown'')),
     proto_Unmarshal = (\<lambda>b. if b = [10] then Ok sampleMessage else Err (ErrMsg ''unknown''))\<rparr>"


end
