(* ===== verification/IndexReads.thy ===== *)
theory IndexReads
  imports RocksDb BaseParser
begin

text \<open>
  Reading the address index: \<open>GetAddrDescTransactions\<close> reports exactly the stored transactions
  of an address, from the newest block to the oldest. The scan trusts the key range alone; the
  hypothesis \<open>isolated\<close> says that no key of another descriptor lies in it, and the last lemma
  shows what happens otherwise.
\<close>

section \<open>A store whose reads do not fail\<close>

locale kv_reliable = kv_store K val
  for K :: "'db kv_lib" and val :: "'db \<Rightarrow> contents" +
  assumes get_ok: "kv_GetCF K db c k = Ok (val db c k)"

interpretation alist_reliable: kv_reliable alistStore alistVal
  by unfold_locales (simp add: alistStore_def alistVal_def)

section \<open>One entry\<close>

definition txidOf :: "'db deps \<Rightarrow> bytes \<Rightarrow> string" where
  "txidOf D b = (case cp_UnpackTxid (parserOf D) b of Inr s \<Rightarrow> s | Inl _ \<Rightarrow> [])"

definition okEntry :: "'db deps \<Rightarrow> txIndexes \<Rightarrow> bool" where
  "okEntry D t \<longleftrightarrow> okTxIndexes (cp_PackedTxidLen (parserOf D)) t
     \<and> cp_UnpackTxid (parserOf D) (txi_btxID t) = Ok (txidOf D (txi_btxID t))"

text \<open>The callback that collects what it is given.\<close>

type_synonym tx_report = "string \<times> u32 \<times> int32 list"

definition collect :: "string \<Rightarrow> u32 \<Rightarrow> int32 list \<Rightarrow> tx_report list \<Rightarrow> tx_report list cb_result" where
  "collect txid height indexes s = CbNext (s @ [(txid, height, indexes)])"

definition reportOf :: "'db deps \<Rightarrow> u32 \<Rightarrow> txIndexes \<Rightarrow> tx_report" where
  "reportOf D h t = (txidOf D (txi_btxID t), h, txi_indexes t)"

lemma scanVal_pack:
  assumes "vlq_documented (vlqOf D)" "list_all (okEntry D) ts" "length ts < fuel"
  shows "scanVal D collect h fuel (concat (map (packTxIndex (vlqOf D)) ts)) s
    = Ok (ScanOn (s @ map (reportOf D h) ts))"
  using assms(2,3)
proof (induction ts arbitrary: fuel s)
  case Nil
  then obtain f where "fuel = Suc f" by (cases fuel) auto
  then show ?case by (simp add: Let_def)
next
  case (Cons t ts)
  then obtain f where f: "fuel = Suc f" by (cases fuel) auto
  define V where "V = vlqOf D"
  define pl where "pl = cp_PackedTxidLen (parserOf D)"
  define ib where "ib = concat (map (\<lambda>(i, index). packIndex V (i = length (txi_indexes t) - 1) index) (indexed (txi_indexes t)))"
  define r where "r = concat (map (packTxIndex V) ts)"
  have t: "length (txi_btxID t) = pl" "txi_indexes t \<noteq> []" "list_all okIndex (txi_indexes t)"
      "cp_UnpackTxid (parserOf D) (txi_btxID t) = Ok (txidOf D (txi_btxID t))"
    using Cons.prems by (auto simp: okEntry_def okTxIndexes_def pl_def)
  have len: "length (concat (map (\<lambda>(i, index). packIndex V (i = n) index) xs)) \<ge> length xs" for n xs
  proof (induction xs)
    case (Cons x xs)
    obtain i j where x: "x = (i, j)" by (cases x)
    let ?f = "\<lambda>(i, index). packIndex V (i = n) index"
    have "0 < length (packIndex V (i = n) j)"
      using vlq_documented.pack_length_pos [OF assms(1)] by (simp add: packIndex_def Let_def V_def)
    moreover have "length (concat (map ?f (x # xs))) = length (packIndex V (i = n) j) + length (concat (map ?f xs))"
      using x by simp
    moreover have "length (x # xs) = Suc (length xs)" by simp
    ultimately show ?case using Cons by linarith
  qed simp
  have "length (txi_indexes t) \<le> length ib"
    using len [of "indexed (txi_indexes t)" "length (txi_indexes t) - 1"] by (simp add: ib_def)
  moreover have "0 < length (txi_indexes t)" using t(2) by simp
  ultimately have ib: "0 < length ib" "length (txi_indexes t) \<le> Suc (length (ib @ r))" by auto
  have read: "readIndexes V (Suc (length (ib @ r))) (ib @ r) = Ok (txi_indexes t, r)"
    using vlq_documented.readIndexes_pack [OF assms(1) t(2,3) ib(2), of r] by (simp add: V_def ib_def)
  have val: "concat (map (packTxIndex V) (t # ts)) = txi_btxID t @ ib @ r"
    by (simp add: packTxIndex_def ib_def r_def)
  have "sliceR (txi_btxID t @ ib @ r) 0 (int pl) = Ok (txi_btxID t)"
      "sliceFromR (txi_btxID t @ ib @ r) (int pl) = Ok (ib @ r)"
    using sliceR_prefix [of "txi_btxID t" "ib @ r"] sliceFromR_append [of "txi_btxID t" "ib @ r"] t(1) by simp_all
  moreover have "scanVal D collect h f r s' = Ok (ScanOn (s' @ map (reportOf D h) ts))" for s'
    using Cons.IH [of f s'] Cons.prems f by (simp add: r_def V_def)
  ultimately show ?case
    unfolding V_def [symmetric] val f using t(1,4) ib(1) read
    by (simp add: Let_def pl_def [symmetric] V_def [symmetric] collect_def [of _ _ _ s] reportOf_def
        del: readIndexes.simps)
qed

section \<open>The range of an address\<close>

text \<open>
  \<open>indexedAs\<close>: the column holds, for the descriptor, the transactions \<open>A h\<close> of each height.
  \<open>isolated\<close>: every key in the range scanned belongs to the descriptor.
\<close>

definition indexedAs :: "'db deps \<Rightarrow> (bytes \<Rightarrow> bytes option) \<Rightarrow> bytes \<Rightarrow> (u32 \<Rightarrow> txIndexes list option) \<Rightarrow> bool" where
  "indexedAs D m addrDesc A \<longleftrightarrow>
     (\<forall>h. m (packAddressKey addrDesc h) = map_option (packTxIndexes (vlqOf D)) (A h)
          \<and> (\<forall>ts. A h = Some ts \<longrightarrow> list_all (okEntry D) ts))"

definition isolated :: "(bytes \<Rightarrow> bytes option) \<Rightarrow> bytes \<Rightarrow> u32 \<Rightarrow> u32 \<Rightarrow> bool" where
  "isolated m addrDesc lower higher \<longleftrightarrow>
     (\<forall>k. m k \<noteq> None \<and> packAddressKey addrDesc higher \<le> k \<and> k \<le> packAddressKey addrDesc lower
        \<longrightarrow> (\<exists>h. k = packAddressKey addrDesc h))"

definition keyHeight :: "bytes \<Rightarrow> u32" where
  "keyHeight k = (case unpackAddressKey k of Inr (_, h) \<Rightarrow> h | Inl _ \<Rightarrow> 0)"

definition blockReports :: "'db deps \<Rightarrow> (u32 \<Rightarrow> txIndexes list option) \<Rightarrow> u32 \<Rightarrow> tx_report list" where
  "blockReports D A h = (case A h of None \<Rightarrow> [] | Some ts \<Rightarrow> map (reportOf D h) (rev ts))"

lemma keyHeight_pack [simp]: "a \<noteq> [] \<Longrightarrow> keyHeight (packAddressKey a h) = h"
  by (simp add: keyHeight_def unpackAddressKey_pack)

lemma packAddressKey_le: "packAddressKey a h \<le> packAddressKey a h' \<longleftrightarrow> h' \<le> h"
  by (simp add: packAddressKey_less linorder_not_less [symmetric])

lemma scanVal_block:
  assumes "vlq_documented (vlqOf D)" "list_all (okEntry D) ts"
  shows "scanVal D collect h (Suc (length (packTxIndexes (vlqOf D) ts))) (packTxIndexes (vlqOf D) ts) s
    = Ok (ScanOn (s @ map (reportOf D h) (rev ts)))"
proof -
  have "length us \<le> length (concat (map (packTxIndex (vlqOf D)) us))" if "list_all (okEntry D) us" for us
    using that
  proof (induction us)
    case (Cons u us)
    then have "txi_indexes u \<noteq> []" by (simp add: okEntry_def okTxIndexes_def)
    then obtain i "is" where "txi_indexes u = i # is" by (cases "txi_indexes u") auto
    then have "packTxIndex (vlqOf D) u \<noteq> []"
      using vlq_documented.pack_nonempty [OF assms(1)]
      by (auto simp: packTxIndex_def packIndex_def Let_def indexed_def upt_rec)
    with Cons show ?case by (cases "packTxIndex (vlqOf D) u") auto
  qed simp
  from this [of "rev ts"] assms(2) have "length (rev ts) < Suc (length (packTxIndexes (vlqOf D) ts))"
    by (simp add: packTxIndexes_def less_Suc_eq_le)
  with assms show ?thesis
    unfolding packTxIndexes_def by (intro scanVal_pack) auto
qed

lemma scanEntries_range:
  assumes "vlq_documented (vlqOf D)" "a \<noteq> []"
    and "\<And>k v. (k, v) \<in> set es \<Longrightarrow> k \<le> stop
      \<Longrightarrow> \<exists>h ts. k = packAddressKey a h \<and> A h = Some ts \<and> v = packTxIndexes (vlqOf D) ts \<and> list_all (okEntry D) ts"
  shows "scanEntries D collect stop es s
    = Ok (s @ concat (map (\<lambda>(k, v). blockReports D A (keyHeight k)) (takeWhile (\<lambda>(k, v). k \<le> stop) es)))"
  using assms(3)
proof (induction es arbitrary: s)
  case (Cons e es)
  obtain k v where e: "e = (k, v)" by (cases e)
  show ?case
  proof (cases "k \<le> stop")
    case True
    then obtain h ts where h: "k = packAddressKey a h" "A h = Some ts" "v = packTxIndexes (vlqOf D) ts" "list_all (okEntry D) ts"
      using Cons.prems [of k v] e by auto
    have IH: "scanEntries D collect stop es s'
      = Ok (s' @ concat (map (\<lambda>(k, v). blockReports D A (keyHeight k)) (takeWhile (\<lambda>(k, v). k \<le> stop) es)))" for s'
      using Cons.prems by (intro Cons.IH) auto
    have "\<not> stop < k" using True by simp
    then show ?thesis
      using True e h assms(2)
      by (simp add: unpackAddressKey_pack scanVal_block [OF assms(1) h(4)] IH blockReports_def
          del: scanVal.simps)
  next
    case False
    then have "stop < k" by (simp add: not_le)
    with False show ?thesis using e by simp
  qed
qed simp

lemma in_takeWhile_sorted:
  "sorted_wrt (<) (map fst es) \<Longrightarrow> (k, v) \<in> set es \<Longrightarrow> k \<le> (stop :: 'a :: linorder)
    \<Longrightarrow> (k, v) \<in> set (takeWhile (\<lambda>(k, v). k \<le> stop) es)"
  by (induction es) (force simp: less_imp_le intro: order.trans)+

lemma scan_exact:
  assumes vlq: "vlq_documented (vlqOf D)" and kv: "kv_store (kvOf D) val"
    and a: "addrDesc \<noteq> []" "lower \<le> higher"
    and idx: "indexedAs D (val db cfAddresses) addrDesc A"
    and iso: "isolated (val db cfAddresses) addrDesc lower higher"
  shows "\<exists>hs. sorted_wrt (>) hs \<and> set hs = {h. lower \<le> h \<and> h \<le> higher \<and> A h \<noteq> None}
    \<and> GetAddrDescTransactions D db addrDesc lower higher collect [] = Ok (concat (map (blockReports D A) hs))"
proof -
  let ?start = "packAddressKey addrDesc higher" and ?stop = "packAddressKey addrDesc lower"
  define es where "es = kv_Seek (kvOf D) db cfAddresses ?start"
  define us where "us = takeWhile (\<lambda>(k, v). k \<le> ?stop) es"
  have es: "(k, v) \<in> set es \<longleftrightarrow> ?start \<le> k \<and> val db cfAddresses k = Some v" for k v
    unfolding es_def by (rule kv_store.seek_iff [OF kv])
  have sorted: "sorted_wrt (<) (map fst es)"
    unfolding es_def by (rule kv_store.seek_sorted [OF kv])
  have entry: "\<exists>h ts. k = packAddressKey addrDesc h \<and> A h = Some ts \<and> v = packTxIndexes (vlqOf D) ts \<and> list_all (okEntry D) ts"
    if "(k, v) \<in> set es" "k \<le> ?stop" for k v
  proof -
    have k: "?start \<le> k" "val db cfAddresses k = Some v" using that(1) by (simp_all add: es)
    with iso that(2) obtain h where h: "k = packAddressKey addrDesc h"
      unfolding isolated_def by blast
    with k(2) idx show ?thesis by (auto simp: indexedAs_def)
  qed
  have us: "(k, v) \<in> set us \<longleftrightarrow> (k, v) \<in> set es \<and> k \<le> ?stop" for k v
    unfolding us_def using in_takeWhile_sorted [OF sorted] by (auto dest: set_takeWhileD)
  define hs where "hs = map (keyHeight \<circ> fst) us"
  have keys: "map fst us = map (packAddressKey addrDesc) hs"
    unfolding hs_def using entry us a(1) by (force simp: keyHeight_pack)
  have "sorted_wrt (<) (map fst us)"
  proof -
    have "map fst us @ map fst (dropWhile (\<lambda>(k, v). k \<le> ?stop) es) = map fst es"
      by (simp only: us_def map_append [symmetric] takeWhile_dropWhile_id)
    with sorted have "sorted_wrt (<) (map fst us @ map fst (dropWhile (\<lambda>(k, v). k \<le> ?stop) es))"
      by (simp only:)
    then show ?thesis by (simp add: sorted_wrt_append)
  qed
  then have "sorted_wrt (>) hs"
    unfolding keys by (simp add: sorted_wrt_map packAddressKey_less)
  moreover have "set hs = {h. lower \<le> h \<and> h \<le> higher \<and> A h \<noteq> None}"
  proof -
    have "h \<in> set hs \<longleftrightarrow> (\<exists>v. (packAddressKey addrDesc h, v) \<in> set us)" for h
      using arg_cong [OF keys, of set] by (force simp: packAddressKey_inject)
    then show ?thesis
      using idx by (auto simp: us es packAddressKey_le indexedAs_def)
  qed
  moreover have "GetAddrDescTransactions D db addrDesc lower higher collect [] = Ok (concat (map (blockReports D A) hs))"
  proof -
    have "GetAddrDescTransactions D db addrDesc lower higher collect [] = scanEntries D collect ?stop es []"
      by (simp add: GetAddrDescTransactions_def es_def)
    also have "\<dots> = Ok ([] @ concat (map (\<lambda>(k, v). blockReports D A (keyHeight k)) us))"
      unfolding us_def using entry by (intro scanEntries_range [OF vlq a(1)])
    finally show ?thesis by (simp add: hs_def comp_def split_def)
  qed
  ultimately show ?thesis by blast
qed

section \<open>Properties\<close>

text \<open>
  C7: the scan of an address between two heights reports exactly the transactions stored for
  it in those blocks, each once, from the newest block to the oldest and within a block from
  the last to the first, provided no key of another descriptor lies in the range.
\<close>

theorem GetAddrDescTransactions_exact:
  assumes vlq: "vlq_documented (vlqOf D)" and kv: "kv_store (kvOf D) val"
    and a: "addrDesc \<noteq> []" "lower \<le> higher"
    and idx: "indexedAs D (val db cfAddresses) addrDesc A"
    and iso: "isolated (val db cfAddresses) addrDesc lower higher"
  shows "\<exists>hs. sorted_wrt (>) hs \<and> set hs = {h. lower \<le> h \<and> h \<le> higher \<and> A h \<noteq> None}
    \<and> GetAddrDescTransactions D db addrDesc lower higher collect [] = Ok (concat (map (blockReports D A) hs))"
  using assms by (rule scan_exact)

section \<open>A small instance\<close>

text \<open>
  A parser with transaction ids of one byte and scripts as descriptors, over the store of
  association lists, for evaluating the model.
\<close>

definition sampleParser :: chain_parser where
  "sampleParser = \<lparr>cp_KeepBlockAddresses = 2, cp_AmountDecimals = 8,
     cp_GetAddrDescFromVout = (\<lambda>o'. hexDecodeString (vout_ScriptPubKeyHex o')),
     cp_GetAddrDescFromAddress = hexDecodeString,
     cp_GetAddressesFromAddrDesc = (\<lambda>a. Ok ([hexEncodeToString a], True)),
     cp_IsAddrDescIndexable = (\<lambda>a. a \<noteq> []), cp_PackedTxidLen = 1,
     cp_PackTxid = PackTxid, cp_UnpackTxid = UnpackTxid,
     cp_PackTx = (\<lambda>_ _ _. Err (ErrMsg ''unused'')), cp_UnpackTx = (\<lambda>_. Err (ErrMsg ''unused'')),
     cp_GetAddrDescForUnknownInput = GetAddrDescForUnknownInput,
     cp_GetValueSatForUnknownInput = GetValueSatForUnknownInput,
     cp_PackBlockHash = PackBlockHash, cp_UnpackBlockHash = UnpackBlockHash\<rparr>"

definition sampleDeps :: "alist_db deps" where
  "sampleDeps = \<lparr>vlqOf = vlq128, parserOf = sampleParser, kvOf = alistStore,
     scriptOf = (\<lambda>ops. Ok (concat (map (\<lambda>op. case op of AddOp b \<Rightarrow> [b] | AddData d \<Rightarrow> of_nat (length d) # d) ops)))\<rparr>"

definition sampleIndex :: "u32 \<Rightarrow> txIndexes list option" where
  "sampleIndex h =
     (if h = 5 then Some [\<lparr>txi_btxID = [1], txi_indexes = [0, 1]\<rparr>, \<lparr>txi_btxID = [2], txi_indexes = [NOT 0]\<rparr>]
      else if h = 9 then Some [\<lparr>txi_btxID = [3], txi_indexes = [4]\<rparr>] else None)"

definition sampleIndexDb :: alist_db where
  "sampleIndexDb = [((cfAddresses, packAddressKey [7] 5), packTxIndexes vlq128 (the (sampleIndex 5))),
     ((cfAddresses, packAddressKey [7] 9), packTxIndexes vlq128 (the (sampleIndex 9)))]"

lemma sample_libs: "vlq_documented (vlqOf sampleDeps)" "kv_store (kvOf sampleDeps) alistVal"
  using vlq128.vlq_documented_axioms alist.kv_store_axioms by (simp_all add: sampleDeps_def)

lemma sample_indexed:
  "indexedAs sampleDeps (alistVal sampleIndexDb cfAddresses) [7] sampleIndex"
  "isolated (alistVal sampleIndexDb cfAddresses) [7] 0 100"
  by (auto simp: indexedAs_def sampleIndexDb_def alistVal_def packAddressKey_inject sampleDeps_def sampleIndex_def
      okEntry_def okTxIndexes_def okIndex_def sampleParser_def txidOf_def UnpackTxid_def bit_simps bit_1_iff)
    (auto simp: isolated_def sampleIndexDb_def alistVal_def split: if_splits)

text \<open>C7 at an address with three transactions in two blocks.\<close>

theorem GetAddrDescTransactions_exact_witness:
  "\<exists>hs. sorted_wrt (>) hs \<and> set hs = {h. 0 \<le> h \<and> h \<le> 100 \<and> sampleIndex h \<noteq> None}
    \<and> GetAddrDescTransactions sampleDeps sampleIndexDb [7] 0 100 collect []
        = Ok (concat (map (blockReports sampleDeps sampleIndex) hs))"
  by (rule GetAddrDescTransactions_exact [OF sample_libs _ _ sample_indexed]) simp_all

text \<open>
  Why \<open>isolated\<close> is needed: a descriptor that extends another by three bytes 255 can have its keys
  inside the other's range, and its transactions are reported as the other's.
\<close>

lemma GetAddrDescTransactions_extension:
  "GetAddrDescTransactions sampleDeps
     [((cfAddresses, packAddressKey [7, 255, 255, 255, 200] 1), packTxIndexes vlq128 [\<lparr>txi_btxID = [1], txi_indexes = [0]\<rparr>])]
     [7] 0 100 collect [] = Ok [(''01'', 1, [0])]"
  by code_simp

end
