(* ===== verification/ConnectBlocks.thy ===== *)
theory ConnectBlocks
  imports IndexReads
begin

text \<open>
  What connecting a block does: the map of addresses of a block, the balance sheets of the
  addresses it touches, and what the store holds after \<open>ConnectBlock\<close> returned without error.
\<close>

section \<open>The addresses of a block\<close>

text \<open>The abstract view: the indexes of an address in a transaction, none when it is not there.\<close>

definition txLookup :: "txIndexes list \<Rightarrow> bytes \<Rightarrow> int32 list" where
  "txLookup at t = (case find (\<lambda>x. txi_btxID x = t) at of None \<Rightarrow> [] | Some x \<Rightarrow> txi_indexes x)"

definition addrTxs :: "addressesMap \<Rightarrow> bytes \<Rightarrow> txIndexes list" where
  "addrTxs addresses a = (case mapGet addresses a of None \<Rightarrow> [] | Some at \<Rightarrow> at)"

definition indexesOf :: "addressesMap \<Rightarrow> bytes \<Rightarrow> bytes \<Rightarrow> int32 list" where
  "indexesOf addresses a t = txLookup (addrTxs addresses a) t"

definition wfTxs :: "txIndexes list \<Rightarrow> bool" where
  "wfTxs at \<longleftrightarrow> distinct (map txi_btxID at) \<and> list_all (\<lambda>x. txi_indexes x \<noteq> []) at"

definition wfAddresses :: "addressesMap \<Rightarrow> bool" where
  "wfAddresses addresses \<longleftrightarrow> wfMap addresses \<and> (\<forall>a. wfTxs (addrTxs addresses a))"

lemma appendIndex_None: "appendIndex t i at = None \<longleftrightarrow> t \<notin> txi_btxID ` set at"
  by (induction at) auto

lemma appendIndex_Some:
  "appendIndex t i at = Some at' \<Longrightarrow> wfTxs at
    \<Longrightarrow> map txi_btxID at' = map txi_btxID at \<and> list_all (\<lambda>x. txi_indexes x \<noteq> []) at'
      \<and> txLookup at' = (txLookup at)(t := txLookup at t @ [i]) \<and> txLookup at t \<noteq> []"
proof (induction at arbitrary: at')
  case (Cons x at)
  show ?case
  proof (cases "t = txi_btxID x")
    case True
    with Cons.prems show ?thesis by (auto simp: txLookup_def wfTxs_def fun_eq_iff)
  next
    case False
    then obtain at1 where at1: "appendIndex t i at = Some at1" "at' = x # at1"
      using Cons.prems by auto
    have "wfTxs at" using Cons.prems(2) by (simp add: wfTxs_def)
    note IH = Cons.IH [OF at1(1) this]
    have look: "txLookup (x # ys) t' = (if txi_btxID x = t' then txi_indexes x else txLookup ys t')" for ys t'
      by (simp add: txLookup_def)
    show ?thesis
      using IH False at1 Cons.prems by (auto simp: look wfTxs_def fun_eq_iff)
  qed
qed simp

lemma txLookup_absent: "t \<notin> txi_btxID ` set at \<Longrightarrow> txLookup at t = []"
  by (induction at) (auto simp: txLookup_def)

lemma txLookup_snoc:
  "t \<notin> txi_btxID ` set at \<Longrightarrow> txLookup (at @ [\<lparr>txi_btxID = t, txi_indexes = is\<rparr>]) = (txLookup at)(t := is)"
  by (induction at) (auto simp: txLookup_def fun_eq_iff)

lemma addrTxs_put [simp]: "addrTxs (mapPut a at m) b = (if b = a then at else addrTxs m b)"
  by (simp add: addrTxs_def)

lemma wfAddresses_Nil [simp]: "wfAddresses []"
  by (simp add: wfAddresses_def addrTxs_def wfTxs_def)

lemma addToAddressesMap_spec:
  assumes "wfAddresses m" "addToAddressesMap m a t i = (m', counted)"
  shows "wfAddresses m'" "indexesOf m' = (indexesOf m)(a := (indexesOf m a)(t := indexesOf m a t @ [i]))"
    and "counted \<longleftrightarrow> indexesOf m a t \<noteq> []"
proof -
  let ?at = "addrTxs m a"
  have wf: "wfTxs ?at" "wfMap m" using assms(1) by (auto simp: wfAddresses_def)
  have "wfAddresses m' \<and> indexesOf m' = (indexesOf m)(a := (indexesOf m a)(t := indexesOf m a t @ [i]))
      \<and> counted = (indexesOf m a t \<noteq> [])"
  proof (cases "appendIndex t i ?at")
    case None
    then have t: "t \<notin> txi_btxID ` set ?at" by (simp add: appendIndex_None)
    have m': "m' = mapPut a (?at @ [\<lparr>txi_btxID = t, txi_indexes = [i]\<rparr>]) m" "\<not> counted"
      using assms(2) None by (auto simp: addToAddressesMap_def addrTxs_def Let_def)
    have "wfTxs (?at @ [\<lparr>txi_btxID = t, txi_indexes = [i]\<rparr>])"
      using wf t by (auto simp: wfTxs_def)
    then have "wfAddresses m'"
      using assms(1) by (simp add: m' wfAddresses_def)
    then show ?thesis
      using m'(2) t by (simp add: m'(1) fun_eq_iff indexesOf_def txLookup_snoc txLookup_absent)
  next
    case (Some at')
    have m': "m' = mapPut a at' m" "counted"
      using assms(2) Some by (auto simp: addToAddressesMap_def addrTxs_def Let_def)
    from appendIndex_Some [OF Some wf(1)] wf(1) have at': "wfTxs at'"
        "txLookup at' = (txLookup ?at)(t := txLookup ?at t @ [i])" "txLookup ?at t \<noteq> []"
      by (auto simp: wfTxs_def)
    have "wfAddresses m'" using assms(1) at'(1) by (simp add: m' wfAddresses_def)
    then show ?thesis
      using at' m'(2) by (simp add: m'(1) fun_eq_iff indexesOf_def)
  qed
  then show "wfAddresses m'" "indexesOf m' = (indexesOf m)(a := (indexesOf m a)(t := indexesOf m a t @ [i]))"
    "counted \<longleftrightarrow> indexesOf m a t \<noteq> []"
    by auto
qed

section \<open>Balance sheets\<close>

text \<open>
  A sheet is balanced when the balance is the sum of the unspent outputs; \<open>accounts\<close> are the
  sheets of a block being processed.
\<close>

definition balanced :: "AddrBalance \<Rightarrow> bool" where
  "balanced ab \<longleftrightarrow> sheetInv ab \<and> ab_BalanceSat ab = utxoWorth (liveUtxos ab)
     \<and> list_all (\<lambda>u. 0 \<le> u_ValueSat u) (ab_Utxos ab)"

lemma sheetInv_update [simp]:
  "sheetInv (b\<lparr>ab_Txs := x\<rparr>) = sheetInv b" "sheetInv (b\<lparr>ab_BalanceSat := y\<rparr>) = sheetInv b"
  "sheetInv (b\<lparr>ab_SentSat := z\<rparr>) = sheetInv b"
  by (simp_all add: sheetInv_def wfIndex_def)

lemma liveUtxos_update [simp]:
  "liveUtxos (b\<lparr>ab_Txs := x\<rparr>) = liveUtxos b" "liveUtxos (b\<lparr>ab_BalanceSat := y\<rparr>) = liveUtxos b"
  "liveUtxos (b\<lparr>ab_SentSat := z\<rparr>) = liveUtxos b"
  by (simp_all add: liveUtxos_def)

lemma freshUtxo_update [simp]: "freshUtxo u (b\<lparr>ab_BalanceSat := y\<rparr>) = freshUtxo u b"
  by (simp add: freshUtxo_def)

lemma hasUtxo_absent:
  assumes "wfIndex b" "\<not> hasUtxoLinear t v (ab_Utxos b)"
  shows "hasUtxo b t v = Ok False"
proof -
  have absent: "u_BtxID u \<noteq> t \<or> u_Vout u \<noteq> v" if "u \<in> set us" "\<not> hasUtxoLinear t v us" for u us
    using that by (induction us) (auto split: if_splits)
  show ?thesis
  proof (cases "ab_utxosMap b = [] \<or> firstIndex (ab_Utxos b) t = None")
    case True
    then show ?thesis using assms by (auto simp: hasUtxo_def wfIndex_def)
  next
    case False
    then obtain i where i: "firstIndex (ab_Utxos b) t = Some i" "ab_utxosMap b \<noteq> []" by auto
    from firstIndex_SomeD [OF i(1)] have "i < length (ab_Utxos b)" "u_BtxID (ab_Utxos b ! i) = t" by auto
    moreover from this have "u_Vout (ab_Utxos b ! i) \<noteq> v"
      using absent [of "ab_Utxos b ! i" "ab_Utxos b"] assms(2) by auto
    ultimately show ?thesis
      using i assms(1) by (simp add: hasUtxo_def wfIndex_def indexR_def)
  qed
qed

lemma of_nat_live: "i < 2 ^ 31 \<Longrightarrow> 0 \<le>s (of_nat i :: int32)"
  by (simp add: word_sle_eq signed_of_nat signed_take_bit_int_eq_self_iff [THEN iffD2])

lemma loadBalance_frame:
  assumes "loadBalance D db a st = Ok (b, st')"
  shows "ps_addresses st' = ps_addresses st" "ps_heap st' = ps_heap st"
    "ps_txAddressesMap st' = ps_txAddressesMap st"
    "mapGet (ps_balances st') = (mapGet (ps_balances st))(a \<mapsto> b)"
  using assms by (auto simp: loadBalance_def Let_def split: option.splits)

lemma creditOutput_step:
  assumes "cp_IsAddrDescIndexable (parserOf D) a" "loadBalance D db a st = Ok (b, st1)"
    and "balanced b" "wfAddresses (ps_addresses st)" "0 \<le> value" "i < 2 ^ 31"
    and "freshUtxo \<lparr>u_BtxID = t, u_Vout = of_nat i, u_Height = height, u_ValueSat = value\<rparr> b"
    and "\<not> hasUtxoLinear t (of_nat i) (ab_Utxos b)"
  shows "\<exists>st' b'. creditOutput D db height t i value a st = Ok st'
    \<and> mapGet (ps_balances st') = (mapGet (ps_balances st))(a \<mapsto> b') \<and> balanced b'
    \<and> ab_BalanceSat b' = ab_BalanceSat b + value \<and> ReceivedSat b' = ReceivedSat b + value
    \<and> ab_Txs b' = ab_Txs b + (if indexesOf (ps_addresses st) a t = [] then 1 else 0)
    \<and> wfAddresses (ps_addresses st')
    \<and> indexesOf (ps_addresses st') a t = indexesOf (ps_addresses st) a t @ [of_nat i]
    \<and> liveUtxos b' = liveUtxos b @ [\<lparr>u_BtxID = t, u_Vout = of_nat i, u_Height = height, u_ValueSat = value\<rparr>]
    \<and> ab_SentSat b' = ab_SentSat b"
proof -
  define u where "u = \<lparr>u_BtxID = t, u_Vout = of_nat i, u_Height = height, u_ValueSat = value\<rparr>"
  obtain m counted where m: "addToAddressesMap (ps_addresses st) a t (of_nat i) = (m, counted)"
    by (cases "addToAddressesMap (ps_addresses st) a t (of_nat i)")
  note m_spec = addToAddressesMap_spec [OF assms(4) m]
  note frame = loadBalance_frame [OF assms(2)]
  define b1 where "b1 = addUtxo u (b\<lparr>ab_BalanceSat := ab_BalanceSat b + value\<rparr>)"
  define b' where "b' = (if counted then b1 else b1\<lparr>ab_Txs := ab_Txs b1 + 1\<rparr>)"
  have inv: "sheetInv b" using assms(3) by (simp add: balanced_def)
  have has: "hasUtxo b t (of_nat i) = Ok False"
    using inv assms(8) by (intro hasUtxo_absent) (auto simp: sheetInv_def)
  have live: "0 \<le>s u_Vout u" using assms(6) by (simp add: u_def of_nat_live)
  have "sheetInv b1"
    unfolding b1_def using inv assms(7) by (intro sheet.add_inv) (simp_all add: u_def)
  moreover have "utxoWorth (liveUtxos b1) = utxoWorth (liveUtxos b) + value"
    unfolding b1_def using sheet.worth_add [OF live] by (simp add: u_def)
  ultimately have "balanced b1"
    using assms(3,5) by (auto simp: balanced_def b1_def u_def)
  then have bal: "balanced b'" by (simp add: b'_def balanced_def)
  define st' where "st' = st1\<lparr>ps_addresses := m, ps_balances := mapPut a b' (ps_balances st1)\<rparr>"
  have step: "creditOutput D db height t i value a st = Ok st'"
    using assms(1,2) has m frame(1) by (simp add: creditOutput_def Let_def st'_def b'_def b1_def u_def)
  have "mapGet (ps_balances st') = (mapGet (ps_balances st))(a \<mapsto> b')"
    by (simp add: st'_def frame fun_eq_iff)
  moreover have "ab_BalanceSat b' = ab_BalanceSat b + value" "ReceivedSat b' = ReceivedSat b + value"
      "ab_Txs b' = ab_Txs b + (if indexesOf (ps_addresses st) a t = [] then 1 else 0)"
    using m_spec(3) by (simp_all add: b'_def b1_def ReceivedSat_def)
  moreover have "wfAddresses (ps_addresses st')"
      "indexesOf (ps_addresses st') a t = indexesOf (ps_addresses st) a t @ [of_nat i]"
    using m_spec by (simp_all add: st'_def)
  moreover have "liveUtxos b' = liveUtxos b @ [u]" "ab_SentSat b' = ab_SentSat b"
    using live by (simp_all add: b'_def b1_def liveUtxos_def)
  ultimately show ?thesis using step bal unfolding u_def by blast
qed

text \<open>
  C8: crediting an output to an address keeps its sheet balanced and its index of outputs well
  formed; the balance and the amount received grow by the value, the number of transactions by
  one exactly when the block has not counted the transaction for the address, the address map
  gains the index of the output, and no other sheet changes.
\<close>

theorem creditOutput_balanced:
  assumes "cp_IsAddrDescIndexable (parserOf D) a" "loadBalance D db a st = Ok (b, st1)"
    and "balanced b" "wfAddresses (ps_addresses st)" "0 \<le> value" "i < 2 ^ 31"
    and "freshUtxo \<lparr>u_BtxID = t, u_Vout = of_nat i, u_Height = height, u_ValueSat = value\<rparr> b"
    and "\<not> hasUtxoLinear t (of_nat i) (ab_Utxos b)"
  shows "\<exists>st' b'. creditOutput D db height t i value a st = Ok st'
    \<and> mapGet (ps_balances st') = (mapGet (ps_balances st))(a \<mapsto> b') \<and> balanced b'
    \<and> ab_BalanceSat b' = ab_BalanceSat b + value \<and> ReceivedSat b' = ReceivedSat b + value
    \<and> ab_Txs b' = ab_Txs b + (if indexesOf (ps_addresses st) a t = [] then 1 else 0)
    \<and> wfAddresses (ps_addresses st')
    \<and> indexesOf (ps_addresses st') a t = indexesOf (ps_addresses st) a t @ [of_nat i]"
  using creditOutput_step [OF assms] by blast

definition zeroStats :: connectBlockStats where
  "zeroStats = \<lparr>cbs_txAddressesHit = 0, cbs_txAddressesMiss = 0, cbs_balancesHit = 0, cbs_balancesMiss = 0\<rparr>"

lemma first_output:
  "cp_IsAddrDescIndexable (parserOf sampleDeps) [7]"
  "loadBalance sampleDeps [] [7] (emptyPs zeroStats) = Ok (emptyAddrBalance, (emptyPs zeroStats)
      \<lparr>ps_balances := [([7], emptyAddrBalance)], ps_cbs := zeroStats\<lparr>cbs_balancesMiss := 1\<rparr>\<rparr>)"
  "balanced emptyAddrBalance" "wfAddresses (ps_addresses (emptyPs zeroStats))"
  "freshUtxo \<lparr>u_BtxID = [1], u_Vout = of_nat 0, u_Height = 3, u_ValueSat = 5\<rparr> emptyAddrBalance"
  "\<not> hasUtxoLinear [1] (of_nat 0) (ab_Utxos emptyAddrBalance)"
proof -
  show "cp_IsAddrDescIndexable (parserOf sampleDeps) [7]" by code_simp
  show "loadBalance sampleDeps [] [7] (emptyPs zeroStats) = Ok (emptyAddrBalance, (emptyPs zeroStats)
      \<lparr>ps_balances := [([7], emptyAddrBalance)], ps_cbs := zeroStats\<lparr>cbs_balancesMiss := 1\<rparr>\<rparr>)"
    by code_simp
  show "balanced emptyAddrBalance"
    by (simp add: balanced_def sheetInv_def wfIndex_empty)
      (simp add: emptyAddrBalance_def grouped_def idsOk_def liveUtxos_def utxoWorth_def)
qed (simp_all add: emptyPs_def freshUtxo_def emptyAddrBalance_def)

text \<open>C8 at the first output ever of an address.\<close>

theorem creditOutput_balanced_witness:
  "\<exists>st' b'. creditOutput sampleDeps [] 3 [1] 0 5 [7] (emptyPs zeroStats) = Ok st'
    \<and> mapGet (ps_balances st') = (mapGet (ps_balances (emptyPs zeroStats)))([7] \<mapsto> b') \<and> balanced b'
    \<and> ab_BalanceSat b' = ab_BalanceSat emptyAddrBalance + 5
    \<and> ReceivedSat b' = ReceivedSat emptyAddrBalance + 5
    \<and> ab_Txs b' = ab_Txs emptyAddrBalance
        + (if indexesOf (ps_addresses (emptyPs zeroStats)) [7] [1] = [] then 1 else 0)
    \<and> wfAddresses (ps_addresses st')
    \<and> indexesOf (ps_addresses st') [7] [1] = indexesOf (ps_addresses (emptyPs zeroStats)) [7] [1] @ [of_nat 0]"
  by (rule creditOutput_balanced) (use first_output in simp_all)

lemma spend_balanced:
  assumes "balanced b" "t \<noteq> []" "0 \<le>s vout"
    and "find (\<lambda>u. u_BtxID u = t \<and> u_Vout u = vout) (liveUtxos b) = Some u" "u_ValueSat u = value"
  obtains b2 where "markUtxoAsSpent t vout (b\<lparr>ab_Txs := n, ab_BalanceSat := ab_BalanceSat b - value\<rparr>) = Ok b2"
    "balanced b2" "0 \<le> ab_BalanceSat b2" "liveUtxos b2 = removeOut t vout (liveUtxos b)"
    "ab_BalanceSat b2 = ab_BalanceSat b - value" "ab_SentSat b2 = ab_SentSat b" "ab_Txs b2 = n"
proof -
  define b1 where "b1 = b\<lparr>ab_Txs := n, ab_BalanceSat := ab_BalanceSat b - value\<rparr>"
  define b2 where "b2 = b1\<lparr>ab_Utxos := spendFirst t vout (ab_Utxos b1)\<rparr>"
  have inv: "sheetInv b1" using assms(1) by (simp add: balanced_def b1_def)
  have mark: "markUtxoAsSpent t vout b1 = Ok b2"
    unfolding b2_def using inv assms(2) by (intro markUtxoAsSpent_spendFirst) (simp_all add: sheetInv_def)
  have live1: "liveUtxos b1 = liveUtxos b" by (simp add: b1_def)
  have inv2: "sheetInv b2" by (rule sheet.spend_inv [OF inv assms(2,3) mark])
  have live2: "liveUtxos b2 = removeOut t vout (liveUtxos b)"
    using sheet.spend_ok [OF inv assms(2,3)] mark live1 by auto
  have worth: "utxoWorth (liveUtxos b2) = utxoWorth (liveUtxos b) - value"
    using sheet.worth_spend [OF inv assms(2,3) mark] assms(4,5) by (simp add: live1)
  have "list_all (\<lambda>u. 0 \<le> u_ValueSat u) us \<Longrightarrow> list_all (\<lambda>u. 0 \<le> u_ValueSat u) (spendFirst t vout us)" for us
    by (induction us) auto
  then have pos: "list_all (\<lambda>u. 0 \<le> u_ValueSat u) (ab_Utxos b2)"
    using assms(1) by (simp add: b2_def b1_def balanced_def)
  then have "0 \<le> utxoWorth (liveUtxos b2)"
    unfolding utxoWorth_def liveUtxos_def by (intro sum_list_nonneg) (auto simp: list_all_iff)
  then have nonneg: "0 \<le> ab_BalanceSat b2"
    using assms(1) worth by (simp add: b2_def b1_def balanced_def)
  have "balanced b2"
    using inv2 pos worth assms(1) by (simp add: balanced_def) (simp add: b2_def b1_def)
  with nonneg live2 mark show thesis
    by (intro that [of b2]) (simp_all add: b1_def [symmetric], simp_all add: b2_def b1_def)
qed

lemma debitInput_step:
  assumes "cp_IsAddrDescIndexable (parserOf D) a" "loadBalance D db a st = Ok (b, st1)"
    and "balanced b" "wfAddresses (ps_addresses st)" "t \<noteq> []" "0 \<le>s vout"
    and "find (\<lambda>u. u_BtxID u = t \<and> u_Vout u = vout) (liveUtxos b) = Some u" "u_ValueSat u = value"
  shows "\<exists>st' b'. debitInput D db spendingTxid i t vout value a st = Ok st'
    \<and> mapGet (ps_balances st') = (mapGet (ps_balances st))(a \<mapsto> b') \<and> balanced b'
    \<and> liveUtxos b' = removeOut t vout (liveUtxos b)
    \<and> ab_BalanceSat b' = ab_BalanceSat b - value \<and> ab_SentSat b' = ab_SentSat b + value
    \<and> ReceivedSat b' = ReceivedSat b
    \<and> ab_Txs b' = ab_Txs b + (if indexesOf (ps_addresses st) a spendingTxid = [] then 1 else 0)
    \<and> wfAddresses (ps_addresses st')
    \<and> indexesOf (ps_addresses st') a spendingTxid = indexesOf (ps_addresses st) a spendingTxid @ [NOT (of_nat i)]"
proof -
  obtain m counted where m: "addToAddressesMap (ps_addresses st) a spendingTxid (NOT (of_nat i)) = (m, counted)"
    by (cases "addToAddressesMap (ps_addresses st) a spendingTxid (NOT (of_nat i))")
  note m_spec = addToAddressesMap_spec [OF assms(4) m]
  note frame = loadBalance_frame [OF assms(2)]
  define n where "n = (if counted then ab_Txs b else ab_Txs b + 1)"
  obtain b2 where b2: "markUtxoAsSpent t vout (b\<lparr>ab_Txs := n, ab_BalanceSat := ab_BalanceSat b - value\<rparr>) = Ok b2"
      "balanced b2" "0 \<le> ab_BalanceSat b2" "liveUtxos b2 = removeOut t vout (liveUtxos b)"
      "ab_BalanceSat b2 = ab_BalanceSat b - value" "ab_SentSat b2 = ab_SentSat b" "ab_Txs b2 = n"
    by (rule spend_balanced [OF assms(3,5-8)])
  define b' where "b' = b2\<lparr>ab_SentSat := ab_SentSat b2 + value\<rparr>"
  have bal: "balanced b'" using b2(2) by (simp add: b'_def balanced_def)
  define st' where "st' = st1\<lparr>ps_addresses := m, ps_balances := mapPut a b' (ps_balances st1)\<rparr>"
  have b1: "(if counted then b else b\<lparr>ab_Txs := ab_Txs b + 1\<rparr>)
      \<lparr>ab_BalanceSat := ab_BalanceSat (if counted then b else b\<lparr>ab_Txs := ab_Txs b + 1\<rparr>) - value\<rparr>
      = b\<lparr>ab_Txs := n, ab_BalanceSat := ab_BalanceSat b - value\<rparr>"
    by (simp add: n_def)
  have step: "debitInput D db spendingTxid i t vout value a st = Ok st'"
    using assms(1,2) m frame(1) b2(3)
    by (simp add: debitInput_def Let_def b1 b2(1) st'_def b'_def)
  have "mapGet (ps_balances st') = (mapGet (ps_balances st))(a \<mapsto> b')"
    by (simp add: st'_def frame fun_eq_iff)
  moreover have "ab_BalanceSat b' = ab_BalanceSat b - value" "ab_SentSat b' = ab_SentSat b + value"
      "ReceivedSat b' = ReceivedSat b"
      "ab_Txs b' = ab_Txs b + (if indexesOf (ps_addresses st) a spendingTxid = [] then 1 else 0)"
    using m_spec(3) b2 by (simp_all add: b'_def n_def ReceivedSat_def)
  moreover have "wfAddresses (ps_addresses st')"
      "indexesOf (ps_addresses st') a spendingTxid = indexesOf (ps_addresses st) a spendingTxid @ [NOT (of_nat i)]"
    using m_spec by (simp_all add: st'_def)
  moreover have "liveUtxos b' = removeOut t vout (liveUtxos b)"
    using b2(4) by (simp add: b'_def)
  ultimately show ?thesis using step bal by blast
qed

text \<open>
  C9: debiting a spent output that the sheet of its address holds keeps the sheet balanced:
  the output leaves the unspent ones, its value moves from the balance to the amount sent, the
  amount received stays, the balance is never reset, and no other sheet changes.
\<close>

theorem debitInput_balanced:
  assumes "cp_IsAddrDescIndexable (parserOf D) a" "loadBalance D db a st = Ok (b, st1)"
    and "balanced b" "wfAddresses (ps_addresses st)" "t \<noteq> []" "0 \<le>s vout"
    and "find (\<lambda>u. u_BtxID u = t \<and> u_Vout u = vout) (liveUtxos b) = Some u" "u_ValueSat u = value"
  shows "\<exists>st' b'. debitInput D db spendingTxid i t vout value a st = Ok st'
    \<and> mapGet (ps_balances st') = (mapGet (ps_balances st))(a \<mapsto> b') \<and> balanced b'
    \<and> liveUtxos b' = removeOut t vout (liveUtxos b)
    \<and> ab_BalanceSat b' = ab_BalanceSat b - value \<and> ab_SentSat b' = ab_SentSat b + value
    \<and> ReceivedSat b' = ReceivedSat b
    \<and> ab_Txs b' = ab_Txs b + (if indexesOf (ps_addresses st) a spendingTxid = [] then 1 else 0)
    \<and> wfAddresses (ps_addresses st')
    \<and> indexesOf (ps_addresses st') a spendingTxid = indexesOf (ps_addresses st) a spendingTxid @ [NOT (of_nat i)]"
  using debitInput_step [OF assms] .

definition oneUtxoBalance :: AddrBalance where
  "oneUtxoBalance = addUtxo (sampleUtxo 1 0) (emptyAddrBalance\<lparr>ab_BalanceSat := 10\<rparr>)"

lemma oneUtxoBalance_live: "liveUtxos oneUtxoBalance = [sampleUtxo 1 0]"
  by code_simp

lemma oneUtxoBalance_balanced: "balanced oneUtxoBalance"
proof -
  have "ab_Utxos oneUtxoBalance = [sampleUtxo 1 0]" "ab_utxosMap oneUtxoBalance = []" "ab_BalanceSat oneUtxoBalance = 10"
    by (simp_all add: oneUtxoBalance_def addUtxo_def emptyAddrBalance_def Let_def)
  then show ?thesis
    by (simp add: balanced_def sheetInv_def wfIndex_def grouped_def idsOk_def oneUtxoBalance_live utxoWorth_def sampleUtxo_def)
qed

text \<open>C9 at an address with one unspent output.\<close>

theorem debitInput_balanced_witness:
  "let st = (emptyPs zeroStats)\<lparr>ps_balances := [([7], oneUtxoBalance)]\<rparr> in
   \<exists>st' b'. debitInput sampleDeps [] [2] 0 [1] 0 10 [7] st = Ok st'
    \<and> mapGet (ps_balances st') = (mapGet (ps_balances st))([7] \<mapsto> b') \<and> balanced b'
    \<and> liveUtxos b' = removeOut [1] 0 (liveUtxos oneUtxoBalance)
    \<and> ab_BalanceSat b' = ab_BalanceSat oneUtxoBalance - 10 \<and> ab_SentSat b' = ab_SentSat oneUtxoBalance + 10
    \<and> ReceivedSat b' = ReceivedSat oneUtxoBalance
    \<and> ab_Txs b' = ab_Txs oneUtxoBalance + (if indexesOf (ps_addresses st) [7] [2] = [] then 1 else 0)
    \<and> wfAddresses (ps_addresses st')
    \<and> indexesOf (ps_addresses st') [7] [2] = indexesOf (ps_addresses st) [7] [2] @ [NOT (of_nat 0)]"
  unfolding Let_def
proof (rule debitInput_balanced)
  let ?st = "(emptyPs zeroStats)\<lparr>ps_balances := [([7], oneUtxoBalance)]\<rparr>"
  show "cp_IsAddrDescIndexable (parserOf sampleDeps) [7]" by code_simp
  show "loadBalance sampleDeps [] [7] ?st
      = Ok (oneUtxoBalance, ?st\<lparr>ps_cbs := zeroStats\<lparr>cbs_balancesHit := 1\<rparr>\<rparr>)"
    by code_simp
  show "balanced oneUtxoBalance" by (rule oneUtxoBalance_balanced)
  show "wfAddresses (ps_addresses ?st)" by (simp add: emptyPs_def)
  show "find (\<lambda>u. u_BtxID u = [1] \<and> u_Vout u = 0) (liveUtxos oneUtxoBalance) = Some (sampleUtxo 1 0)"
    by (simp add: oneUtxoBalance_live) (simp add: sampleUtxo_def)
  show "u_ValueSat (sampleUtxo 1 0) = 10" by (simp add: sampleUtxo_def)
qed (simp_all add: word_sle_eq)

end
