(* ===== verification/StoredBlocks.thy ===== *)
theory StoredBlocks
  imports ConnectBlocks
begin

text \<open>
  What the store holds after \<open>ConnectBlock\<close> returned without error: the header, the inputs of
  the block's transactions for a later disconnect, the outputs of each transaction, and the
  address index of the block.
\<close>

section \<open>A successful run\<close>

definition connectBatch :: "'db deps \<Rightarrow> Block \<Rightarrow> bytes \<Rightarrow> ps \<Rightarrow> write_batch \<Rightarrow> write_batch" where
  "connectBatch D block bi st wbt =
     PutCF cfHeight (packUint (bh_Height block)) bi # storeTxAddresses D (txAddressesOf st)
     @ storeBalances D (balancesOf st) @ wbt @ storeAddresses D (bh_Height block) (ps_addresses st)"

lemma ConnectBlock_OkE:
  assumes "ConnectBlock D now block d = (d', Ok ())"
  obtains ist bi st wbt db1 where
    "d_is d = Some ist" "d_is d' = Some (UpdateBestHeight now (bh_Height block) ist)"
    "packBlockInfo (vlqOf D) (parserOf D) (blockInfoOf block) = Ok bi"
    "processAddressesBitcoinType D (d_db d) block (emptyPs (d_cbs d)) = Ok st"
    "storeBlockTxs D block = Ok wbt" "cleanupBlockTxs D (bh_Height block) (d_db d) = (db1, Ok ())"
    "kv_Write (kvOf D) (connectBatch D block bi st wbt) db1 = Ok (d_db d')"
proof -
  from assms obtain is1 wb where w: "writeHeightFromBlock D now block opInsert (d_is d) = Ok (is1, wb)"
    by (auto simp: ConnectBlock_def split: sum.splits)
  then obtain is0 bi where bi: "d_is d = Some is0" "is1 = Some (UpdateBestHeight now (bh_Height block) is0)"
      "packBlockInfo (vlqOf D) (parserOf D) (blockInfoOf block) = Ok bi"
      "wb = [PutCF cfHeight (packUint (bh_Height block)) bi]"
    by (auto simp: writeHeightFromBlock_def writeHeight_def split: option.splits)
  from assms w obtain st where st: "processAddressesBitcoinType D (d_db d) block (emptyPs (d_cbs d)) = Ok st"
    by (auto simp: ConnectBlock_def Let_def split: sum.splits)
  obtain db1 r where r: "storeAndCleanupBlockTxs D block (d_db d) = (db1, r)"
    by (cases "storeAndCleanupBlockTxs D block (d_db d)")
  from assms w st r obtain wbt where wbt: "r = Ok wbt"
    by (auto simp: ConnectBlock_def Let_def split: sum.splits)
  with r have store: "storeBlockTxs D block = Ok wbt" "cleanupBlockTxs D (bh_Height block) (d_db d) = (db1, Ok ())"
    by (auto simp: storeAndCleanupBlockTxs_def split: sum.splits prod.splits)
  from assms w st r wbt bi(4) have "kv_Write (kvOf D) (connectBatch D block bi st wbt) db1 = Ok (d_db d')"
      "d_is d' = is1"
    by (auto simp: ConnectBlock_def Let_def connectBatch_def split: sum.splits)
  with bi st store show thesis by (intro that) auto
qed

text \<open>A run succeeds when each of its steps does.\<close>

lemma ConnectBlock_succeeds:
  assumes "isOk (writeHeightFromBlock D now block opInsert (d_is d))"
    and "isOk (processAddressesBitcoinType D (d_db d) block (emptyPs (d_cbs d)))"
    and "isOk (storeBlockTxs D block)" "snd (cleanupBlockTxs D (bh_Height block) (d_db d)) = Ok ()"
    and "\<And>wb db. isOk (kv_Write (kvOf D) wb db)"
  shows "ConnectBlock D now block d = (fst (ConnectBlock D now block d), Ok ())"
proof -
  obtain ist wb st wbt db1 where run: "writeHeightFromBlock D now block opInsert (d_is d) = Ok (ist, wb)"
      "processAddressesBitcoinType D (d_db d) block (emptyPs (d_cbs d)) = Ok st" "storeBlockTxs D block = Ok wbt"
      "cleanupBlockTxs D (bh_Height block) (d_db d) = (db1, Ok ())"
    using assms(1-4) by (auto simp: isOk_iff) (metis prod.collapse)
  obtain db2 where "kv_Write (kvOf D) (((wb @ storeTxAddresses D (txAddressesOf st)) @ storeBalances D (balancesOf st)) @ wbt
      @ storeAddresses D (bh_Height block) (ps_addresses st)) db1 = Ok db2"
    using assms(5) by (auto simp: isOk_iff)
  then show ?thesis
    using run by (simp add: ConnectBlock_def Let_def storeAndCleanupBlockTxs_def)
qed

lemma applyBatch_column: "c \<notin> (fst \<circ> opKey) ` set wb \<Longrightarrow> applyBatch wb m c = m c"
proof (rule ext, rule applyBatch_other, rule notI)
  fix k
  assume "c \<notin> (fst \<circ> opKey) ` set wb" "(c, k) \<in> opKey ` set wb"
  then have "fst (c, k) \<in> fst ` opKey ` set wb" by (intro imageI)
  with \<open>c \<notin> (fst \<circ> opKey) ` set wb\<close> show False by (simp add: image_comp)
qed

lemma applyBatch_local: "m c = m' c \<Longrightarrow> applyBatch wb m c = applyBatch wb m' c"
proof (induction wb arbitrary: m m')
  case (Cons op wb)
  then have "wbStep op m c = wbStep op m' c" by (cases op) auto
  then show ?case unfolding applyBatch_Cons by (rule Cons.IH)
qed simp

lemma columns:
  "(fst \<circ> opKey) ` set (storeTxAddresses D am) \<subseteq> {cfTxAddresses}"
  "(fst \<circ> opKey) ` set (storeBalances D abm) \<subseteq> {cfAddressBalance}"
  "(fst \<circ> opKey) ` set (storeAddresses D h ad) \<subseteq> {cfAddresses}"
  by (auto simp: storeTxAddresses_def storeBalances_def storeAddresses_def split: option.splits)

lemma columns_blockTxs: "storeBlockTxs D block = Ok wbt \<Longrightarrow> (fst \<circ> opKey) ` set wbt \<subseteq> {cfBlockTxs}"
  by (auto simp: storeBlockTxs_def)

lemma connectBatch_columns:
  assumes "storeBlockTxs D block = Ok wbt"
  shows "applyBatch (connectBatch D block bi st wbt) m cfHeight (packUint (bh_Height block)) = Some bi"
    and "applyBatch (connectBatch D block bi st wbt) m cfBlockTxs = applyBatch wbt m cfBlockTxs"
    and "applyBatch (connectBatch D block bi st wbt) m cfTxAddresses
      = applyBatch (storeTxAddresses D (txAddressesOf st)) m cfTxAddresses"
    and "applyBatch (connectBatch D block bi st wbt) m cfAddressBalance
      = applyBatch (storeBalances D (balancesOf st)) m cfAddressBalance"
    and "applyBatch (connectBatch D block bi st wbt) m cfAddresses
      = applyBatch (storeAddresses D (bh_Height block) (ps_addresses st)) m cfAddresses"
proof -
  let ?wb = "[PutCF cfHeight (packUint (bh_Height block)) bi]" and ?t = "storeTxAddresses D (txAddressesOf st)"
    and ?b = "storeBalances D (balancesOf st)" and ?a = "storeAddresses D (bh_Height block) (ps_addresses st)"
  have wb: "applyBatch (connectBatch D block bi st wbt) m
      = applyBatch ?a (applyBatch wbt (applyBatch ?b (applyBatch ?t (applyBatch ?wb m))))"
    by (simp add: connectBatch_def applyBatch_Cons applyBatch_append)
  note cols = columns(1) [of D "txAddressesOf st"] columns(2) [of D "balancesOf st"]
    columns(3) [of D "bh_Height block" "ps_addresses st"] columns_blockTxs [OF assms]
  have other: "applyBatch ?t m' c = m' c" if "c \<noteq> cfTxAddresses" for m' c
    using that cols by (intro applyBatch_column) auto
  have other2: "applyBatch ?b m' c = m' c" if "c \<noteq> cfAddressBalance" for m' c
    using that cols by (intro applyBatch_column) auto
  have other3: "applyBatch wbt m' c = m' c" if "c \<noteq> cfBlockTxs" for m' c
    using that cols by (intro applyBatch_column) auto
  have other4: "applyBatch ?a m' c = m' c" if "c \<noteq> cfAddresses" for m' c
    using that cols by (intro applyBatch_column) auto
  show "applyBatch (connectBatch D block bi st wbt) m cfHeight (packUint (bh_Height block)) = Some bi"
    by (simp add: wb other other2 other3 other4 applyBatch_Cons)
  have first: "applyBatch ?wb m c = m c" if "c \<noteq> cfHeight" for c
    using that by (simp add: applyBatch_Cons)
  show "applyBatch (connectBatch D block bi st wbt) m cfBlockTxs = applyBatch wbt m cfBlockTxs"
    unfolding wb by (simp add: other4) (rule applyBatch_local, simp add: other other2 first)
  show "applyBatch (connectBatch D block bi st wbt) m cfTxAddresses = applyBatch ?t m cfTxAddresses"
    unfolding wb by (simp add: other4 other3 other2) (rule applyBatch_local, simp add: first)
  show "applyBatch (connectBatch D block bi st wbt) m cfAddressBalance = applyBatch ?b m cfAddressBalance"
    unfolding wb by (simp add: other4 other3) (rule applyBatch_local, simp add: other first)
  show "applyBatch (connectBatch D block bi st wbt) m cfAddresses = applyBatch ?a m cfAddresses"
    unfolding wb by (rule applyBatch_local) (simp add: other other2 other3 first)
qed

section \<open>The header\<close>

lemma ConnectBlock_stored:
  assumes "kv_store (kvOf D) val" "ConnectBlock D now block d = (d', Ok ())"
  obtains ist bi st wbt m where
    "d_is d' = Some (UpdateBestHeight now (bh_Height block) ist)"
    "packBlockInfo (vlqOf D) (parserOf D) (blockInfoOf block) = Ok bi"
    "processAddressesBitcoinType D (d_db d) block (emptyPs (d_cbs d)) = Ok st"
    "storeBlockTxs D block = Ok wbt"
    "val (d_db d') = applyBatch (connectBatch D block bi st wbt) m"
proof -
  obtain ist bi st wbt db1 where *: "d_is d' = Some (UpdateBestHeight now (bh_Height block) ist)"
      "packBlockInfo (vlqOf D) (parserOf D) (blockInfoOf block) = Ok bi"
      "processAddressesBitcoinType D (d_db d) block (emptyPs (d_cbs d)) = Ok st"
      "storeBlockTxs D block = Ok wbt" "kv_Write (kvOf D) (connectBatch D block bi st wbt) db1 = Ok (d_db d')"
    by (rule ConnectBlock_OkE [OF assms(2)])
  from kv_store.write_val [OF assms(1) *(5)] * show thesis by (intro that)
qed

text \<open>
  After a block was connected its header reads back at its height: the same hash, number
  of transactions and size, the time of 32 bits, and the height itself; and the shared state
  reports that height as the best one.
\<close>

theorem ConnectBlock_header:
  assumes vlq: "vlq_documented (vlqOf D)" and kv: "kv_reliable (kvOf D) val"
    and ids: "id_packing (parserOf D) okId" "okId (bh_Hash block)"
    and run: "ConnectBlock D now block d = (d', Ok ())"
  shows "GetBlockHash D (d_db d') (bh_Height block) = Ok (bh_Hash block)
    \<and> GetBlockInfo D (d_db d') (bh_Height block)
        = Ok (Some ((blockInfoOf block)\<lparr>bi_Time := ucast (ucast (bh_Time block) :: u32)\<rparr>))
    \<and> map_option is_BestHeight (d_is d') = Some (bh_Height block)"
proof -
  have kvs: "kv_store (kvOf D) val" using kv by (simp add: kv_reliable_def)
  obtain ist bi st wbt m where s: "d_is d' = Some (UpdateBestHeight now (bh_Height block) ist)"
      "packBlockInfo (vlqOf D) (parserOf D) (blockInfoOf block) = Ok bi" "storeBlockTxs D block = Ok wbt"
      "val (d_db d') = applyBatch (connectBatch D block bi st wbt) m"
    by (rule ConnectBlock_stored [OF kvs run])
  have get: "kv_GetCF (kvOf D) (d_db d') cfHeight (packUint (bh_Height block)) = Ok (Some bi)"
    using kv_reliable.get_ok [OF kv] s(4) connectBatch_columns(1) [OF s(3)] by simp
  obtain h where h: "cp_PackBlockHash (parserOf D) (bh_Hash block) = Ok h" "length h = cp_PackedTxidLen (parserOf D)"
      "cp_UnpackBlockHash (parserOf D) h = Ok (bh_Hash block)"
    using id_packing.pack_hash [OF ids] by auto
  have "unpackBlockInfo (vlqOf D) (parserOf D) bi
      = Ok (Some ((blockInfoOf block)\<lparr>bi_Time := ucast (ucast (bh_Time block) :: u32), bi_Height := 0\<rparr>))"
    using vlq_documented.unpackBlockInfo_pack [OF vlq _ h(2) _ s(2)] h by (simp add: blockInfoOf_def)
  with get s(1) show ?thesis
    by (simp add: GetBlockHash_def GetBlockInfo_def dataOf_def blockInfoOf_def UpdateBestHeight_def)
qed

section \<open>The inputs of a block\<close>

definition blockTxRecord :: "'db deps \<Rightarrow> Tx \<Rightarrow> blockTxs res" where
  "blockTxRecord D tx =
     bindR (blockTxOutpoints D tx) (\<lambda>os.
     bindR (cp_PackTxid (parserOf D) (tx_Txid tx)) (\<lambda>btxID.
     Ok \<lparr>bt_btxID = btxID, bt_inputs = os\<rparr>))"

text \<open>The ids of the transaction and of its inputs have the parser's length where they pack.\<close>

definition okBlockTx :: "'db deps \<Rightarrow> Tx \<Rightarrow> bool" where
  "okBlockTx D tx \<longleftrightarrow> lenOk (tx_Vin tx) \<and>
     list_all (\<lambda>t. case cp_PackTxid (parserOf D) t of Inr b \<Rightarrow> length b = cp_PackedTxidLen (parserOf D) | Inl _ \<Rightarrow> True)
       (tx_Txid tx # map vin_Txid (tx_Vin tx))"

definition okBlockTxs :: "nat \<Rightarrow> blockTxs \<Rightarrow> bool" where
  "okBlockTxs pl r \<longleftrightarrow> length (bt_btxID r) = pl \<and> list_all (okOutpoint pl) (bt_inputs r) \<and> lenOk (bt_inputs r)"

definition encBlockTxs :: "vlq_lib \<Rightarrow> blockTxs \<Rightarrow> bytes" where
  "encBlockTxs V r = bt_btxID r @ packVaruint V (len64 (bt_inputs r)) @ packOutpoints V (bt_inputs r)"

lemma mapR_list_all:
  "mapR f xs = Ok ys \<Longrightarrow> (\<And>x y. x \<in> set xs \<Longrightarrow> f x = Ok y \<Longrightarrow> Q y) \<Longrightarrow> list_all Q ys"
  unfolding list_all_length by (metis mapR_length mapR_nth nth_mem)

lemma packBlockTx_record:
  assumes "packBlockTx D tx = Ok buf" "okBlockTx D tx"
  shows "\<exists>r. blockTxRecord D tx = Ok r \<and> buf = encBlockTxs (vlqOf D) r \<and> okBlockTxs (cp_PackedTxidLen (parserOf D)) r"
proof -
  obtain os b where os: "blockTxOutpoints D tx = Ok os" and b: "cp_PackTxid (parserOf D) (tx_Txid tx) = Ok b"
      "buf = b @ packVaruint (vlqOf D) (len64 os) @ packOutpoints (vlqOf D) os"
    using assms(1) by (auto simp: packBlockTx_def)
  have "list_all (okOutpoint (cp_PackedTxidLen (parserOf D))) os"
    using os assms(2) unfolding blockTxOutpoints_def
    by (rule_tac mapR_list_all) (auto simp: okOutpoint_def okBlockTx_def list_all_iff catchR_def
        split: sum.splits go_error.splits if_splits)
  moreover have "length os = length (tx_Vin tx)"
    using os mapR_length by (fastforce simp: blockTxOutpoints_def)
  ultimately show ?thesis
    using os b assms(2) by (auto simp: blockTxRecord_def encBlockTxs_def okBlockTxs_def okBlockTx_def)
qed

lemma mapR_packBlockTx:
  "mapR (packBlockTx D) txs = Ok bufs \<Longrightarrow> list_all (okBlockTx D) txs \<Longrightarrow>
   \<exists>rs. mapR (blockTxRecord D) txs = Ok rs \<and> bufs = map (encBlockTxs (vlqOf D)) rs
     \<and> list_all (okBlockTxs (cp_PackedTxidLen (parserOf D))) rs"
proof (induction txs arbitrary: bufs)
  case (Cons tx txs)
  then obtain buf bufs' where "packBlockTx D tx = Ok buf" "mapR (packBlockTx D) txs = Ok bufs'" "bufs = buf # bufs'"
    by auto
  moreover from this Cons obtain rs where "mapR (blockTxRecord D) txs = Ok rs" "bufs' = map (encBlockTxs (vlqOf D)) rs"
      "list_all (okBlockTxs (cp_PackedTxidLen (parserOf D))) rs"
    by fastforce
  ultimately show ?case
    using packBlockTx_record [of D tx buf] Cons.prems by fastforce
qed simp

lemma getBlockTxsLoop_enc:
  assumes "vlq_documented V" "0 < pl" "list_all (okBlockTxs pl) rs" "length rs < fuel"
  shows "getBlockTxsLoop V pl fuel (pre @ concat (map (encBlockTxs V) rs)) (length pre) = Ok rs"
  using assms(3,4)
proof (induction rs arbitrary: pre fuel)
  case Nil
  then obtain f where "fuel = Suc f" by (cases fuel) auto
  then show ?case by simp
next
  case (Cons r rs)
  then obtain f where f: "fuel = Suc f" by (cases fuel) auto
  have ok: "length (bt_btxID r) = pl" "list_all (okOutpoint pl) (bt_inputs r)" "lenOk (bt_inputs r)"
    using Cons.prems by (auto simp: okBlockTxs_def)
  define x where "x = packVaruint V (len64 (bt_inputs r)) @ packOutpoints V (bt_inputs r)"
  define q where "q = concat (map (encBlockTxs V) rs)"
  have buf: "concat (map (encBlockTxs V) (r # rs)) = bt_btxID r @ x @ q"
    by (simp add: encBlockTxs_def x_def q_def)
  have x: "unpackNOutpoints V pl (x @ q) = Ok (bt_inputs r, length x)"
    using vlq_documented.unpackNOutpoints_pack [OF assms(1) ok(2,3), of q] by (simp add: x_def)
  have slices: "sliceR (pre @ bt_btxID r @ x @ q) (int (length pre)) (int (length pre + pl)) = Ok (bt_btxID r)"
      "sliceFromR (pre @ bt_btxID r @ x @ q) (int (length pre + pl)) = Ok (x @ q)"
    using sliceR_middle [of "int (length pre)" pre _ "bt_btxID r" "x @ q"]
      sliceFromR_append [of "pre @ bt_btxID r" "x @ q"] ok(1) by simp_all
  have "getBlockTxsLoop V pl f (pre @ bt_btxID r @ x @ q) (length pre + pl + length x) = Ok rs"
    using Cons.IH [of f "pre @ bt_btxID r @ x"] Cons.prems f ok(1) by (simp add: q_def add.assoc)
  then show ?case
    unfolding buf f using x slices ok(1) assms(2) by (simp add: Let_def del: of_nat_add)
qed

text \<open>
  C10: the inputs of a connected block, which a later disconnect needs, read back exactly: the
  id of every transaction in order, each with the outpoints it spends, and a zero id for a
  coinbase input.
\<close>

theorem ConnectBlock_blockTxs:
  assumes vlq: "vlq_documented (vlqOf D)" and kv: "kv_reliable (kvOf D) val"
    and pl: "0 < cp_PackedTxidLen (parserOf D)" and txs: "list_all (okBlockTx D) (blk_Txs block)"
    and run: "ConnectBlock D now block d = (d', Ok ())"
  shows "getBlockTxs D (d_db d') (bh_Height block) = mapR (blockTxRecord D) (blk_Txs block)"
proof -
  have kvs: "kv_store (kvOf D) val" using kv by (simp add: kv_reliable_def)
  obtain bi st wbt m where s: "storeBlockTxs D block = Ok wbt"
      "val (d_db d') = applyBatch (connectBatch D block bi st wbt) m"
    by (rule ConnectBlock_stored [OF kvs run])
  from s(1) obtain bufs where bufs: "mapR (packBlockTx D) (blk_Txs block) = Ok bufs"
      "wbt = [PutCF cfBlockTxs (packUint (bh_Height block)) (concat bufs)]"
    by (auto simp: storeBlockTxs_def)
  from mapR_packBlockTx [OF bufs(1) txs] obtain rs where rs: "mapR (blockTxRecord D) (blk_Txs block) = Ok rs"
      "bufs = map (encBlockTxs (vlqOf D)) rs" "list_all (okBlockTxs (cp_PackedTxidLen (parserOf D))) rs"
    by auto
  have get: "kv_GetCF (kvOf D) (d_db d') cfBlockTxs (packUint (bh_Height block)) = Ok (Some (concat bufs))"
    using kv_reliable.get_ok [OF kv] s(2) connectBatch_columns(2) [OF s(1)] bufs(2)
    by (simp add: applyBatch_Cons)
  have "length rs \<le> length (concat (map (encBlockTxs (vlqOf D)) rs))"
    using rs(3) pl
  proof (induction rs)
    case (Cons r rs)
    then have "encBlockTxs (vlqOf D) r \<noteq> []" by (auto simp: okBlockTxs_def encBlockTxs_def)
    with Cons show ?case by (cases "encBlockTxs (vlqOf D) r") auto
  qed simp
  then have "getBlockTxsLoop (vlqOf D) (cp_PackedTxidLen (parserOf D)) (Suc (length (concat bufs))) (concat bufs) 0 = Ok rs"
    using getBlockTxsLoop_enc [OF vlq pl rs(3), of "Suc (length (concat bufs))" "[]"] by (simp add: rs(2) less_Suc_eq_le)
  with get rs(1) show ?thesis by (simp add: getBlockTxs_def dataOf_def del: getBlockTxsLoop.simps)
qed

section \<open>A block connected\<close>

definition sampleVout :: "string \<Rightarrow> int \<Rightarrow> Vout" where
  "sampleVout script v = \<lparr>vout_ValueSat = v, vout_JsonValue = [], vout_N = 0, vout_ScriptPubKeyHex = script, vout_Addresses = []\<rparr>"

definition sampleVin :: "string \<Rightarrow> u32 \<Rightarrow> Vin" where
  "sampleVin t n = \<lparr>vin_Coinbase = [], vin_Txid = t, vin_Vout = n, vin_ScriptSigHex = [], vin_Sequence = 0, vin_Addresses = []\<rparr>"

definition blockTx :: "string \<Rightarrow> Vin list \<Rightarrow> Vout list \<Rightarrow> Tx" where
  "blockTx t vin vout = \<lparr>tx_Hex = [], tx_Txid = t, tx_Version = 1, tx_LockTime = 0, tx_Vin = vin, tx_Vout = vout,
     tx_Confirmations = 0, tx_Time = 0, tx_Blocktime = 0, tx_VShieldIn = [], tx_VShieldOut = [], tx_ShieldValBal = 0,
     tx_CoinSpecificData = None\<rparr>"

definition sampleBlock :: Block where
  "sampleBlock = \<lparr>bh_Hash = ''ab'', bh_Prev = [], bh_Next = [], bh_Height = 3, bh_Confirmations = 1, bh_Size = 200,
     bh_Time = 1000, blk_Txs = [blockTx ''01'' [sampleVin [] 0] [sampleVout ''0708'' 50],
       blockTx ''02'' [sampleVin ''01'' 0] [sampleVout ''09'' 20, sampleVout ''0708'' 30]]\<rparr>"

definition sampleState :: InternalState where
  "sampleState = \<lparr>is_Coin = ''OLC'', is_CoinShortcut = [], is_CoinLabel = [], is_Host = [], is_DbState = 1, is_LastStore = 0,
     is_SyncMode = True, is_InitialSync = False, is_IsSynchronized = False, is_BestHeight = 2, is_LastSync = 0,
     is_IsMempoolSynchronized = False, is_MempoolSize = 0, is_LastMempoolSync = 0, is_DbColumns = []\<rparr>"

definition sampleRocks :: "alist_db RocksDB" where
  "sampleRocks = \<lparr>d_db = [], d_is = Some sampleState, d_cbs = zeroStats\<rparr>"

definition connectedRocks :: "alist_db RocksDB" where
  "connectedRocks = fst (ConnectBlock sampleDeps 7 sampleBlock sampleRocks)"

lemma sample_run: "ConnectBlock sampleDeps 7 sampleBlock sampleRocks = (connectedRocks, Ok ())"
  unfolding connectedRocks_def
proof (rule ConnectBlock_succeeds)
  show "isOk (writeHeightFromBlock sampleDeps 7 sampleBlock opInsert (d_is sampleRocks))" by code_simp
  show "isOk (processAddressesBitcoinType sampleDeps (d_db sampleRocks) sampleBlock (emptyPs (d_cbs sampleRocks)))"
    by code_simp
  show "isOk (storeBlockTxs sampleDeps sampleBlock)" by code_simp
  show "snd (cleanupBlockTxs sampleDeps (bh_Height sampleBlock) (d_db sampleRocks)) = Ok ()" by code_simp
  show "isOk (kv_Write (kvOf sampleDeps) wb db)" for wb db
    by (simp add: sampleDeps_def alistStore_def isOk_def)
qed

lemma sample_deps:
  "vlq_documented (vlqOf sampleDeps)" "kv_reliable (kvOf sampleDeps) alistVal" "parserOf sampleDeps = sampleParser"
  using vlq128.vlq_documented_axioms alist_reliable.kv_reliable_axioms by (simp_all add: sampleDeps_def)

lemma sample_ids: "id_packing (parserOf sampleDeps) (\<lambda>t. lowerHex t \<and> length t = 2)"
  unfolding sample_deps(3)
proof unfold_locales
  fix t :: string
  assume t: "lowerHex t \<and> length t = 2"
  then obtain b where b: "hexDecodeString t = Ok b" "length t = 2 * length b" "hexEncodeToString b = t"
    using hexDecode_lowerHex by blast
  with t have "t \<noteq> []" "length b = 1" by auto
  then show "\<exists>b. cp_PackTxid sampleParser t = Ok b \<and> length b = cp_PackedTxidLen sampleParser
      \<and> cp_UnpackTxid sampleParser b = Ok t"
    "\<exists>b. cp_PackBlockHash sampleParser t = Ok b \<and> length b = cp_PackedTxidLen sampleParser
      \<and> cp_UnpackBlockHash sampleParser b = Ok t"
    using b by (auto simp: sampleParser_def PackTxid_def PackBlockHash_def UnpackTxid_def UnpackBlockHash_def)
qed

text \<open>Applied at a block of two transactions.\<close>

theorem ConnectBlock_header_witness:
  "GetBlockHash sampleDeps (d_db connectedRocks) 3 = Ok ''ab''
    \<and> GetBlockInfo sampleDeps (d_db connectedRocks) 3
        = Ok (Some \<lparr>bi_Hash = ''ab'', bi_Time = 1000, bi_Txs = 2, bi_Size = 200, bi_Height = 3\<rparr>)
    \<and> map_option is_BestHeight (d_is connectedRocks) = Some 3"
proof -
  have "lowerHex (bh_Hash sampleBlock) \<and> length (bh_Hash sampleBlock) = 2" by code_simp
  from ConnectBlock_header [OF sample_deps(1,2) sample_ids this sample_run] show ?thesis
    by (simp add: sampleBlock_def blockInfoOf_def)
qed

text \<open>C10 at the same block: the coinbase input has a zero id.\<close>

theorem ConnectBlock_blockTxs_witness:
  "getBlockTxs sampleDeps (d_db connectedRocks) 3
     = Ok [\<lparr>bt_btxID = [1], bt_inputs = [\<lparr>o_btxID = [0], o_index = 0\<rparr>]\<rparr>,
           \<lparr>bt_btxID = [2], bt_inputs = [\<lparr>o_btxID = [1], o_index = 0\<rparr>]\<rparr>]"
proof -
  have pl: "0 < cp_PackedTxidLen (parserOf sampleDeps)" by code_simp
  have ok: "list_all (okBlockTx sampleDeps) (blk_Txs sampleBlock)" by code_simp
  have "mapR (blockTxRecord sampleDeps) (blk_Txs sampleBlock)
      = Ok [\<lparr>bt_btxID = [1], bt_inputs = [\<lparr>o_btxID = [0], o_index = 0\<rparr>]\<rparr>,
           \<lparr>bt_btxID = [2], bt_inputs = [\<lparr>o_btxID = [1], o_index = 0\<rparr>]\<rparr>]"
    by code_simp
  with ConnectBlock_blockTxs [OF sample_deps(1,2) pl ok sample_run] show ?thesis
    by (simp add: sampleBlock_def)
qed

end
