(* ===== verification/StoredOutputs.thy ===== *)
theory StoredOutputs
  imports StoredBlocks
begin

text \<open>
  The transactions of a connected block in the store: every one is there under its id with the
  height of the block, its outputs with their descriptors and values, and as many inputs as it
  has. The two loops of \<open>processAddressesBitcoinType\<close> are followed on the heap of
  \<open>TxAddresses\<close> objects.
\<close>

section \<open>What a transaction's object looks like\<close>

definition outDesc :: "'db deps \<Rightarrow> Vout \<Rightarrow> AddressDescriptor" where
  "outDesc D o' =
     (case cp_GetAddrDescFromVout (parserOf D) o' of
        Inr a \<Rightarrow> if length a > maxAddrDescLen then [] else a
      | Inl _ \<Rightarrow> [])"

definition newOutput :: "'db deps \<Rightarrow> Vout \<Rightarrow> TxOutput" where
  "newOutput D o' = \<lparr>to_AddrDesc = outDesc D o', to_Spent = False, to_ValueSat = vout_ValueSat o'\<rparr>"

definition newTa :: "'db deps \<Rightarrow> u32 \<Rightarrow> Tx \<Rightarrow> TxAddresses" where
  "newTa D h tx = emptyTxAddresses\<lparr>ta_Height := h, ta_Outputs := map (newOutput D) (tx_Vout tx)\<rparr>"

text \<open>What later steps of the block leave alone in an object: all but the spent flags and inputs.\<close>

definition core :: "TxAddresses \<Rightarrow> u32 \<times> (AddressDescriptor \<times> int) list" where
  "core ta = (ta_Height ta, map (\<lambda>o'. (to_AddrDesc o', to_ValueSat o')) (ta_Outputs ta))"

definition shape :: "TxAddresses \<Rightarrow> nat \<times> u32 \<times> u32 \<times> int" where
  "shape ta = (length (ta_Inputs ta), ta_ShieldIns ta, ta_ShieldOuts ta, ta_ShieldValBal ta)"

section \<open>The first loop\<close>

lemma loadBalance_heap:
  "loadBalance D db a st = Ok (b, st') \<Longrightarrow> ps_heap st' = ps_heap st \<and> ps_txAddressesMap st' = ps_txAddressesMap st"
  by (simp add: loadBalance_frame(2,3))

lemma creditOutput_frame:
  "creditOutput D db h t i v a st = Ok st' \<Longrightarrow> ps_heap st' = ps_heap st \<and> ps_txAddressesMap st' = ps_txAddressesMap st"
  by (auto simp: creditOutput_def Let_def dest!: loadBalance_heap split: if_splits prod.splits)

lemma debitInput_frame:
  "debitInput D db t i b vout v a st = Ok st' \<Longrightarrow> ps_heap st' = ps_heap st \<and> ps_txAddressesMap st' = ps_txAddressesMap st"
  by (auto simp: debitInput_def Let_def dest!: loadBalance_heap split: if_splits prod.splits)

lemma foldR_frame:
  assumes "foldR f xs st = Ok st'"
    and "\<And>x s s'. f x s = Ok s' \<Longrightarrow> ps_heap s' = ps_heap s \<and> ps_txAddressesMap s' = ps_txAddressesMap s"
  shows "ps_heap st' = ps_heap st \<and> ps_txAddressesMap st' = ps_txAddressesMap st"
  using foldR_invariant [OF assms(1), where I = "\<lambda>s. ps_heap s = ps_heap st \<and> ps_txAddressesMap s = ps_txAddressesMap st"]
    assms(2) by metis

lemma processOutput_heap:
  assumes "processOutput D db h t p (i, o') st = Ok st'" "p < length (ps_heap st)"
    and "i < length (ta_Outputs (ps_heap st ! p))" "ta_Outputs (ps_heap st ! p) ! i = emptyTxOutput"
  shows "ps_heap st' = (ps_heap st)[p := (ps_heap st ! p)\<lparr>ta_Outputs := (ta_Outputs (ps_heap st ! p))[i := newOutput D o']\<rparr>]
    \<and> ps_txAddressesMap st' = ps_txAddressesMap st"
proof -
  define s1 where "s1 = updateTa p (\<lambda>ta. ta\<lparr>ta_Outputs := (ta_Outputs ta)[i := (ta_Outputs ta ! i)\<lparr>to_ValueSat := vout_ValueSat o'\<rparr>]\<rparr>) st"
  define s2 where "s2 a = updateTa p (\<lambda>ta. ta\<lparr>ta_Outputs := (ta_Outputs ta)[i := (ta_Outputs ta ! i)\<lparr>to_AddrDesc := a\<rparr>]\<rparr>) s1" for a
  have new: "newOutput D o' = emptyTxOutput\<lparr>to_ValueSat := vout_ValueSat o', to_AddrDesc := outDesc D o'\<rparr>"
    by (simp add: newOutput_def emptyTxOutput_def)
  have s1: "ps_heap s1 = (ps_heap st)[p := (ps_heap st ! p)\<lparr>ta_Outputs := (ta_Outputs (ps_heap st ! p))[i := emptyTxOutput\<lparr>to_ValueSat := vout_ValueSat o'\<rparr>]\<rparr>]"
      "ps_txAddressesMap s1 = ps_txAddressesMap st"
    using assms by (simp_all add: s1_def updateTa_def)
  have s2: "ps_heap (s2 a) = (ps_heap st)[p := (ps_heap st ! p)\<lparr>ta_Outputs := (ta_Outputs (ps_heap st ! p))[i := emptyTxOutput\<lparr>to_ValueSat := vout_ValueSat o', to_AddrDesc := a\<rparr>]\<rparr>]"
      "ps_txAddressesMap (s2 a) = ps_txAddressesMap st" for a
    using assms s1 by (simp_all add: s2_def updateTa_def)
  from assms(1) have run: "catchR (cp_GetAddrDescFromVout (parserOf D) o') (\<lambda>_. Ok s1) (\<lambda>a.
      if length a = 0 \<or> length a > maxAddrDescLen then Ok s1
      else bindR (vAddrDescriptors D a) (\<lambda>ads. foldR (creditOutput D db h t i (vout_ValueSat o')) ads (s2 a))) = Ok st'"
    unfolding processOutput_def Let_def split_conv s2_def s1_def .
  from this show ?thesis
  proof (cases rule: catchR_OkE)
    case (ok a)
    show ?thesis
    proof (cases "length a = 0 \<or> length a > maxAddrDescLen")
      case True
      then have "outDesc D o' = []" using ok(1) by (auto simp: outDesc_def)
      then show ?thesis using True ok s1 new by (simp add: emptyTxOutput_def)
    next
      case False
      then have "outDesc D o' = a" using ok(1) by (simp add: outDesc_def)
      moreover obtain ads where "foldR (creditOutput D db h t i (vout_ValueSat o')) ads (s2 a) = Ok st'"
        using False ok(2) by auto
      then have "ps_heap st' = ps_heap (s2 a) \<and> ps_txAddressesMap st' = ps_txAddressesMap (s2 a)"
        by (rule foldR_frame) (rule creditOutput_frame)
      ultimately show ?thesis using s2 new by simp
    qed
  next
    case (err e)
    then have "outDesc D o' = []" by (simp add: outDesc_def)
    then show ?thesis using err s1 new by (simp add: emptyTxOutput_def)
  qed
qed

lemma processOutputs_heap:
  assumes "foldR (processOutput D db h t p) (indexed vs) st = Ok st'" "p < length (ps_heap st)"
    and "ta_Outputs (ps_heap st ! p) = replicate n emptyTxOutput" "length vs \<le> n"
  shows "ps_heap st' = (ps_heap st)[p := (ps_heap st ! p)\<lparr>ta_Outputs := map (newOutput D) vs @ replicate (n - length vs) emptyTxOutput\<rparr>]
    \<and> ps_txAddressesMap st' = ps_txAddressesMap st"
  using assms(1,4)
proof (induction vs arbitrary: st' rule: rev_induct)
  case Nil
  have "(ps_heap st ! p)\<lparr>ta_Outputs := replicate n emptyTxOutput\<rparr> = ps_heap st ! p"
    unfolding assms(3) [symmetric] by simp
  with Nil show ?case using assms(2) by simp
next
  case (snoc v vs)
  then obtain s1 where s1: "foldR (processOutput D db h t p) (indexed vs) st = Ok s1"
      "processOutput D db h t p (length vs, v) s1 = Ok st'"
    by (auto simp: indexed_append foldR_append)
  have IH: "ps_heap s1 = (ps_heap st)[p := (ps_heap st ! p)\<lparr>ta_Outputs := map (newOutput D) vs @ replicate (n - length vs) emptyTxOutput\<rparr>]"
      "ps_txAddressesMap s1 = ps_txAddressesMap st"
    using snoc.IH [OF s1(1)] snoc.prems by auto
  obtain k where k: "n - length vs = Suc k" "n - Suc (length vs) = k" using snoc.prems by (cases "n - length vs") auto
  have "ps_heap st' = (ps_heap s1)[p := (ps_heap s1 ! p)\<lparr>ta_Outputs := (ta_Outputs (ps_heap s1 ! p))[length vs := newOutput D v]\<rparr>]
      \<and> ps_txAddressesMap st' = ps_txAddressesMap s1"
    using assms(2) IH(1) k by (intro processOutput_heap [OF s1(2)]) (simp_all add: nth_append)
  then show ?case using IH assms(2) k by (simp add: list_update_append)
qed

lemma processTxOutputs_heap:
  assumes "processTxOutputs D db h tx (bts, st) = Ok (bts', st')"
  shows "\<exists>b. cp_PackTxid (parserOf D) (tx_Txid tx) = Ok b \<and> bts' = bts @ [(b, length (ps_heap st))]
    \<and> ps_heap st' = ps_heap st @ [newTa D h tx]
    \<and> ps_txAddressesMap st' = mapPut b (length (ps_heap st)) (ps_txAddressesMap st)"
proof -
  define ta where "ta = emptyTxAddresses\<lparr>ta_Height := h, ta_Outputs := replicate (length (tx_Vout tx)) emptyTxOutput\<rparr>"
  from assms obtain b where b: "cp_PackTxid (parserOf D) (tx_Txid tx) = Ok b" "bts' = bts @ [(b, length (ps_heap st))]"
    "foldR (processOutput D db h b (length (ps_heap st))) (indexed (tx_Vout tx))
      (st\<lparr>ps_heap := ps_heap st @ [ta], ps_txAddressesMap := mapPut b (length (ps_heap st)) (ps_txAddressesMap st)\<rparr>) = Ok st'"
    by (auto simp: processTxOutputs_def Let_def ta_def)
  from processOutputs_heap [OF b(3), of "length (tx_Vout tx)"] b show ?thesis
    by (auto simp: ta_def newTa_def)
qed

lemma firstLoop:
  assumes "foldR (processTxOutputs D db h) txs (bts, st) = Ok (bts', st')"
  shows "\<exists>bs. mapR (\<lambda>tx. cp_PackTxid (parserOf D) (tx_Txid tx)) txs = Ok bs
    \<and> bts' = bts @ zip bs [length (ps_heap st)..<length (ps_heap st) + length txs]
    \<and> ps_heap st' = ps_heap st @ map (newTa D h) txs
    \<and> ps_txAddressesMap st' = fold (\<lambda>(b, p). mapPut b p) (zip bs [length (ps_heap st)..<length (ps_heap st) + length txs]) (ps_txAddressesMap st)"
  using assms
proof (induction txs arbitrary: bts st)
  case (Cons tx txs)
  then obtain bts1 s1 where s1: "processTxOutputs D db h tx (bts, st) = Ok (bts1, s1)"
      "foldR (processTxOutputs D db h) txs (bts1, s1) = Ok (bts', st')"
    by auto
  from processTxOutputs_heap [OF s1(1)] obtain b where b: "cp_PackTxid (parserOf D) (tx_Txid tx) = Ok b"
      "bts1 = bts @ [(b, length (ps_heap st))]" "ps_heap s1 = ps_heap st @ [newTa D h tx]"
      "ps_txAddressesMap s1 = mapPut b (length (ps_heap st)) (ps_txAddressesMap st)"
    by auto
  from Cons.IH [OF s1(2)] obtain bs where bs: "mapR (\<lambda>tx. cp_PackTxid (parserOf D) (tx_Txid tx)) txs = Ok bs"
      "bts' = bts1 @ zip bs [length (ps_heap s1)..<length (ps_heap s1) + length txs]"
      "ps_heap st' = ps_heap s1 @ map (newTa D h) txs"
      "ps_txAddressesMap st' = fold (\<lambda>(b, p). mapPut b p) (zip bs [length (ps_heap s1)..<length (ps_heap s1) + length txs]) (ps_txAddressesMap s1)"
    by auto
  have "[length (ps_heap st)..<length (ps_heap st) + length (tx # txs)]
      = length (ps_heap st) # [length (ps_heap s1)..<length (ps_heap s1) + length txs]"
    by (simp add: b(3) upt_rec)
  then show ?case
    using b bs by (intro exI [of _ "b # bs"]) simp
qed simp

section \<open>The second loop\<close>

lemma nth_update_at: "q < length xs \<Longrightarrow> xs[p := x] ! q = (if p = q then x else xs ! q)"
  by (auto simp: nth_list_update)

text \<open>Later steps only add objects and entries, and leave the core of an object alone.\<close>

definition wfPs :: "ps \<Rightarrow> bool" where
  "wfPs st \<longleftrightarrow> wfMap (ps_txAddressesMap st)
     \<and> (\<forall>k q. mapGet (ps_txAddressesMap st) k = Some q \<longrightarrow> q < length (ps_heap st))"

definition extends :: "ps \<Rightarrow> ps \<Rightarrow> bool" where
  "extends st st' \<longleftrightarrow> length (ps_heap st) \<le> length (ps_heap st')
     \<and> (\<forall>q < length (ps_heap st). core (ps_heap st' ! q) = core (ps_heap st ! q))
     \<and> mapGet (ps_txAddressesMap st) \<subseteq>\<^sub>m mapGet (ps_txAddressesMap st')"

definition sameShape :: "nat \<Rightarrow> ps \<Rightarrow> ps \<Rightarrow> bool" where
  "sameShape q st st' \<longleftrightarrow> shape (ps_heap st' ! q) = shape (ps_heap st ! q)"

text \<open>One step: the state stays well formed, and so do the objects it had.\<close>

definition keeps :: "ps \<Rightarrow> ps \<Rightarrow> bool" where
  "keeps st st' \<longleftrightarrow> extends st st' \<and> wfPs st' \<and> (\<forall>q < length (ps_heap st). sameShape q st st')"

lemma extends_refl [simp]: "extends st st"
  by (simp add: extends_def)

lemma extends_trans: "extends a b \<Longrightarrow> extends b c \<Longrightarrow> extends a c"
  by (auto simp: extends_def intro: map_le_trans)

lemma keeps_refl: "wfPs st \<Longrightarrow> keeps st st"
  by (simp add: keeps_def sameShape_def)

lemma keeps_trans: "keeps a b \<Longrightarrow> keeps b c \<Longrightarrow> keeps a c"
  unfolding keeps_def by (auto simp: sameShape_def extends_def intro: map_le_trans)

lemma keeps_wf: "keeps st st' \<Longrightarrow> wfPs st'"
  by (simp add: keeps_def)

lemma foldR_keeps:
  assumes "foldR f xs st = Ok st'" "wfPs st"
    and "\<And>x s s'. x \<in> set xs \<Longrightarrow> wfPs s \<Longrightarrow> f x s = Ok s' \<Longrightarrow> keeps s s'"
  shows "keeps st st'"
  using assms(1)
proof (rule foldR_invariant)
  show "keeps st st" using assms(2) by (rule keeps_refl)
  show "keeps st t" if "x \<in> set xs" "keeps st s" "f x s = Ok t" for x s t
    using that assms(3) keeps_wf keeps_trans by blast
qed

lemma frame_keeps:
  "ps_heap st' = ps_heap st \<and> ps_txAddressesMap st' = ps_txAddressesMap st \<Longrightarrow> wfPs st \<Longrightarrow> keeps st st'"
  by (auto simp: keeps_def extends_def wfPs_def sameShape_def)

lemma updateTa_keeps:
  assumes "wfPs st" "p < length (ps_heap st) \<Longrightarrow> core (f (ps_heap st ! p)) = core (ps_heap st ! p)
      \<and> shape (f (ps_heap st ! p)) = shape (ps_heap st ! p)"
  shows "keeps st (updateTa p f st)"
  using assms by (auto simp: keeps_def extends_def updateTa_def wfPs_def sameShape_def nth_update_at)

lemma loadTxAddresses_keeps:
  assumes "loadTxAddresses D db b st = Ok (r, st')" "wfPs st"
  shows "keeps st st'"
  using assms
  by (auto simp: loadTxAddresses_def keeps_def extends_def wfPs_def sameShape_def nth_append map_le_def less_Suc_eq
      split: option.splits if_splits)

lemma setInput_keeps: "wfPs st \<Longrightarrow> keeps st (setInput p i a v st)"
  unfolding setInput_def by (rule updateTa_keeps) (simp_all add: core_def shape_def)

lemma setInput_outputs: "ta_Outputs (ps_heap (setInput p i a v st) ! q) = ta_Outputs (ps_heap st ! q)"
  by (cases "p < length (ps_heap st)"; cases "p = q") (simp_all add: setInput_def updateTa_def list_update_beyond)

lemma markSpent_keeps:
  assumes "wfPs st" "ta_Outputs (ps_heap st ! q) ! v = o'"
  shows "keeps st (updateTa q (\<lambda>ta. ta\<lparr>ta_Outputs := (ta_Outputs ta)[v := o'\<lparr>to_Spent := True\<rparr>]\<rparr>) st)"
  using assms(1)
proof (rule updateTa_keeps)
  have "map g ((ta_Outputs ta)[v := o'\<lparr>to_Spent := True\<rparr>]) = map g (ta_Outputs ta)"
    if "g (o'\<lparr>to_Spent := True\<rparr>) = g o'" "ta_Outputs ta ! v = o'" for g :: "TxOutput \<Rightarrow> AddressDescriptor \<times> int" and ta
    using that by (metis list_update_id map_update)
  from this [of "\<lambda>o'. (to_AddrDesc o', to_ValueSat o')" "ps_heap st ! q"]
  show "core ((ps_heap st ! q)\<lparr>ta_Outputs := (ta_Outputs (ps_heap st ! q))[v := o'\<lparr>to_Spent := True\<rparr>]\<rparr>) = core (ps_heap st ! q)
    \<and> shape ((ps_heap st ! q)\<lparr>ta_Outputs := (ta_Outputs (ps_heap st ! q))[v := o'\<lparr>to_Spent := True\<rparr>]\<rparr>) = shape (ps_heap st ! q)"
    using assms(2) by (simp add: core_def shape_def)
qed

lemma processInput_keeps:
  assumes "processInput D db tx t p (i, input) st = Ok st'" "wfPs st"
  shows "keeps st st'"
  using assms(1) [unfolded processInput_def split_conv]
proof (cases rule: catchR_OkE)
  case (ok b)
  then obtain r s1 where s1: "loadTxAddresses D db b st = Ok (r, s1)" by auto
  note load = loadTxAddresses_keeps [OF s1 assms(2)]
  show ?thesis
  proof (cases r)
    case None
    then have "st' = setInput p i (cp_GetAddrDescForUnknownInput (parserOf D) tx i) (cp_GetValueSatForUnknownInput (parserOf D) tx i) s1"
      using ok s1 by simp
    then show ?thesis using load setInput_keeps keeps_wf keeps_trans by metis
  next
    case (Some q)
    define so where "so = ta_Outputs (ps_heap s1 ! q) ! unat (vin_Vout input)"
    define s2 where "s2 = setInput p i (to_AddrDesc so) (to_ValueSat so) s1"
    define s3 where "s3 = updateTa q (\<lambda>ta. ta\<lparr>ta_Outputs := (ta_Outputs ta)[unat (vin_Vout input) := so\<lparr>to_Spent := True\<rparr>]\<rparr>) s2"
    have s2: "keeps st s2"
      using load setInput_keeps keeps_wf keeps_trans unfolding s2_def by metis
    moreover have "keeps s2 s3"
      unfolding s3_def by (rule markSpent_keeps [OF keeps_wf [OF s2]]) (simp add: s2_def setInput_outputs so_def)
    ultimately have s3: "keeps st s3" by (rule keeps_trans)
    have "(if length (ta_Outputs (ps_heap s1 ! q)) \<le> unat (vin_Vout input) then Ok s1
        else if length (to_AddrDesc so) = 0 then Ok s3
        else bindR (vAddrDescriptors D (to_AddrDesc so)) (\<lambda>ads.
             foldR (debitInput D db t i b (vin_Vout input) (to_ValueSat so)) ads s3)) = Ok st'"
      using ok(2) unfolding s1 bindR_Ok split_conv Some option.case Let_def s3_def s2_def so_def .
    then consider "st' = s1" | "st' = s3"
      | "bindR (vAddrDescriptors D (to_AddrDesc so)) (\<lambda>ads.
             foldR (debitInput D db t i b (vin_Vout input) (to_ValueSat so)) ads s3) = Ok st'"
      by (metis Inr_inject)
    then show ?thesis
    proof cases
      case 3
      then obtain ads where "foldR (debitInput D db t i b (vin_Vout input) (to_ValueSat so)) ads s3 = Ok st'"
        by (rule bindR_OkE)
      then have "ps_heap st' = ps_heap s3 \<and> ps_txAddressesMap st' = ps_txAddressesMap s3"
        by (rule foldR_frame) (rule debitInput_frame)
      then have "keeps s3 st'"
        by (rule frame_keeps) (rule keeps_wf [OF s3])
      with s3 show ?thesis by (rule keeps_trans)
    qed (use load s3 in simp_all)
  qed
next
  case (err e)
  then show ?thesis using assms(2) keeps_refl by (auto split: if_splits)
qed

definition finalShape :: "Tx \<Rightarrow> nat \<times> u32 \<times> u32 \<times> int" where
  "finalShape tx = (length (tx_Vin tx), of_nat (length (tx_VShieldIn tx)), of_nat (length (tx_VShieldIn tx)), tx_ShieldValBal tx)"

lemma processTxInputs_step:
  assumes "processTxInputs D db (tx, t, p) st = Ok st'" "wfPs st" "p < length (ps_heap st)"
  shows "extends st st' \<and> wfPs st' \<and> shape (ps_heap st' ! p) = finalShape tx
    \<and> (\<forall>q < length (ps_heap st). q \<noteq> p \<longrightarrow> sameShape q st st')"
proof -
  define s1 where "s1 = updateTa p (\<lambda>ta. ta\<lparr>ta_Inputs := replicate (length (tx_Vin tx)) emptyTxInput\<rparr>) st"
  obtain s2 where s2: "foldR (processInput D db tx t p) (indexed (tx_Vin tx)) s1 = Ok s2"
      "st' = updateTa p (\<lambda>ta. ta\<lparr>ta_ShieldIns := of_nat (length (tx_VShieldIn tx)),
          ta_ShieldOuts := of_nat (length (tx_VShieldIn tx)), ta_ShieldValBal := tx_ShieldValBal tx\<rparr>) s2"
    using assms(1) by (auto simp: processTxInputs_def Let_def s1_def)
  have e1: "extends st s1" "wfPs s1" "length (ps_heap s1) = length (ps_heap st)"
      "length (ta_Inputs (ps_heap s1 ! p)) = length (tx_Vin tx)" "\<forall>q < length (ps_heap st). q \<noteq> p \<longrightarrow> sameShape q st s1"
    using assms(2,3) by (auto simp: s1_def updateTa_def extends_def wfPs_def core_def sameShape_def nth_update_at)
  have e2: "keeps s1 s2"
  proof (rule foldR_keeps [OF s2(1) e1(2)])
    fix x s s'
    assume wf: "wfPs s" and run: "processInput D db tx t p x s = Ok s'"
    obtain i input where x: "x = (i, input)" by (cases x)
    show "keeps s s'" by (rule processInput_keeps [OF run [unfolded x] wf])
  qed
  then have l2: "length (ps_heap s1) \<le> length (ps_heap s2)" by (simp add: keeps_def extends_def)
  have e3: "extends s2 st'" "wfPs st'" "\<forall>q < length (ps_heap s2). q \<noteq> p \<longrightarrow> sameShape q s2 st'"
    using keeps_wf [OF e2]
    by (auto simp: s2(2) updateTa_def extends_def wfPs_def core_def sameShape_def nth_update_at)
  have "shape (ps_heap s2 ! p) = shape (ps_heap s1 ! p)"
    using e2 assms(3) e1(3) by (simp add: keeps_def sameShape_def)
  then have "shape (ps_heap st' ! p) = finalShape tx"
    using e1(3,4) l2 assms(3) by (simp add: s2(2) updateTa_def shape_def finalShape_def)
  moreover have "extends st st'"
    using e2 by (intro extends_trans [OF e1(1) extends_trans [OF _ e3(1)]]) (simp add: keeps_def)
  moreover have "sameShape q st st'" if "q < length (ps_heap st)" "q \<noteq> p" for q
    using that e1(3,5) e2 e3(3) l2 by (simp add: keeps_def sameShape_def)
  ultimately show ?thesis using e3(2) by blast
qed

lemma secondLoop:
  assumes "foldR (processTxInputs D db) xs st = Ok st'" "wfPs st"
    and "distinct (map (snd \<circ> snd) xs)" "\<forall>(tx, t, p) \<in> set xs. p < length (ps_heap st)"
  shows "extends st st' \<and> wfPs st' \<and> (\<forall>(tx, t, p) \<in> set xs. shape (ps_heap st' ! p) = finalShape tx)
    \<and> (\<forall>q < length (ps_heap st). q \<notin> set (map (snd \<circ> snd) xs) \<longrightarrow> sameShape q st st')"
  using assms
proof (induction xs arbitrary: st)
  case Nil
  then show ?case by (simp add: sameShape_def)
next
  case (Cons x xs)
  obtain tx t p where x: "x = (tx, t, p)" by (cases x) auto
  obtain s1 where s1: "processTxInputs D db (tx, t, p) st = Ok s1" "foldR (processTxInputs D db) xs s1 = Ok st'"
    using Cons.prems(1) x by auto
  have p: "p < length (ps_heap st)" using Cons.prems(4) x by simp
  note step = processTxInputs_step [OF s1(1) Cons.prems(2) p]
  have len: "length (ps_heap st) \<le> length (ps_heap s1)" using step by (simp add: extends_def)
  then have "\<forall>(tx, t, p) \<in> set xs. p < length (ps_heap s1)" using Cons.prems(4) by force
  then have IH: "extends s1 st' \<and> wfPs st' \<and> (\<forall>(tx, t, p) \<in> set xs. shape (ps_heap st' ! p) = finalShape tx)
      \<and> (\<forall>q < length (ps_heap s1). q \<notin> set (map (snd \<circ> snd) xs) \<longrightarrow> sameShape q s1 st')"
    using Cons.IH [OF s1(2)] step Cons.prems(3) by auto
  have "p \<notin> set (map (snd \<circ> snd) xs)" using Cons.prems(3) x by simp
  then have "shape (ps_heap st' ! p) = finalShape tx"
    using IH step p len by (auto simp: sameShape_def)
  moreover have "sameShape q st st'" if "q < length (ps_heap st)" "q \<notin> set (map (snd \<circ> snd) (x # xs))" for q
    using that IH step len x by (simp add: sameShape_def)
  moreover have "extends st st'" using IH step by (intro extends_trans [of st s1 st']) simp_all
  ultimately show ?case using IH x by auto
qed

section \<open>The transactions of a block in the store\<close>

lemma fold_mapPut_wf: "wfMap m \<Longrightarrow> wfMap (fold (\<lambda>(b, p). mapPut b p) xs m)"
  by (induction xs arbitrary: m) auto

lemma fold_mapPut_get:
  "distinct (map fst xs) \<Longrightarrow> (b, p) \<in> set xs \<Longrightarrow> mapGet (fold (\<lambda>(b, p). mapPut b p) xs m) b = Some p"
proof (induction xs arbitrary: m)
  case (Cons x xs)
  have "mapGet (fold (\<lambda>(b, p). mapPut b p) ys m') k = mapGet m' k" if "k \<notin> fst ` set ys" for ys k m'
    using that by (induction ys arbitrary: m') auto
  with Cons show ?case by (cases x) force
qed simp

lemma fold_mapPut_range:
  "mapGet (fold (\<lambda>(b, p). mapPut b p) xs m) k = Some q \<Longrightarrow> q \<in> snd ` set xs \<or> mapGet m k = Some q"
  by (induction xs arbitrary: m) (force split: if_splits)+

lemma process_block:
  assumes "processAddressesBitcoinType D db block (emptyPs cbs) = Ok st"
    and "mapR (\<lambda>tx. cp_PackTxid (parserOf D) (tx_Txid tx)) (blk_Txs block) = Ok bs" "distinct bs"
    and "j < length (blk_Txs block)"
  shows "mapGet (ps_txAddressesMap st) (bs ! j) = Some j \<and> wfPs st
    \<and> core (ps_heap st ! j) = core (newTa D (bh_Height block) (blk_Txs block ! j))
    \<and> shape (ps_heap st ! j) = finalShape (blk_Txs block ! j)"
proof -
  let ?txs = "blk_Txs block"
  define zs where "zs = zip bs [0..<length ?txs]"
  obtain s1 bts where s1: "foldR (processTxOutputs D db (bh_Height block)) ?txs ([], emptyPs cbs) = Ok (bts, s1)"
      "foldR (processTxInputs D db) (zip ?txs bts) s1 = Ok st"
    using assms(1) by (auto simp: processAddressesBitcoinType_def)
  from firstLoop [OF s1(1)] assms(2) have fl: "bts = zs" "ps_heap s1 = map (newTa D (bh_Height block)) ?txs"
      "ps_txAddressesMap s1 = fold (\<lambda>(b, p). mapPut b p) zs []"
    by (auto simp: zs_def emptyPs_def)
  have len: "length bs = length ?txs" using mapR_length [OF assms(2)] .
  have zs: "(bs ! j, j) \<in> set zs" "distinct (map fst zs)" "map snd zs = [0..<length ?txs]" "length zs = length ?txs"
    using assms(3,4) len by (auto simp: zs_def set_zip)
  have wf: "wfPs s1"
    using fold_mapPut_range [of zs "[]"] len
    by (fastforce simp: wfPs_def fl fold_mapPut_wf zs_def dest: set_zip_rightD)
  have ps: "map (snd \<circ> snd) (zip ?txs bts) = [0..<length ?txs]"
    using zs(3,4) by (simp add: fl(1) flip: map_map)
  have in2: "(?txs ! j, bs ! j, j) \<in> set (zip ?txs bts)"
    using assms(4) len by (auto simp: fl(1) zs_def set_zip)
  have "\<forall>(tx, t, p) \<in> set (zip ?txs bts). p < length (ps_heap s1)"
  proof safe
    fix tx t p
    assume "(tx, t, p) \<in> set (zip ?txs bts)"
    then have "p \<in> set (map (snd \<circ> snd) (zip ?txs bts))" by force
    then show "p < length (ps_heap s1)" by (simp only: ps fl(2)) simp
  qed
  from secondLoop [OF s1(2) wf _ this] ps have sl: "extends s1 st" "wfPs st"
      "\<forall>(tx, t, p) \<in> set (zip ?txs bts). shape (ps_heap st ! p) = finalShape tx"
    by auto
  have "mapGet (ps_txAddressesMap s1) (bs ! j) = Some j"
    unfolding fl(3) using zs by (intro fold_mapPut_get)
  then have "mapGet (ps_txAddressesMap st) (bs ! j) = Some j"
    using sl(1) unfolding extends_def map_le_def by (metis domI)
  moreover have "core (ps_heap st ! j) = core (newTa D (bh_Height block) (?txs ! j))"
    using sl(1) assms(4) by (simp add: extends_def fl(2))
  ultimately show ?thesis using sl in2 by auto
qed



end
