(* ===== verification/Disconnect.thy ===== *)
theory Disconnect
  imports StoredBlocks "HOL-Library.Multiset"
begin

text \<open>
  Taking blocks off the index again (\<open>src/db/rocksdb.go\<close>): \<open>disconnectTxAddresses\<close>,
  \<open>DisconnectBlockRangeBitcoinType\<close> and \<open>storeBalancesDisconnect\<close>. The maps hold one object
  per key, reachable from nowhere else, so they hold the objects themselves; a balance that the
  store does not have is a nil pointer, here \<open>None\<close>.
\<close>

section \<open>One transaction\<close>

record ds =
  ds_txAddresses :: "(bytes, TxAddresses) gomap"
  ds_balances :: "(bytes, AddrBalance option) gomap"
  ds_addresses :: "(bytes, unit) gomap"

text \<open>The closure \<open>getAddressBalance\<close>.\<close>

definition getAddressBalance :: "'db deps \<Rightarrow> 'db \<Rightarrow> AddressDescriptor \<Rightarrow> ds \<Rightarrow> (AddrBalance option \<times> ds) res" where
  "getAddressBalance D db addrDesc st =
     (case mapGet (ds_balances st) addrDesc of
        Some b \<Rightarrow> Ok (b, st)
      | None \<Rightarrow>
          bindR (GetAddrDescBalance D db addrDesc AddressBalanceDetailUTXOIndexed) (\<lambda>b.
          Ok (b, st\<lparr>ds_balances := mapPut addrDesc b (ds_balances st)\<rparr>)))"

text \<open>\<open>_, exist := addresses[s]; if !exist { addresses[s] = struct{}{} }\<close>\<close>

definition noteAddress :: "AddressDescriptor \<Rightarrow> ds \<Rightarrow> bool \<times> ds" where
  "noteAddress s st =
     (case mapGet (ds_addresses st) s of
        Some _ \<Rightarrow> (True, st)
      | None \<Rightarrow> (False, st\<lparr>ds_addresses := mapPut s () (ds_addresses st)\<rparr>))"

definition findTxAddresses :: "'db deps \<Rightarrow> 'db \<Rightarrow> bytes \<Rightarrow> ds \<Rightarrow> (TxAddresses option \<times> ds) res" where
  "findTxAddresses D db btxID st =
     (case mapGet (ds_txAddresses st) btxID of
        Some sa \<Rightarrow> Ok (Some sa, st)
      | None \<Rightarrow>
          bindR (getTxAddresses D db btxID) (\<lambda>sa.
          case sa of None \<Rightarrow> Ok (None, st)
          | Some ta \<Rightarrow> Ok (Some ta, st\<lparr>ds_txAddresses := mapPut btxID ta (ds_txAddresses st)\<rparr>)))"

text \<open>
  \<open>sa.Outputs[input.index].Spent = false; inputHeight = sa.Height\<close>: the height is 0 where the
  spent transaction is not known.
\<close>

definition unspendOutput :: "outpoint \<Rightarrow> TxAddresses option \<Rightarrow> ds \<Rightarrow> (u32 \<times> ds) res" where
  "unspendOutput input sa st =
     (case sa of
        None \<Rightarrow> Ok (0, st)
      | Some sa \<Rightarrow>
          bindR (indexR (ta_Outputs sa) (sint (o_index input))) (\<lambda>out.
          let sa = sa\<lparr>ta_Outputs := (ta_Outputs sa)[nat (sint (o_index input)) := out\<lparr>to_Spent := False\<rparr>]\<rparr>
          in Ok (ta_Height sa, st\<lparr>ds_txAddresses := mapPut (o_btxID input) sa (ds_txAddresses st)\<rparr>)))"

text \<open>What undoing an input does to the balance of its address.\<close>

definition restoreUtxo :: "bool \<Rightarrow> outpoint \<Rightarrow> u32 \<Rightarrow> int \<Rightarrow> AddrBalance \<Rightarrow> AddrBalance" where
  "restoreUtxo exist input inputHeight valueSat balance =
     (let balance = (if exist then balance else balance\<lparr>ab_Txs := ab_Txs balance - 1\<rparr>);
          balance = balance\<lparr>ab_SentSat := ab_SentSat balance - valueSat\<rparr>;
          balance = (if ab_SentSat balance < 0
                     then balance\<lparr>ab_SentSat := resetValueSatToZero (ab_SentSat balance)\<rparr> else balance);
          balance = balance\<lparr>ab_BalanceSat := ab_BalanceSat balance + valueSat\<rparr>
      in balance\<lparr>ab_Utxos := ab_Utxos balance
           @ [\<lparr>u_BtxID = o_btxID input, u_Vout = o_index input, u_Height = inputHeight, u_ValueSat = valueSat\<rparr>]\<rparr>)"

definition undoInput :: "'db deps \<Rightarrow> 'db \<Rightarrow> outpoint list \<Rightarrow> nat \<Rightarrow> int \<Rightarrow> AddressDescriptor \<Rightarrow> ds \<Rightarrow> ds res" where
  "undoInput D db inputs i valueSat ad st =
     (if length ad > 0
      then bindR (indexR inputs (int i)) (\<lambda>input.
           let (exist, st) = noteAddress ad st
           in bindR (findTxAddresses D db (o_btxID input) st) (\<lambda>(sa, st).
              bindR (unspendOutput input sa st) (\<lambda>(inputHeight, st).
              if cp_IsAddrDescIndexable (parserOf D) ad
              then bindR (getAddressBalance D db ad st) (\<lambda>(balance, st).
                   case balance of
                     None \<Rightarrow> Ok st
                   | Some balance \<Rightarrow>
                       Ok (st\<lparr>ds_balances := mapPut ad (Some (restoreUtxo exist input inputHeight valueSat balance)) (ds_balances st)\<rparr>))
              else Ok st)))
      else Ok st)"

text \<open>What undoing an output does to the balance of its address.\<close>

definition removeUtxo :: "bool \<Rightarrow> bytes \<Rightarrow> nat \<Rightarrow> int \<Rightarrow> AddrBalance \<Rightarrow> AddrBalance res" where
  "removeUtxo exist btxID i valueSat balance =
     (let balance = (if exist then balance else balance\<lparr>ab_Txs := ab_Txs balance - 1\<rparr>);
          balance = balance\<lparr>ab_BalanceSat := ab_BalanceSat balance - valueSat\<rparr>;
          balance = (if ab_BalanceSat balance < 0
                     then balance\<lparr>ab_BalanceSat := resetValueSatToZero (ab_BalanceSat balance)\<rparr> else balance)
      in markUtxoAsSpent btxID (of_nat i) balance)"

definition undoOutput :: "'db deps \<Rightarrow> 'db \<Rightarrow> bytes \<Rightarrow> nat \<Rightarrow> int \<Rightarrow> AddressDescriptor \<Rightarrow> ds \<Rightarrow> ds res" where
  "undoOutput D db btxID i valueSat ad st =
     (if length ad > 0
      then let (exist, st) = noteAddress ad st
           in if cp_IsAddrDescIndexable (parserOf D) ad
              then bindR (getAddressBalance D db ad st) (\<lambda>(balance, st).
                   case balance of
                     None \<Rightarrow> Ok st
                   | Some balance \<Rightarrow>
                       bindR (removeUtxo exist btxID i valueSat balance) (\<lambda>balance.
                       Ok (st\<lparr>ds_balances := mapPut ad (Some balance) (ds_balances st)\<rparr>)))
              else Ok st
      else Ok st)"

definition disconnectTxAddresses :: "'db deps \<Rightarrow> 'db \<Rightarrow> u32 \<Rightarrow> bytes \<Rightarrow> outpoint list \<Rightarrow> TxAddresses
    \<Rightarrow> (bytes, TxAddresses) gomap \<times> (bytes, AddrBalance option) gomap
    \<Rightarrow> ((bytes, TxAddresses) gomap \<times> (bytes, AddrBalance option) gomap \<times> write_batch) res" where
  "disconnectTxAddresses D db height btxID inputs txa = (\<lambda>(txAddressesToUpdate, balances).
     let st = \<lparr>ds_txAddresses = txAddressesToUpdate, ds_balances = balances, ds_addresses = []\<rparr>
     in bindR (foldR (\<lambda>(i, t) st.
                  bindR (vAddrDescriptors D (ti_AddrDesc t)) (\<lambda>ads.
                  foldR (undoInput D db inputs i (ti_ValueSat t)) ads st)) (indexed (ta_Inputs txa)) st) (\<lambda>st.
        bindR (foldR (\<lambda>(i, t) st.
                  bindR (vAddrDescriptors D (to_AddrDesc t)) (\<lambda>ads.
                  foldR (undoOutput D db btxID i (to_ValueSat t)) ads st)) (indexed (ta_Outputs txa)) st) (\<lambda>st.
        Ok (ds_txAddresses st, ds_balances st,
            map (\<lambda>(a, _). DeleteCF cfAddresses (packAddressKey a height)) (ds_addresses st)))))"

section \<open>A range of blocks\<close>

text \<open>
  The first loop of \<open>DisconnectBlockRangeBitcoinType\<close> reads the inputs of the blocks from
  \<open>lower\<close> to \<open>higher\<close>; \<open>n\<close> rounds are left. The slice has \<open>higher-lower+1\<close> elements in
  32-bit arithmetic. When \<open>higher\<close> is the largest number \<open>height <= higher\<close> holds of every
  height, and the round past the last element reads its block and then panics.
\<close>

fun readBlocks :: "'db deps \<Rightarrow> 'db \<Rightarrow> nat \<Rightarrow> u32 \<Rightarrow> blockTxs list list res" where
  "readBlocks D db 0 height = Ok []"
| "readBlocks D db (Suc n) height =
     bindR (getBlockTxs D db height) (\<lambda>bt.
     if length bt = 0
     then Err (ErrMsg ''Cannot disconnect blocks. It is necessary to rebuild index.'')
     else bindR (readBlocks D db n (height + 1)) (\<lambda>bts. Ok (bt # bts)))"

record dr =
  dr_wb :: write_batch
  dr_txAddresses :: "(bytes, TxAddresses) gomap"
  dr_balances :: "(bytes, AddrBalance option) gomap"
  dr_txsToDelete :: "(bytes, unit) gomap"

definition disconnectTx :: "'db deps \<Rightarrow> 'db \<Rightarrow> u32 \<Rightarrow> blockTxs \<Rightarrow> dr \<Rightarrow> dr res" where
  "disconnectTx D db height bt st =
     (let st = st\<lparr>dr_txsToDelete := mapPut (bt_btxID bt) () (dr_txsToDelete st)\<rparr>
      in bindR (getTxAddresses D db (bt_btxID bt)) (\<lambda>txa.
         case txa of
           None \<Rightarrow> Ok st
         | Some txa \<Rightarrow>
             bindR (disconnectTxAddresses D db height (bt_btxID bt) (bt_inputs bt) txa
                      (dr_txAddresses st, dr_balances st)) (\<lambda>(tas, bals, wb).
             Ok (st\<lparr>dr_wb := dr_wb st @ wb, dr_txAddresses := tas, dr_balances := bals\<rparr>))))"

definition disconnectBlock :: "'db deps \<Rightarrow> 'db \<Rightarrow> u32 \<times> blockTxs list \<Rightarrow> dr \<Rightarrow> dr res" where
  "disconnectBlock D db = (\<lambda>(height, bts) st.
     bindR (foldR (disconnectTx D db height) (rev bts) st) (\<lambda>st.
     Ok (st\<lparr>dr_wb := dr_wb st @ [DeleteCF cfBlockTxs (packUint height), DeleteCF cfHeight (packUint height)]\<rparr>)))"

text \<open>\<open>sort.SliceStable\<close> by height.\<close>

definition compactBalance :: "AddrBalance \<Rightarrow> AddrBalance" where
  "compactBalance b = b\<lparr>ab_Utxos := sort_key u_Height (filter (\<lambda>u. 0 \<le>s u_Vout u) (ab_Utxos b))\<rparr>"

definition storeBalancesDisconnect :: "'db deps \<Rightarrow> (bytes, AddrBalance option) gomap \<Rightarrow> write_batch" where
  "storeBalancesDisconnect D balances =
     storeBalances D (map (\<lambda>(a, b). (a, map_option compactBalance b)) balances)"

definition deleteTxs :: "(bytes, unit) gomap \<Rightarrow> write_batch" where
  "deleteTxs txs = concat (map (\<lambda>(s, _). [DeleteCF cfTransactions s, DeleteCF cfTxAddresses s]) txs)"

text \<open>
  The second loop runs \<open>height >= lower\<close> downwards from \<open>higher\<close>: with \<open>lower\<close> 0 the height
  wraps to the largest number after the last block, the test still holds, and indexing the
  slice panics. With \<open>lower > higher\<close> the first loop does not run and neither does the second.
\<close>

definition DisconnectBlockRangeBitcoinType :: "'db deps \<Rightarrow> u32 \<Rightarrow> u32 \<Rightarrow> 'db \<Rightarrow> 'db res" where
  "DisconnectBlockRangeBitcoinType D lower higher db =
     (let n = unat (higher - lower + 1)
      in bindR (if lower \<le> higher
                then if higher = - 1
                     then bindR (readBlocks D db (n + 1) lower) (\<lambda>_. Err (Panic ''index out of range''))
                     else readBlocks D db n lower
                else Ok []) (\<lambda>blocks.
         bindR (foldR (disconnectBlock D db)
                  (rev (zip (map (\<lambda>i. lower + of_nat i) [0..<length blocks]) blocks))
                  \<lparr>dr_wb = [], dr_txAddresses = [], dr_balances = [], dr_txsToDelete = []\<rparr>) (\<lambda>st.
         if lower = 0 \<and> lower \<le> higher then Err (Panic ''index out of range'')
         else kv_Write (kvOf D) (dr_wb st @ storeTxAddresses D (dr_txAddresses st)
                @ storeBalancesDisconnect D (dr_balances st) @ deleteTxs (dr_txsToDelete st)) db)))"

section \<open>What a disconnect removes\<close>

fun isDelete :: "wb_op \<Rightarrow> bool" where
  "isDelete (DeleteCF c k) = True"
| "isDelete (PutCF c k v) = False"

lemma applyBatch_deleted:
  "\<forall>op \<in> set wb. opKey op = (c, k) \<longrightarrow> isDelete op \<Longrightarrow> (c, k) \<in> opKey ` set wb \<Longrightarrow> applyBatch wb m c k = None"
proof (induction wb arbitrary: m)
  case (Cons op wb)
  show ?case
  proof (cases "(c, k) \<in> opKey ` set wb")
    case True
    with Cons show ?thesis by (simp add: applyBatch_Cons)
  next
    case False
    with Cons.prems have "opKey op = (c, k)" "isDelete op" by auto
    then have "op = DeleteCF c k" by (cases op) auto
    with False show ?thesis by (simp add: applyBatch_Cons applyBatch_other)
  qed
qed simp

text \<open>The deletions of the address index a block brings, and those of its two height columns.\<close>

definition onlyAddresses :: "write_batch \<Rightarrow> bool" where
  "onlyAddresses wb \<longleftrightarrow> (\<forall>op \<in> set wb. isDelete op \<and> fst (opKey op) = cfAddresses)"

definition heightKeys :: "u32 list \<Rightarrow> (cf \<times> bytes) set" where
  "heightKeys hs = {(c, packUint h) | c h. c \<in> {cfBlockTxs, cfHeight} \<and> h \<in> set hs}"

lemma disconnectTx_step:
  assumes "disconnectTx D db h bt st = Ok st'"
  shows "\<exists>w. dr_wb st' = dr_wb st @ w \<and> onlyAddresses w \<and> dr_txsToDelete st' = mapPut (bt_btxID bt) () (dr_txsToDelete st)"
proof -
  from assms obtain txa where "getTxAddresses D db (bt_btxID bt) = Ok txa"
    by (auto simp: disconnectTx_def Let_def)
  with assms show ?thesis
  proof (cases txa)
    case None
    with assms \<open>getTxAddresses D db (bt_btxID bt) = Ok txa\<close> show ?thesis
      by (auto simp: disconnectTx_def Let_def onlyAddresses_def)
  next
    case (Some ta)
    with assms \<open>getTxAddresses D db (bt_btxID bt) = Ok txa\<close> obtain tas bals w where
        dis: "disconnectTxAddresses D db h (bt_btxID bt) (bt_inputs bt) ta (dr_txAddresses st, dr_balances st) = Ok (tas, bals, w)"
        "st' = st\<lparr>dr_txsToDelete := mapPut (bt_btxID bt) () (dr_txsToDelete st), dr_wb := dr_wb st @ w,
           dr_txAddresses := tas, dr_balances := bals\<rparr>"
      by (auto simp: disconnectTx_def Let_def)
    from dis(1) have "onlyAddresses w"
      unfolding disconnectTxAddresses_def Let_def prod.case
      by (elim bindR_OkE) (auto simp: onlyAddresses_def)
    with dis(2) show ?thesis by auto
  qed
qed

lemma onlyAddresses_append [simp]: "onlyAddresses (a @ b) \<longleftrightarrow> onlyAddresses a \<and> onlyAddresses b"
  by (auto simp: onlyAddresses_def)

lemma disconnectTxs_step:
  "foldR (disconnectTx D db h) bts st = Ok st' \<Longrightarrow>
   \<exists>w. dr_wb st' = dr_wb st @ w \<and> onlyAddresses w
     \<and> fst ` set (dr_txsToDelete st') = fst ` set (dr_txsToDelete st) \<union> bt_btxID ` set bts"
proof (induction bts arbitrary: st)
  case Nil
  then show ?case by (auto simp: onlyAddresses_def)
next
  case (Cons bt bts)
  then obtain s1 where s1: "disconnectTx D db h bt st = Ok s1" "foldR (disconnectTx D db h) bts s1 = Ok st'" by auto
  from disconnectTx_step [OF s1(1)] Cons.IH [OF s1(2)] show ?case
    by (auto simp: dom_update)
qed

lemma disconnectBlocks_step:
  "foldR (disconnectBlock D db) bs st = Ok st' \<Longrightarrow>
   \<exists>w. dr_wb st' = dr_wb st @ w \<and> (\<forall>op \<in> set w. isDelete op)
     \<and> {ck \<in> opKey ` set w. fst ck \<noteq> cfAddresses} = heightKeys (map fst bs)
     \<and> fst ` set (dr_txsToDelete st') = fst ` set (dr_txsToDelete st) \<union> (\<Union>(h, bts) \<in> set bs. bt_btxID ` set bts)"
proof (induction bs arbitrary: st)
  case Nil
  then show ?case by (auto simp: heightKeys_def)
next
  case (Cons b bs)
  obtain h bts where b: "b = (h, bts)" by (cases b)
  from Cons.prems b obtain s0 s1 where s: "foldR (disconnectTx D db h) (rev bts) st = Ok s0"
      "s1 = s0\<lparr>dr_wb := dr_wb s0 @ [DeleteCF cfBlockTxs (packUint h), DeleteCF cfHeight (packUint h)]\<rparr>"
      "foldR (disconnectBlock D db) bs s1 = Ok st'"
    by (auto simp: disconnectBlock_def)
  obtain w0 where w0: "dr_wb s0 = dr_wb st @ w0" "onlyAddresses w0"
      "fst ` set (dr_txsToDelete s0) = fst ` set (dr_txsToDelete st) \<union> bt_btxID ` set bts"
    using disconnectTxs_step [OF s(1)] by auto
  obtain w1 where w1: "dr_wb st' = dr_wb s1 @ w1" "\<forall>op \<in> set w1. isDelete op"
      "{ck \<in> opKey ` set w1. fst ck \<noteq> cfAddresses} = heightKeys (map fst bs)"
      "fst ` set (dr_txsToDelete st') = fst ` set (dr_txsToDelete s1) \<union> (\<Union>(h, bts) \<in> set bs. bt_btxID ` set bts)"
    using Cons.IH [OF s(3)] by auto
  let ?w = "w0 @ [DeleteCF cfBlockTxs (packUint h), DeleteCF cfHeight (packUint h)] @ w1"
  have "{ck \<in> opKey ` set ?w. fst ck \<noteq> cfAddresses}
      = {(cfBlockTxs, packUint h), (cfHeight, packUint h)} \<union> {ck \<in> opKey ` set w1. fst ck \<noteq> cfAddresses}"
    using w0(2) by (auto simp: onlyAddresses_def)
  also have "\<dots> = heightKeys (map fst (b # bs))"
    unfolding w1(3) by (auto simp: heightKeys_def b)
  finally have "{ck \<in> opKey ` set ?w. fst ck \<noteq> cfAddresses} = heightKeys (map fst (b # bs))" .
  moreover have "\<forall>op \<in> set ?w. isDelete op" using w0(2) w1(2) by (auto simp: onlyAddresses_def)
  moreover have "dr_wb st' = dr_wb st @ ?w" using w0(1) w1(1) s(2) by simp
  moreover have "fst ` set (dr_txsToDelete st') = fst ` set (dr_txsToDelete st) \<union> (\<Union>(h, bts) \<in> set (b # bs). bt_btxID ` set bts)"
    using w0(3) w1(4) s(2) b by auto
  ultimately show ?case by blast
qed

lemma readBlocks_spec:
  "readBlocks D db n h = Ok bss \<Longrightarrow>
   length bss = n \<and> (\<forall>i < n. getBlockTxs D db (h + of_nat i) = Ok (bss ! i) \<and> bss ! i \<noteq> [])"
proof (induction n arbitrary: h bss)
  case (Suc n)
  then obtain bt bts where bt: "getBlockTxs D db h = Ok bt" "bt \<noteq> []" "readBlocks D db n (h + 1) = Ok bts" "bss = bt # bts"
    by (auto split: if_splits)
  from Suc.IH [OF bt(3)] bt show ?case
    by (auto simp: nth_Cons less_Suc_eq_0_disj add.assoc split: nat.splits)
qed simp

lemma range_heights:
  fixes lower higher :: u32
  assumes "lower \<le> higher" "higher \<noteq> - 1"
  shows "(\<lambda>i. lower + of_nat i) ` {0..<unat (higher - lower + 1)} = {lower..higher}"
proof -
  have "unat higher \<noteq> 2 ^ 32 - 1"
    using assms(2) word_unat_eq_iff [of higher "- 1"] by (simp add: unsigned_minus_1_eq_mask mask_eq_exp_minus_1)
  then have "unat higher < 2 ^ 32 - 1"
    using unsigned_less [of higher, where ?'a = nat] by simp
  then have n: "unat (higher - lower + 1) = unat higher - unat lower + 1"
    using assms(1) by (simp add: unat_word_ariths(1) unat_sub)
  show ?thesis
  proof (intro set_eqI iffI)
    fix h
    assume "h \<in> (\<lambda>i. lower + of_nat i) ` {0..<unat (higher - lower + 1)}"
    then obtain i where i: "h = lower + of_nat i" "i \<le> unat higher - unat lower" using n by auto
    have le: "unat lower \<le> unat higher" using assms(1) by (simp add: word_le_nat_alt)
    have "unat lower + i < 2 ^ 32"
      using i(2) le unsigned_less [of higher, where ?'a = nat] by simp
    then have "unat h = unat lower + i" by (simp add: i(1) unat_word_ariths unat_of_nat)
    with i(2) le show "h \<in> {lower..higher}" by (simp add: word_le_nat_alt)
  next
    fix h
    assume h: "h \<in> {lower..higher}"
    then have "unat (h - lower) = unat h - unat lower" "unat h \<le> unat higher"
      by (auto simp: unat_sub word_le_nat_alt)
    then have "unat (h - lower) < unat (higher - lower + 1)" by (simp add: n)
    moreover have "h = lower + of_nat (unat (h - lower))" by simp
    ultimately show "h \<in> (\<lambda>i. lower + of_nat i) ` {0..<unat (higher - lower + 1)}"
      by (intro image_eqI [of _ _ "unat (h - lower)"]) simp_all
  qed
qed

lemma DisconnectBlockRange_OkE:
  assumes "DisconnectBlockRangeBitcoinType D lower higher db = Ok db'"
  obtains st :: dr where "kv_Write (kvOf D) (dr_wb st @ storeTxAddresses D (dr_txAddresses st)
      @ storeBalancesDisconnect D (dr_balances st) @ deleteTxs (dr_txsToDelete st)) db = Ok db'"
    and "\<forall>op \<in> set (dr_wb st). isDelete op"
    and "\<forall>c k. c \<noteq> cfAddresses \<longrightarrow> (c, k) \<in> opKey ` set (dr_wb st)
      \<longleftrightarrow> c \<in> {cfBlockTxs, cfHeight} \<and> (\<exists>h. lower \<le> h \<and> h \<le> higher \<and> k = packUint h)"
    and "fst ` set (dr_txsToDelete st)
      = {t. \<exists>h bts bt. lower \<le> h \<and> h \<le> higher \<and> getBlockTxs D db h = Ok bts \<and> bt \<in> set bts \<and> t = bt_btxID bt}"
proof -
  define dr0 where "dr0 = \<lparr>dr_wb = [], dr_txAddresses = [], dr_balances = [], dr_txsToDelete = []\<rparr>"
  define bs where "bs = (\<lambda>blocks. zip (map (\<lambda>i. lower + of_nat i) [0..<length blocks]) (blocks :: blockTxs list list))"
  from assms obtain blocks st where s:
      "(if lower \<le> higher then readBlocks D db (unat (higher - lower + 1)) lower else Ok []) = Ok blocks"
      "lower \<le> higher \<longrightarrow> higher \<noteq> - 1" "foldR (disconnectBlock D db) (rev (bs blocks)) dr0 = Ok st"
      "kv_Write (kvOf D) (dr_wb st @ storeTxAddresses D (dr_txAddresses st)
        @ storeBalancesDisconnect D (dr_balances st) @ deleteTxs (dr_txsToDelete st)) db = Ok db'"
    unfolding DisconnectBlockRangeBitcoinType_def Let_def bs_def dr0_def
    by (elim bindR_OkE) (auto split: if_splits)
  have n: "length blocks = (if lower \<le> higher then unat (higher - lower + 1) else 0)"
    and get: "\<And>i. i < length blocks \<Longrightarrow> getBlockTxs D db (lower + of_nat i) = Ok (blocks ! i)"
    using s(1) readBlocks_spec [of D db _ lower blocks] by (auto split: if_splits)
  have hs: "(\<lambda>i. lower + of_nat i) ` {0..<length blocks} = {h. lower \<le> h \<and> h \<le> higher}"
    using s(2) range_heights [of lower higher] by (auto simp: n)
  have keys: "set (map fst (rev (bs blocks))) = {h. lower \<le> h \<and> h \<le> higher}"
    unfolding hs [symmetric] bs_def rev_map [symmetric] map_fst_zip set_rev by simp
  have bs: "set (bs blocks) = {(h, bts). lower \<le> h \<and> h \<le> higher \<and> getBlockTxs D db h = Ok bts}"
  proof (intro set_eqI iffI)
    fix x assume "x \<in> set (bs blocks)"
    then obtain i where "i < length blocks" "x = (lower + of_nat i, blocks ! i)"
      by (auto simp: bs_def set_zip)
    with hs get show "x \<in> {(h, bts). lower \<le> h \<and> h \<le> higher \<and> getBlockTxs D db h = Ok bts}" by auto
  next
    fix x assume "x \<in> {(h, bts). lower \<le> h \<and> h \<le> higher \<and> getBlockTxs D db h = Ok bts}"
    then obtain h bts where x: "x = (h, bts)" "h \<in> {h. lower \<le> h \<and> h \<le> higher}" "getBlockTxs D db h = Ok bts" by auto
    from x(2) obtain i where i: "i < length blocks" "h = lower + of_nat i" unfolding hs [symmetric] by auto
    with get [OF i(1)] x have "x = bs blocks ! i" by (simp add: bs_def)
    with i(1) show "x \<in> set (bs blocks)" by (auto simp: bs_def in_set_conv_nth)
  qed
  from disconnectBlocks_step [OF s(3)] have w: "\<forall>op \<in> set (dr_wb st). isDelete op"
      "{ck \<in> opKey ` set (dr_wb st). fst ck \<noteq> cfAddresses} = heightKeys (map fst (rev (bs blocks)))"
      "fst ` set (dr_txsToDelete st) = (\<Union>(h, bts) \<in> set (bs blocks). bt_btxID ` set bts)"
    by (auto simp: dr0_def)
  show thesis
  proof (rule that [OF s(4) w(1)])
    show "\<forall>c k. c \<noteq> cfAddresses \<longrightarrow> (c, k) \<in> opKey ` set (dr_wb st)
        \<longleftrightarrow> c \<in> {cfBlockTxs, cfHeight} \<and> (\<exists>h. lower \<le> h \<and> h \<le> higher \<and> k = packUint h)"
    proof (intro allI impI)
      fix c k assume "c \<noteq> cfAddresses"
      then have "(c, k) \<in> opKey ` set (dr_wb st) \<longleftrightarrow> (c, k) \<in> {ck \<in> opKey ` set (dr_wb st). fst ck \<noteq> cfAddresses}"
        by simp
      then show "(c, k) \<in> opKey ` set (dr_wb st)
          \<longleftrightarrow> c \<in> {cfBlockTxs, cfHeight} \<and> (\<exists>h. lower \<le> h \<and> h \<le> higher \<and> k = packUint h)"
        unfolding w(2) heightKeys_def keys by auto
    qed
    show "fst ` set (dr_txsToDelete st)
      = {t. \<exists>h bts bt. lower \<le> h \<and> h \<le> higher \<and> getBlockTxs D db h = Ok bts \<and> bt \<in> set bts \<and> t = bt_btxID bt}"
      unfolding w(3) bs by auto
  qed
qed

lemma deleteTxs_keys: "opKey ` set (deleteTxs m) = {cfTransactions, cfTxAddresses} \<times> fst ` set m"
  by (force simp: deleteTxs_def)

lemma deleteTxs_isDelete: "\<forall>op \<in> set (deleteTxs m). isDelete op"
  by (auto simp: deleteTxs_def)

lemma disconnect_other_columns:
  "op \<in> set (storeTxAddresses D m) \<Longrightarrow> fst (opKey op) = cfTxAddresses"
  "op \<in> set (storeBalancesDisconnect D b) \<Longrightarrow> fst (opKey op) = cfAddressBalance"
  by (auto simp: storeTxAddresses_def storeBalancesDisconnect_def storeBalances_def split: option.splits)

lemma disconnect_batch_keys:
  assumes "c \<noteq> cfAddresses" "c \<noteq> cfAddressBalance" "c \<noteq> cfTxAddresses"
  shows "(c, k) \<in> opKey ` set (wb @ storeTxAddresses D m @ storeBalancesDisconnect D b @ deleteTxs ts)
    \<longleftrightarrow> (c, k) \<in> opKey ` set wb \<or> c = cfTransactions \<and> k \<in> fst ` set ts"
proof -
  have "(c, k) \<notin> opKey ` set (storeTxAddresses D m)" "(c, k) \<notin> opKey ` set (storeBalancesDisconnect D b)"
    using assms disconnect_other_columns(1) [of _ D m] disconnect_other_columns(2) [of _ D b]
    by (metis (no_types, lifting) fst_conv imageE)+
  moreover have "(c, k) \<in> opKey ` set (deleteTxs ts) \<longleftrightarrow> c = cfTransactions \<and> k \<in> fst ` set ts"
    using assms by (simp add: deleteTxs_keys)
  ultimately show ?thesis unfolding set_append image_Un by blast
qed

lemma DisconnectBlockRange_columns:
  assumes kv: "kv_store (kvOf D) val" and run: "DisconnectBlockRangeBitcoinType D lower higher db = Ok db'"
  shows "c \<in> {cfHeight, cfBlockTxs} \<Longrightarrow>
      val db' c (packUint h) = (if lower \<le> h \<and> h \<le> higher then None else val db c (packUint h))"
    and "c \<in> {cfTransactions, cfTxAddresses} \<Longrightarrow> lower \<le> h \<Longrightarrow> h \<le> higher
      \<Longrightarrow> getBlockTxs D db h = Ok bts \<Longrightarrow> bt \<in> set bts \<Longrightarrow> val db' c (bt_btxID bt) = None"
    and "(\<And>h bts bt. lower \<le> h \<Longrightarrow> h \<le> higher \<Longrightarrow> getBlockTxs D db h = Ok bts \<Longrightarrow> bt \<in> set bts \<Longrightarrow> bt_btxID bt \<noteq> t)
      \<Longrightarrow> val db' cfTransactions t = val db cfTransactions t"
    and "c \<in> {cfHeight, cfBlockTxs} \<Longrightarrow> k \<notin> range packUint \<Longrightarrow> val db' c k = val db c k"
proof -
  obtain st :: dr where st: "kv_Write (kvOf D) (dr_wb st @ storeTxAddresses D (dr_txAddresses st)
      @ storeBalancesDisconnect D (dr_balances st) @ deleteTxs (dr_txsToDelete st)) db = Ok db'"
    and dels: "\<forall>op \<in> set (dr_wb st). isDelete op"
    and keys: "\<forall>c k. c \<noteq> cfAddresses \<longrightarrow> (c, k) \<in> opKey ` set (dr_wb st)
      \<longleftrightarrow> c \<in> {cfBlockTxs, cfHeight} \<and> (\<exists>h. lower \<le> h \<and> h \<le> higher \<and> k = packUint h)"
    and txs: "fst ` set (dr_txsToDelete st)
      = {t. \<exists>h bts bt. lower \<le> h \<and> h \<le> higher \<and> getBlockTxs D db h = Ok bts \<and> bt \<in> set bts \<and> t = bt_btxID bt}"
    using DisconnectBlockRange_OkE [OF run] .
  define wb where "wb = dr_wb st @ storeTxAddresses D (dr_txAddresses st)
      @ storeBalancesDisconnect D (dr_balances st) @ deleteTxs (dr_txsToDelete st)"
  have val: "val db' = applyBatch wb (val db)"
    using kv_store.write_val [OF kv st] by (simp add: wb_def)
  have batch: "(c, k) \<in> opKey ` set wb \<longleftrightarrow> c \<in> {cfBlockTxs, cfHeight} \<and> (\<exists>h. lower \<le> h \<and> h \<le> higher \<and> k = packUint h)
      \<or> c = cfTransactions \<and> k \<in> fst ` set (dr_txsToDelete st)"
    if "c \<notin> {cfAddresses, cfAddressBalance, cfTxAddresses}" for c k
    using disconnect_batch_keys [of c k "dr_wb st"] keys that by (simp add: wb_def)
  have del: "isDelete op" if "op \<in> set wb" "opKey op = (c, k)" "c \<notin> {cfAddressBalance, cfTxAddresses}" for op c k
  proof -
    have "op \<notin> set (storeTxAddresses D (dr_txAddresses st))" "op \<notin> set (storeBalancesDisconnect D (dr_balances st))"
      using that(2,3) disconnect_other_columns by fastforce+
    with that(1) dels deleteTxs_isDelete show ?thesis by (auto simp: wb_def)
  qed
  show "val db' c (packUint h) = (if lower \<le> h \<and> h \<le> higher then None else val db c (packUint h))"
    if c: "c \<in> {cfHeight, cfBlockTxs}"
  proof (cases "lower \<le> h \<and> h \<le> higher")
    case True
    with batch [of c "packUint h"] c have "(c, packUint h) \<in> opKey ` set wb" by blast
    with True c del applyBatch_deleted [of wb c "packUint h" "val db"] show ?thesis
      by (auto simp: val)
  next
    case False
    with batch [of c "packUint h"] c have "(c, packUint h) \<notin> opKey ` set wb" by auto
    from applyBatch_other [OF this] False show ?thesis unfolding val by (simp only: if_False)
  qed
  show "val db' c (bt_btxID bt) = None"
    if "c \<in> {cfTransactions, cfTxAddresses}" "lower \<le> h" "h \<le> higher" "getBlockTxs D db h = Ok bts" "bt \<in> set bts"
  proof -
    have "bt_btxID bt \<in> fst ` set (dr_txsToDelete st)" using that txs by blast
    then have "(c, bt_btxID bt) \<in> opKey ` set (deleteTxs (dr_txsToDelete st))"
      using that(1) by (simp add: deleteTxs_keys)
    with deleteTxs_isDelete show ?thesis
      by (simp add: val wb_def applyBatch_append applyBatch_deleted)
  qed
  show "val db' cfTransactions t = val db cfTransactions t"
    if "\<And>h bts bt. lower \<le> h \<Longrightarrow> h \<le> higher \<Longrightarrow> getBlockTxs D db h = Ok bts \<Longrightarrow> bt \<in> set bts \<Longrightarrow> bt_btxID bt \<noteq> t"
  proof -
    have "(cfTransactions, t) \<notin> opKey ` set wb"
      using batch [of cfTransactions t] that by (auto simp: txs)
    then show ?thesis by (simp add: val applyBatch_other)
  qed
  show "val db' c k = val db c k" if c: "c \<in> {cfHeight, cfBlockTxs}" and k: "k \<notin> range packUint"
  proof -
    have "(c, k) \<notin> opKey ` set wb" using batch [of c k] c k by auto
    then show ?thesis by (simp add: val applyBatch_other)
  qed
qed

text \<open>
  C12: after a range of blocks was disconnected the store has no header and no inputs of any
  height of the range, and neither the cached form nor the addresses of any transaction the
  inputs of those heights named; the headers and inputs of all other heights and the cached
  forms of all other transactions are untouched.
\<close>

theorem DisconnectBlockRange_removed:
  assumes kv: "kv_store (kvOf D) val" and run: "DisconnectBlockRangeBitcoinType D lower higher db = Ok db'"
  shows "(\<forall>h. \<forall>c \<in> {cfHeight, cfBlockTxs}.
        val db' c (packUint h) = (if lower \<le> h \<and> h \<le> higher then None else val db c (packUint h)))
    \<and> (\<forall>h bts. lower \<le> h \<and> h \<le> higher \<and> getBlockTxs D db h = Ok bts
        \<longrightarrow> (\<forall>bt \<in> set bts. val db' cfTransactions (bt_btxID bt) = None \<and> val db' cfTxAddresses (bt_btxID bt) = None))
    \<and> (\<forall>t. (\<forall>h bts. lower \<le> h \<and> h \<le> higher \<and> getBlockTxs D db h = Ok bts \<longrightarrow> t \<notin> bt_btxID ` set bts)
        \<longrightarrow> val db' cfTransactions t = val db cfTransactions t)"
proof (intro conjI allI impI ballI)
  fix t
  assume "\<forall>h bts. lower \<le> h \<and> h \<le> higher \<and> getBlockTxs D db h = Ok bts \<longrightarrow> t \<notin> bt_btxID ` set bts"
  then show "val db' cfTransactions t = val db cfTransactions t"
    by (intro DisconnectBlockRange_columns(3) [OF assms]) (auto simp: image_iff)
qed (use DisconnectBlockRange_columns(1,2) [OF assms] in auto)

text \<open>
  A store of two blocks, in the columns' own bytes: at height 3 the transaction \<open>01\<close> pays 7 to
  an address, at height 4 the transaction \<open>02\<close> spends it and pays 5 to another.
\<close>

definition twoBlocksDb :: alist_db where
  "twoBlocksDb =
     [((cfHeight, packUint 3), [1]), ((cfHeight, packUint 4), [2]),
      ((cfBlockTxs, packUint 3), [1, 0]), ((cfBlockTxs, packUint 4), [2, 1, 1, 0]),
      ((cfTxAddresses, [1]), [3, 0, 1, 129, 255, 255, 255, 255, 255, 255, 255, 255, 125, 9, 9, 1, 7, 0, 0, 0]),
      ((cfTxAddresses, [2]), [3, 1, 2, 9, 9, 1, 7, 1, 1, 8, 1, 5, 0, 0, 0]),
      ((cfAddressBalance, [9, 9]), [2, 1, 7, 0])]"

lemma twoBlocks_reads:
  "getBlockTxs sampleDeps twoBlocksDb 4 = Ok [\<lparr>bt_btxID = [2], bt_inputs = [\<lparr>o_btxID = [1], o_index = 0\<rparr>]\<rparr>]"
  "getTxAddresses sampleDeps twoBlocksDb [1]
    = Ok (Some \<lparr>ta_Height = 3, ta_Inputs = [], ta_Outputs = [\<lparr>to_AddrDesc = [9, 9], to_Spent = True, to_ValueSat = 7\<rparr>],
        ta_ShieldIns = 0, ta_ShieldOuts = 0, ta_ShieldValBal = 0\<rparr>)"
  "getTxAddresses sampleDeps twoBlocksDb [2]
    = Ok (Some \<lparr>ta_Height = 3, ta_Inputs = [\<lparr>ti_AddrDesc = [9, 9], ti_ValueSat = 7\<rparr>],
        ta_Outputs = [\<lparr>to_AddrDesc = [8], to_Spent = False, to_ValueSat = 5\<rparr>],
        ta_ShieldIns = 0, ta_ShieldOuts = 0, ta_ShieldValBal = 0\<rparr>)"
  "GetAddrDescBalance sampleDeps twoBlocksDb [9, 9] AddressBalanceDetailUTXOIndexed
    = Ok (Some \<lparr>ab_Txs = 2, ab_SentSat = 7, ab_BalanceSat = 0, ab_Utxos = [], ab_utxosMap = []\<rparr>)"
  "GetAddrDescBalance sampleDeps twoBlocksDb [8] AddressBalanceDetailUTXOIndexed = Ok None"
  "vAddrDescriptors sampleDeps [8] = Ok [[8]]" "vAddrDescriptors sampleDeps [9, 9] = Ok [[9, 9]]"
  "cp_IsAddrDescIndexable (parserOf sampleDeps) [8]" "cp_IsAddrDescIndexable (parserOf sampleDeps) [9, 9]"
  by code_simp+

lemma sample_write: "kv_Write (kvOf sampleDeps) wb db = Ok (fold alistStep wb db)"
  by (simp add: sampleDeps_def alistStore_def)

lemma twoBlocks_disconnect:
  obtains db' where "DisconnectBlockRangeBitcoinType sampleDeps 4 4 twoBlocksDb = Ok db'"
  by (simp add: DisconnectBlockRangeBitcoinType_def Let_def twoBlocks_reads sample_write disconnectBlock_def disconnectTx_def
      disconnectTxAddresses_def indexed_def undoInput_def indexR_def noteAddress_def findTxAddresses_def unspendOutput_def
      getAddressBalance_def undoOutput_def)

text \<open>C12 at the block of height 4, which is taken off again.\<close>

theorem DisconnectBlockRange_removed_witness:
  "\<exists>db'. DisconnectBlockRangeBitcoinType sampleDeps 4 4 twoBlocksDb = Ok db'
    \<and> alistVal db' cfHeight (packUint 4) = None \<and> alistVal db' cfHeight (packUint 3) = Some [1]
    \<and> alistVal db' cfTxAddresses [2] = None"
proof -
  obtain db' where run: "DisconnectBlockRangeBitcoinType sampleDeps 4 4 twoBlocksDb = Ok db'"
    by (rule twoBlocks_disconnect)
  have kv: "kv_store (kvOf sampleDeps) alistVal" by (simp add: sampleDeps_def alist.kv_store_axioms)
  note dis = DisconnectBlockRange_removed [OF kv run]
  have "alistVal db' cfHeight (packUint 4) = None" "alistVal db' cfHeight (packUint 3) = alistVal twoBlocksDb cfHeight (packUint 3)"
    "alistVal db' cfTxAddresses [2] = None"
    using dis dis [THEN conjunct2, THEN conjunct1, THEN spec [of _ 4]] twoBlocks_reads(1) by simp_all
  moreover have "alistVal twoBlocksDb cfHeight (packUint 3) = Some [1]" by code_simp
  ultimately show ?thesis using run by simp
qed

section \<open>Undoing restores the sheet\<close>

lemma mset_removeOut:
  "find (\<lambda>u. u_BtxID u = t \<and> u_Vout u = v) us = Some u \<Longrightarrow> mset (removeOut t v us @ [u]) = mset us"
  by (induction us) (auto split: if_splits)

lemma removeOut_absent: "(\<And>u. u \<in> set us \<Longrightarrow> u_BtxID u \<noteq> t \<or> u_Vout u \<noteq> v) \<Longrightarrow> removeOut t v (us @ [w]) = us @ removeOut t v [w]"
  by (induction us) auto

lemma find_snoc: "(\<And>u. u \<in> set us \<Longrightarrow> \<not> P u) \<Longrightarrow> P w \<Longrightarrow> find P (us @ [w]) = Some w"
  by (induction us) auto

lemma hasUtxoLinear_iff: "hasUtxoLinear t v us \<longleftrightarrow> (\<exists>u \<in> set us. u_BtxID u = t \<and> u_Vout u = v)"
  by (induction us) auto

text \<open>
  C13: undoing an input that was just debited gives the sheet back: the same number of
  transactions, balance and amount sent, and the same unspent outputs, the restored one with
  its height and value among them.
\<close>

theorem restoreUtxo_debit:
  assumes "cp_IsAddrDescIndexable (parserOf D) a" "loadBalance D db a st = Ok (b, st1)"
    and "balanced b" "wfAddresses (ps_addresses st)" "t \<noteq> []" "0 \<le>s vout" "0 \<le> ab_SentSat b"
    and "find (\<lambda>u. u_BtxID u = t \<and> u_Vout u = vout) (liveUtxos b)
           = Some \<lparr>u_BtxID = t, u_Vout = vout, u_Height = height, u_ValueSat = value\<rparr>"
  shows "\<exists>st' b'. debitInput D db spendingTxid i t vout value a st = Ok st' \<and> mapGet (ps_balances st') a = Some b'
    \<and> (let r = restoreUtxo (indexesOf (ps_addresses st) a spendingTxid \<noteq> []) \<lparr>o_btxID = t, o_index = vout\<rparr> height value b'
       in ab_Txs r = ab_Txs b \<and> ab_BalanceSat r = ab_BalanceSat b \<and> ab_SentSat r = ab_SentSat b
          \<and> mset (liveUtxos r) = mset (liveUtxos b))"
proof -
  obtain st' b' where step: "debitInput D db spendingTxid i t vout value a st = Ok st'"
      "mapGet (ps_balances st') = (mapGet (ps_balances st))(a \<mapsto> b')"
      "liveUtxos b' = removeOut t vout (liveUtxos b)" "ab_BalanceSat b' = ab_BalanceSat b - value"
      "ab_SentSat b' = ab_SentSat b + value"
      "ab_Txs b' = ab_Txs b + (if indexesOf (ps_addresses st) a spendingTxid = [] then 1 else 0)"
    using debitInput_step [OF assms(1-6) assms(8), of "value" spendingTxid i] by auto
  let ?u = "\<lparr>u_BtxID = t, u_Vout = vout, u_Height = height, u_ValueSat = value\<rparr>"
  define r where "r = restoreUtxo (indexesOf (ps_addresses st) a spendingTxid \<noteq> []) \<lparr>o_btxID = t, o_index = vout\<rparr> height value b'"
  have r: "ab_Utxos r = ab_Utxos b' @ [?u]" "ab_Txs r = ab_Txs b" "ab_BalanceSat r = ab_BalanceSat b" "ab_SentSat r = ab_SentSat b"
    using step(4-6) assms(7) by (simp_all add: r_def restoreUtxo_def Let_def)
  have "liveUtxos r = liveUtxos b' @ [?u]"
    using assms(6) by (simp add: liveUtxos_def r(1))
  then have "mset (liveUtxos r) = mset (liveUtxos b)"
    using mset_removeOut [OF assms(8)] step(3) by simp
  with step r show ?thesis by (auto simp: Let_def r_def)
qed

text \<open>
  C14: undoing an output that was just credited gives the sheet back: the same number of
  transactions, balance, amount sent, and the same unspent outputs in the same order.
\<close>

theorem removeUtxo_credit:
  assumes "cp_IsAddrDescIndexable (parserOf D) a" "loadBalance D db a st = Ok (b, st1)"
    and "balanced b" "wfAddresses (ps_addresses st)" "0 \<le> value" "i < 2 ^ 31"
    and "freshUtxo \<lparr>u_BtxID = t, u_Vout = of_nat i, u_Height = height, u_ValueSat = value\<rparr> b"
    and "\<not> hasUtxoLinear t (of_nat i) (ab_Utxos b)"
  shows "\<exists>st' b' r. creditOutput D db height t i value a st = Ok st' \<and> mapGet (ps_balances st') a = Some b'
    \<and> removeUtxo (indexesOf (ps_addresses st) a t \<noteq> []) t i value b' = Ok r
    \<and> ab_Txs r = ab_Txs b \<and> ab_BalanceSat r = ab_BalanceSat b \<and> ab_SentSat r = ab_SentSat b
    \<and> liveUtxos r = liveUtxos b \<and> balanced r"
proof -
  let ?u = "\<lparr>u_BtxID = t, u_Vout = of_nat i, u_Height = height, u_ValueSat = value\<rparr>"
  obtain st' b' where step: "creditOutput D db height t i value a st = Ok st'"
      "mapGet (ps_balances st') = (mapGet (ps_balances st))(a \<mapsto> b')" "balanced b'"
      "ab_BalanceSat b' = ab_BalanceSat b + value"
      "ab_Txs b' = ab_Txs b + (if indexesOf (ps_addresses st) a t = [] then 1 else 0)"
      "liveUtxos b' = liveUtxos b @ [?u]" "ab_SentSat b' = ab_SentSat b"
    using creditOutput_step [OF assms] by auto
  have absent: "\<And>u. u \<in> set (liveUtxos b) \<Longrightarrow> \<not> (u_BtxID u = t \<and> u_Vout u = of_nat i)"
    using assms(8) by (auto simp: hasUtxoLinear_iff liveUtxos_def)
  then have "find (\<lambda>u. u_BtxID u = t \<and> u_Vout u = of_nat i) (liveUtxos b') = Some ?u"
    unfolding step(6) by (intro find_snoc) auto
  note found = this
  have t: "t \<noteq> []" using assms(7) by (simp add: freshUtxo_def)
  obtain r where r: "markUtxoAsSpent t (of_nat i) (b'\<lparr>ab_Txs := ab_Txs b, ab_BalanceSat := ab_BalanceSat b' - value\<rparr>) = Ok r"
      "balanced r" "0 \<le> ab_BalanceSat r" "liveUtxos r = removeOut t (of_nat i) (liveUtxos b')"
      "ab_BalanceSat r = ab_BalanceSat b' - value" "ab_SentSat r = ab_SentSat b'" "ab_Txs r = ab_Txs b"
    by (rule spend_balanced [OF step(3) t of_nat_live [OF assms(6)] found, of "value" "ab_Txs b"]) simp_all
  have "liveUtxos r = liveUtxos b"
    unfolding r(4) step(6) using absent by (subst removeOut_absent) auto
  moreover have "removeUtxo (indexesOf (ps_addresses st) a t \<noteq> []) t i value b' = Ok r"
  proof -
    have "(if indexesOf (ps_addresses st) a t \<noteq> [] then b' else b'\<lparr>ab_Txs := ab_Txs b' - 1\<rparr>) = b'\<lparr>ab_Txs := ab_Txs b\<rparr>"
      using step(5) by (cases b') auto
    then show ?thesis using r by (simp add: removeUtxo_def Let_def)
  qed
  ultimately show ?thesis using step r by auto
qed

text \<open>C13 at an address with one unspent output, which is spent and restored.\<close>

theorem restoreUtxo_debit_witness:
  "let st = (emptyPs zeroStats)\<lparr>ps_balances := [([7], oneUtxoBalance)]\<rparr> in
   \<exists>st' b'. debitInput sampleDeps [] [2] 0 [1] 0 10 [7] st = Ok st' \<and> mapGet (ps_balances st') [7] = Some b'
    \<and> (let r = restoreUtxo (indexesOf (ps_addresses st) [7] [2] \<noteq> []) \<lparr>o_btxID = [1], o_index = 0\<rparr> 1 10 b'
       in ab_Txs r = ab_Txs oneUtxoBalance \<and> ab_BalanceSat r = ab_BalanceSat oneUtxoBalance
          \<and> ab_SentSat r = ab_SentSat oneUtxoBalance \<and> mset (liveUtxos r) = mset (liveUtxos oneUtxoBalance))"
  unfolding Let_def [of "(emptyPs zeroStats)\<lparr>ps_balances := [([7], oneUtxoBalance)]\<rparr>"]
proof (rule restoreUtxo_debit)
  let ?st = "(emptyPs zeroStats)\<lparr>ps_balances := [([7], oneUtxoBalance)]\<rparr>"
  show "cp_IsAddrDescIndexable (parserOf sampleDeps) [7]" by code_simp
  show "loadBalance sampleDeps [] [7] ?st = Ok (oneUtxoBalance, ?st\<lparr>ps_cbs := zeroStats\<lparr>cbs_balancesHit := 1\<rparr>\<rparr>)"
    by code_simp
  show "balanced oneUtxoBalance" by (rule oneUtxoBalance_balanced)
  show "wfAddresses (ps_addresses ?st)" by (simp add: emptyPs_def)
  show "find (\<lambda>u. u_BtxID u = [1] \<and> u_Vout u = 0) (liveUtxos oneUtxoBalance)
      = Some \<lparr>u_BtxID = [1], u_Vout = 0, u_Height = 1, u_ValueSat = 10\<rparr>"
    by code_simp
  show "0 \<le> ab_SentSat oneUtxoBalance" by code_simp
qed (simp_all add: word_sle_eq)

text \<open>C14 at the first output ever of an address.\<close>

theorem removeUtxo_credit_witness:
  "\<exists>st' b' r. creditOutput sampleDeps [] 3 [1] 0 5 [7] (emptyPs zeroStats) = Ok st' \<and> mapGet (ps_balances st') [7] = Some b'
    \<and> removeUtxo (indexesOf (ps_addresses (emptyPs zeroStats)) [7] [1] \<noteq> []) [1] 0 5 b' = Ok r
    \<and> ab_Txs r = ab_Txs emptyAddrBalance \<and> ab_BalanceSat r = ab_BalanceSat emptyAddrBalance
    \<and> ab_SentSat r = ab_SentSat emptyAddrBalance \<and> liveUtxos r = liveUtxos emptyAddrBalance \<and> balanced r"
  by (rule removeUtxo_credit) (use first_output in simp_all)

end
