(* ===== verification/Chain.thy ===== *)
theory Chain
  imports ChainTypes
begin

text \<open>
  The block chain the program reads from (the interface \<open>BlockChain\<close> of
  \<open>src/bchain/types.go\<close>): a full node behind RPC. It is a parameter, the record
  \<open>block_chain\<close> of the calls the modelled code makes. The functions are a snapshot of the
  node: an operation of the program that makes several calls sees one chain.
\<close>

record block_chain =
  bc_GetBestBlockHash :: "string res"
  bc_GetBestBlockHeight :: "u32 res"
  bc_GetBlockHash :: "u32 \<Rightarrow> string res"
  bc_GetBlock :: "string \<Rightarrow> u32 \<Rightarrow> Block res"
  bc_GetTransaction :: "string \<Rightarrow> Tx res"
  bc_GetTransactionForMempool :: "string \<Rightarrow> Tx res"
  bc_GetMempoolTransactions :: "string list res"

end
