(* ===== verification/TxStore.thy ===== *)
theory TxStore
  imports IndexReads Chain
begin

text \<open>
  The rest of \<open>src/db/rocksdb.go\<close> and the cache in front of it (\<open>src/db/txcache.go\<close>): the
  column of cached transactions, the stored internal state with its checks on start, and the
  statistics of the columns.
\<close>

section \<open>Cached transactions\<close>

definition GetTx :: "'db deps \<Rightarrow> 'db \<Rightarrow> string \<Rightarrow> (Tx \<times> u32) option res" where
  "GetTx D db txid =
     bindR (cp_PackTxid (parserOf D) txid) (\<lambda>key.
     bindR (kv_GetCF (kvOf D) db cfTransactions key) (\<lambda>val.
     let data = dataOf val
     in if length data > 4 then bindR (cp_UnpackTx (parserOf D) data) (\<lambda>r. Ok (Some r)) else Ok None))"

text \<open>\<open>if err != nil { return nil }\<close>: an error is dropped, a panic is not.\<close>

definition dropError :: "'a res \<Rightarrow> unit res" where
  "dropError r = catchR r (\<lambda>_. Ok ()) (\<lambda>_. Ok ())"

text \<open>The number of a column in the statistics.\<close>

fun cfIndex :: "cf \<Rightarrow> nat" where
  "cfIndex cfDefault = 0"
| "cfIndex cfHeight = 1"
| "cfIndex cfAddresses = 2"
| "cfIndex cfBlockTxs = 3"
| "cfIndex cfTransactions = 4"
| "cfIndex cfAddressBalance = 5"
| "cfIndex cfTxAddresses = 6"

text \<open>\<open>d.is.AddDBColumnStats\<close> through the pointer of the handle.\<close>

definition addStats :: "go_time \<Rightarrow> cf \<Rightarrow> int64 \<Rightarrow> int64 \<Rightarrow> int64 \<Rightarrow> 'db RocksDB \<Rightarrow> 'db RocksDB res" where
  "addStats now c rows keyBytes valueBytes d =
     (case d_is d of
        None \<Rightarrow> Err (Panic ''nil pointer dereference'')
      | Some is \<Rightarrow> bindR (AddDBColumnStats now (cfIndex c) rows keyBytes valueBytes is) (\<lambda>is. Ok (d\<lparr>d_is := Some is\<rparr>)))"

definition PutTx :: "'db deps \<Rightarrow> go_time \<Rightarrow> Tx \<Rightarrow> u32 \<Rightarrow> int64 \<Rightarrow> 'db RocksDB \<Rightarrow> 'db RocksDB \<times> unit res" where
  "PutTx D now tx height blockTime d =
     (case cp_PackTxid (parserOf D) (tx_Txid tx) of
        Inl e \<Rightarrow> (d, dropError (Err e :: unit res))
      | Inr key \<Rightarrow>
          (case cp_PackTx (parserOf D) tx height blockTime of
             Inl e \<Rightarrow> (d, Err e)
           | Inr buf \<Rightarrow>
               (case kv_PutCF (kvOf D) cfTransactions key buf (d_db d) of
                  Inl e \<Rightarrow> (d, Err e)
                | Inr db \<Rightarrow>
                    let d = d\<lparr>d_db := db\<rparr>
                    in case addStats now cfTransactions 1 (of_nat (length key)) (of_nat (length buf)) d of
                         Inl e \<Rightarrow> (d, Err e)
                       | Inr d \<Rightarrow> (d, Ok ()))))"

text \<open>\<open>internalDeleteTx\<close>: the statistics shrink by what the column had.\<close>

definition internalDeleteTx :: "'db deps \<Rightarrow> go_time \<Rightarrow> bytes \<Rightarrow> 'db RocksDB \<Rightarrow> ('db RocksDB \<times> write_batch) res" where
  "internalDeleteTx D now key d =
     bindR (catchR (kv_GetCF (kvOf D) (d_db d) cfTransactions key) (\<lambda>_. Ok d) (\<lambda>val.
              let l = length (dataOf val)
              in if l > 0 then addStats now cfTransactions (- 1) (- of_nat (length key)) (- of_nat l) d else Ok d))
       (\<lambda>d. Ok (d, [DeleteCF cfTransactions key]))"

definition DeleteTx :: "'db deps \<Rightarrow> go_time \<Rightarrow> string \<Rightarrow> 'db RocksDB \<Rightarrow> 'db RocksDB \<times> unit res" where
  "DeleteTx D now txid d =
     (case cp_PackTxid (parserOf D) txid of
        Inl e \<Rightarrow> (d, dropError (Err e :: unit res))
      | Inr key \<Rightarrow>
          (case internalDeleteTx D now key d of
             Inl e \<Rightarrow> (d, Err e)
           | Inr (d, wb) \<Rightarrow>
               (case kv_Write (kvOf D) wb (d_db d) of
                  Inl e \<Rightarrow> (d, Err e)
                | Inr db \<Rightarrow> (d\<lparr>d_db := db\<rparr>, Ok ()))))"

section \<open>The stored internal state\<close>

definition cfNames :: "string list" where
  "cfNames = [''default'', ''height'', ''addresses'', ''blockTxs'', ''transactions'', ''addressBalance'', ''txAddresses'']"

definition dbVersion :: u32 where
  "dbVersion = 5"

definition internalStateKey :: bytes where
  "internalStateKey = map of_char ''internalState''"

text \<open>The zero value of \<open>time.Time\<close>.\<close>

definition zeroTime :: go_time where
  "zeroTime = 0"

definition newInternalState :: "string \<Rightarrow> InternalState" where
  "newInternalState rpcCoin =
     \<lparr>is_Coin = rpcCoin, is_CoinShortcut = [], is_CoinLabel = [], is_Host = [], is_DbState = DbStateClosed,
      is_LastStore = zeroTime, is_SyncMode = False, is_InitialSync = False, is_IsSynchronized = False,
      is_BestHeight = 0, is_LastSync = zeroTime, is_IsMempoolSynchronized = False, is_MempoolSize = 0,
      is_LastMempoolSync = zeroTime, is_DbColumns = []\<rparr>"

definition newColumn :: "string \<Rightarrow> InternalStateColumn" where
  "newColumn name = \<lparr>col_Name = name, col_Version = dbVersion, col_Rows = 0, col_KeyBytes = 0, col_ValueBytes = 0,
     col_Updated = zeroTime\<rparr>"

text \<open>The inner loop of \<open>LoadInternalState\<close>: the first stored column of the name.\<close>

fun matchColumn :: "InternalStateColumn list \<Rightarrow> InternalStateColumn \<Rightarrow> InternalStateColumn res" where
  "matchColumn [] nc = Ok nc"
| "matchColumn (s # sc) nc =
     (if col_Name s = col_Name nc
      then if col_Version s \<noteq> dbVersion then Err (ErrMsg ''DB is not compatible.'')
           else Ok (nc\<lparr>col_Rows := col_Rows s, col_KeyBytes := col_KeyBytes s, col_ValueBytes := col_ValueBytes s,
                       col_Updated := col_Updated s\<rparr>)
      else matchColumn sc nc)"

definition LoadInternalState :: "'db deps \<Rightarrow> is_json \<Rightarrow> string \<Rightarrow> 'db \<Rightarrow> InternalState res" where
  "LoadInternalState D J rpcCoin db =
     bindR (kv_GetCF (kvOf D) db cfDefault internalStateKey) (\<lambda>val.
     let data = dataOf val
     in bindR (if length data = 0 then Ok (newInternalState rpcCoin)
               else bindR (UnpackInternalState J data) (\<lambda>is.
                    if is_Coin is = [] then Ok (is\<lparr>is_Coin := rpcCoin\<rparr>)
                    else if is_Coin is \<noteq> rpcCoin then Err (ErrMsg ''Coins do not match.'')
                    else Ok is)) (\<lambda>is.
        bindR (mapR (\<lambda>name. matchColumn (is_DbColumns is) (newColumn name)) cfNames) (\<lambda>nc.
        Ok (is\<lparr>is_DbColumns := nc, is_IsSynchronized := False, is_IsMempoolSynchronized := False,
               is_LastMempoolSync := zeroTime, is_SyncMode := False\<rparr>))))"

text \<open>\<open>storeState\<close>: packing sets the time of the last store in the shared record.\<close>

definition storeState :: "'db deps \<Rightarrow> is_json \<Rightarrow> go_time \<Rightarrow> InternalState \<Rightarrow> 'db \<Rightarrow> InternalState \<times> 'db res" where
  "storeState D J now is db =
     (let (is, buf) = Pack J now is
      in (is, bindR buf (\<lambda>buf. kv_PutCF (kvOf D) cfDefault internalStateKey buf db)))"

definition storeOwnState :: "'db deps \<Rightarrow> is_json \<Rightarrow> go_time \<Rightarrow> InternalState \<Rightarrow> 'db RocksDB \<Rightarrow> 'db RocksDB \<times> unit res" where
  "storeOwnState D J now is d =
     (case storeState D J now is (d_db d) of
        (is, Inl e) \<Rightarrow> (d\<lparr>d_is := Some is\<rparr>, Err e)
      | (is, Inr db) \<Rightarrow> (d\<lparr>d_is := Some is, d_db := db\<rparr>, Ok ()))"

definition SetInconsistentState :: "'db deps \<Rightarrow> is_json \<Rightarrow> go_time \<Rightarrow> bool \<Rightarrow> 'db RocksDB \<Rightarrow> 'db RocksDB \<times> unit res" where
  "SetInconsistentState D J now inconsistent d =
     (case d_is d of
        None \<Rightarrow> (d, Err (ErrMsg ''Internal state not created''))
      | Some is \<Rightarrow>
          storeOwnState D J now
            (is\<lparr>is_DbState := (if inconsistent then DbStateInconsistent else DbStateOpen)\<rparr>) d)"

definition SetInternalState :: "InternalState \<Rightarrow> 'db RocksDB \<Rightarrow> 'db RocksDB" where
  "SetInternalState is d = d\<lparr>d_is := Some is\<rparr>"

text \<open>
  \<open>StoreInternalState\<close> of the state the handle itself points to; the metrics, where there are
  any, only read it.
\<close>

definition StoreInternalState :: "'db deps \<Rightarrow> is_json \<Rightarrow> go_time \<Rightarrow> 'db RocksDB \<Rightarrow> 'db RocksDB \<times> unit res" where
  "StoreInternalState D J now d =
     (case d_is d of
        None \<Rightarrow> (d, Err (Panic ''nil pointer dereference''))
      | Some is \<Rightarrow> storeOwnState D J now is d)"

text \<open>\<open>Close\<close> marks an open database as closed; one that is inconsistent stays so.\<close>

definition Close :: "'db deps \<Rightarrow> is_json \<Rightarrow> go_time \<Rightarrow> 'db RocksDB \<Rightarrow> 'db RocksDB \<times> unit res" where
  "Close D J now d =
     (case d_is d of
        None \<Rightarrow> (d, Ok ())
      | Some is \<Rightarrow>
          if is_DbState is = DbStateOpen
          then let (d, r) = StoreInternalState D J now (d\<lparr>d_is := Some (is\<lparr>is_DbState := DbStateClosed\<rparr>)\<rparr>)
               in (d, dropError r)
          else (d, Ok ()))"

section \<open>Sizes of the columns\<close>

definition refreshIterator :: nat where
  "refreshIterator = 5000000"

text \<open>
  One iterator: at most \<open>refreshIterator\<close> rows are counted. \<open>stop\<close> tells whether the signal
  is there when so many rows have been counted.
\<close>

type_synonym col_size = "int64 \<times> int64 \<times> int64"

fun countRows :: "(int64 \<Rightarrow> bool) \<Rightarrow> (bytes \<times> bytes) list \<Rightarrow> col_size \<Rightarrow> col_size res" where
  "countRows stop [] s = Ok s"
| "countRows stop ((key, val) # es) (rows, keysSum, valuesSum) =
     (if stop rows then Err (ErrMsg ''Interrupted'')
      else countRows stop es (rows + 1, keysSum + of_nat (length key), valuesSum + of_nat (length val)))"

text \<open>
  The outer loop: a new iterator after every \<open>limit\<close> rows, from the last key on, that key
  skipped. A round counts at least one row or is the last.
\<close>

fun computeRounds :: "'db deps \<Rightarrow> 'db \<Rightarrow> (int64 \<Rightarrow> bool) \<Rightarrow> nat \<Rightarrow> cf \<Rightarrow> nat \<Rightarrow> bytes \<Rightarrow> col_size \<Rightarrow> col_size res" where
  "computeRounds D db stop limit col 0 seekKey s = Err OutOfFuel"
| "computeRounds D db stop limit col (Suc fuel) seekKey s =
     (let es = (if fst s = 0 then kv_Seek (kvOf D) db col [] else drop 1 (kv_Seek (kvOf D) db col seekKey));
          chunk = take limit es
      in bindR (countRows stop chunk s) (\<lambda>s.
         if length es > limit
         then computeRounds D db stop limit col fuel (if chunk = [] then [] else fst (last chunk)) s
         else Ok s))"

definition computeColumnSize :: "'db deps \<Rightarrow> 'db \<Rightarrow> (int64 \<Rightarrow> bool) \<Rightarrow> cf \<Rightarrow> col_size res" where
  "computeColumnSize D db stop col =
     computeRounds D db stop refreshIterator col (Suc (length (kv_Seek (kvOf D) db col []))) [] (0, 0, 0)"

definition cfs :: "cf list" where
  "cfs = [cfDefault, cfHeight, cfAddresses, cfBlockTxs, cfTransactions, cfAddressBalance, cfTxAddresses]"

definition ComputeInternalStateColumnStats :: "'db deps \<Rightarrow> go_time \<Rightarrow> (int64 \<Rightarrow> bool) \<Rightarrow> 'db \<Rightarrow> InternalState \<Rightarrow> InternalState \<times> unit res" where
  "ComputeInternalStateColumnStats D now stop db is =
     fold (\<lambda>c (is, r).
       case r of Inl e \<Rightarrow> (is, Err e)
       | Inr _ \<Rightarrow>
           (case bindR (computeColumnSize D db stop c) (\<lambda>(rows, keysSum, valuesSum).
                   SetDBColumnStats now (cfIndex c) rows keysSum valuesSum is) of
              Inl e \<Rightarrow> (is, Err e)
            | Inr is \<Rightarrow> (is, Ok ()))) cfs (is, Ok ())"

section \<open>The cache of transactions\<close>

text \<open>
  \<open>TxCache.GetTransaction\<close>: from the store, with the confirmations of now, or from the chain;
  a confirmed one is stored. The cache shares the internal state with the handle of the store.
\<close>

definition GetTransaction :: "'db deps \<Rightarrow> block_chain \<Rightarrow> bool \<Rightarrow> go_time \<Rightarrow> string \<Rightarrow> 'db RocksDB
    \<Rightarrow> 'db RocksDB \<times> (Tx \<times> u32) res" where
  "GetTransaction D B enabled now txid d =
     (case (if enabled then GetTx D (d_db d) txid else Ok None) of
        Inl e \<Rightarrow> (d, Err e)
      | Inr (Some (tx, h)) \<Rightarrow>
          (case d_is d of
             None \<Rightarrow> (d, Err (Panic ''nil pointer dereference''))
           | Some is \<Rightarrow>
               let (_, bestheight, _) = GetSyncState is
               in (d, Ok (tx\<lparr>tx_Confirmations := bestheight - h + 1\<rparr>, h)))
      | Inr None \<Rightarrow>
          (case bc_GetTransaction B txid of
             Inl e \<Rightarrow> (d, Err e)
           | Inr tx \<Rightarrow>
               if tx_Confirmations tx > 0
               then (case bindR (GetTxAddresses D (d_db d) txid) (\<lambda>ta.
                            case ta of None \<Rightarrow> bc_GetBestBlockHeight B | Some ta \<Rightarrow> Ok (ta_Height ta)) of
                       Inl e \<Rightarrow> (d, Err e)
                     | Inr h \<Rightarrow>
                         if enabled
                         then let (d, r) = PutTx D now tx h (tx_Blocktime tx) d
                              in (d, bindR (dropError r) (\<lambda>_. Ok (tx, h)))
                         else (d, Ok (tx, h)))
               else (d, Ok (tx, 0))))"

section \<open>Counting a column\<close>

lemma strict_sorted_eq:
  fixes xs ys :: "('a :: linorder \<times> 'b) list"
  assumes "sorted_wrt (<) (map fst xs)" "sorted_wrt (<) (map fst ys)" "set xs = set ys"
  shows "xs = ys"
proof -
  have "map fst xs = map fst ys"
    using assms by (intro strict_sorted_equal) (auto simp: image_iff)
  moreover have "inj_on fst (set xs \<union> set ys)"
    using assms by (simp add: strict_sorted_iff distinct_map)
  ultimately show ?thesis by (simp add: inj_on_map_eq_map)
qed

context kv_store
begin

text \<open>Seeking to a key of the column gives the rows from there on.\<close>

lemma seek_suffix:
  assumes "kv_Seek K db c [] = pre @ (k, v) # post"
  shows "kv_Seek K db c k = (k, v) # post"
proof (rule strict_sorted_eq)
  have sorted: "sorted_wrt (<) (map fst (pre @ (k, v) # post))"
    using seek_sorted [of db c "[]"] by (simp add: assms)
  show "sorted_wrt (<) (map fst (kv_Seek K db c k))" by (rule seek_sorted)
  show "sorted_wrt (<) (map fst ((k, v) # post))" using sorted by (simp add: sorted_wrt_append)
  have mem: "x \<in> set (kv_Seek K db c k) \<longleftrightarrow> k \<le> fst x \<and> x \<in> set (pre @ (k, v) # post)" for x
    using seek_iff [of "fst x" "snd x" db c k] seek_iff [of "fst x" "snd x" db c "[]"] assms by simp
  have "fst x < k" if "x \<in> set pre" for x using sorted that by (auto simp: sorted_wrt_append)
  moreover have "k \<le> fst x" if "x \<in> set post" for x using sorted that by (auto simp: sorted_wrt_append less_imp_le)
  ultimately show "set (kv_Seek K db c k) = set ((k, v) # post)" by (force simp: mem)
qed

end

lemma countRows_go:
  "(\<And>r. \<not> stop r) \<Longrightarrow> countRows stop es (rows, ks, vs)
    = Ok (rows + of_nat (length es), ks + of_nat (\<Sum>e\<leftarrow>es. length (fst e)), vs + of_nat (\<Sum>e\<leftarrow>es. length (snd e)))"
  by (induction es arbitrary: rows ks vs) (auto simp: algebra_simps)

definition colSize :: "(bytes \<times> bytes) list \<Rightarrow> col_size" where
  "colSize es = (of_nat (length es), of_nat (\<Sum>e\<leftarrow>es. length (fst e)), of_nat (\<Sum>e\<leftarrow>es. length (snd e)))"

lemma countRows_colSize:
  "(\<And>r. \<not> stop r) \<Longrightarrow> countRows stop es (colSize pre) = Ok (colSize (pre @ es))"
  by (simp add: colSize_def countRows_go)

lemma fst_colSize_0: "length es < 2 ^ 64 \<Longrightarrow> fst (colSize es) = 0 \<longleftrightarrow> es = []"
  by (auto simp: colSize_def word_of_nat_eq_0_iff dest: dvd_imp_le)

text \<open>What a round sees when \<open>pre\<close> has been counted is the rest of the column.\<close>

lemma computeRounds_exact:
  assumes kv: "kv_store (kvOf D) val" and go: "\<And>r. \<not> stop r" and limit: "0 < limit"
    and col: "kv_Seek (kvOf D) db col [] = pre @ post" "length (pre @ post) < 2 ^ 64"
    and key: "pre \<noteq> [] \<Longrightarrow> seekKey = fst (last pre)" and fuel: "length post < fuel"
  shows "computeRounds D db stop limit col fuel seekKey (colSize pre) = Ok (colSize (pre @ post))"
  using col key fuel
proof (induction fuel arbitrary: pre post seekKey)
  case (Suc fuel)
  have es: "(if fst (colSize pre) = 0 then kv_Seek (kvOf D) db col [] else drop 1 (kv_Seek (kvOf D) db col seekKey)) = post"
  proof (cases "pre = []")
    case True
    then show ?thesis using Suc.prems(1) by (simp add: colSize_def)
  next
    case False
    then obtain pre' k v where pre: "pre = pre' @ [(k, v)]" by (metis rev_exhaust surj_pair)
    with Suc.prems have "kv_Seek (kvOf D) db col k = (k, v) # post" "seekKey = k"
      using kv_store.seek_suffix [OF kv, of db col pre' k v post] by simp_all
    moreover have "fst (colSize pre) \<noteq> 0" using fst_colSize_0 [of pre] False Suc.prems(2) by simp
    ultimately show ?thesis by simp
  qed
  show ?case
  proof (cases "limit < length post")
    case True
    let ?pre = "pre @ take limit post" and ?post = "drop limit post"
    have ne: "take limit post \<noteq> []" using True limit by auto
    have "computeRounds D db stop limit col fuel (fst (last (take limit post))) (colSize ?pre) = Ok (colSize (?pre @ ?post))"
      using Suc.prems True limit ne by (intro Suc.IH) auto
    with True ne show ?thesis
      unfolding computeRounds.simps(2) es by (simp add: Let_def countRows_colSize [OF go])
  next
    case False
    then show ?thesis
      unfolding computeRounds.simps(2) es by (simp add: Let_def countRows_colSize [OF go])
  qed
qed simp



section \<open>The state on start\<close>

lemma matchColumn_Ok:
  "matchColumn sc nc = Ok c \<Longrightarrow> col_Name c = col_Name nc \<and> col_Version c = col_Version nc"
  by (induction sc) (auto split: if_splits)

lemma matchColumn_find:
  "matchColumn sc nc = (case find (\<lambda>s. col_Name s = col_Name nc) sc of
     None \<Rightarrow> Ok nc
   | Some s \<Rightarrow> if col_Version s \<noteq> dbVersion then Err (ErrMsg ''DB is not compatible.'')
              else Ok (nc\<lparr>col_Rows := col_Rows s, col_KeyBytes := col_KeyBytes s, col_ValueBytes := col_ValueBytes s,
                          col_Updated := col_Updated s\<rparr>))"
  by (induction sc) auto

lemma mapR_Err: "mapR f xs = Err e \<Longrightarrow> \<exists>x \<in> set xs. f x = Err e"
  by (induction xs) (auto simp: bindR_def split: sum.splits)

lemma mapR_map_fst:
  "mapR f xs = Ok ys \<Longrightarrow> (\<And>x y. f x = Ok y \<Longrightarrow> g y = h x) \<Longrightarrow> map g ys = map h xs"
  by (induction xs arbitrary: ys) auto

text \<open>
  A state that loads belongs to the coin of the daemon and has exactly the columns of this
  version, in order, each with the version of the program, and is not synchronised. A stored
  state of another coin, or one with a column of another version, is refused.
\<close>

theorem LoadInternalState_checks:
  assumes "kv_GetCF (kvOf D) db cfDefault internalStateKey = Ok val"
  shows "case LoadInternalState D J rpcCoin db of
      Inr is \<Rightarrow> is_Coin is = rpcCoin \<and> map col_Name (is_DbColumns is) = cfNames
        \<and> (\<forall>c \<in> set (is_DbColumns is). col_Version c = dbVersion)
        \<and> \<not> is_IsSynchronized is \<and> \<not> is_IsMempoolSynchronized is \<and> \<not> is_SyncMode is
        \<and> (dataOf val \<noteq> [] \<longrightarrow> (\<exists>old. UnpackInternalState J (dataOf val) = Ok old \<and> is_Coin old \<in> {[], rpcCoin}
             \<and> is_DbState is = is_DbState old \<and> is_BestHeight is = is_BestHeight old))
    | Inl e \<Rightarrow> dataOf val \<noteq> [] \<and> (case UnpackInternalState J (dataOf val) of
          Inl e' \<Rightarrow> e = e'
        | Inr old \<Rightarrow> is_Coin old \<notin> {[], rpcCoin}
            \<or> (\<exists>name \<in> set cfNames. \<exists>c. find (\<lambda>s. col_Name s = name) (is_DbColumns old) = Some c \<and> col_Version c \<noteq> dbVersion))"
proof -
  define r where "r = (if length (dataOf val) = 0 then Ok (newInternalState rpcCoin)
     else bindR (UnpackInternalState J (dataOf val)) (\<lambda>is.
          if is_Coin is = [] then Ok (is\<lparr>is_Coin := rpcCoin\<rparr>)
          else if is_Coin is \<noteq> rpcCoin then Err (ErrMsg ''Coins do not match.'') else Ok is))"
  define cols where "cols = (\<lambda>is :: InternalState. mapR (\<lambda>name. matchColumn (is_DbColumns is) (newColumn name)) cfNames)"
  have load: "LoadInternalState D J rpcCoin db = bindR r (\<lambda>is. bindR (cols is) (\<lambda>nc.
      Ok (is\<lparr>is_DbColumns := nc, is_IsSynchronized := False, is_IsMempoolSynchronized := False,
             is_LastMempoolSync := zeroTime, is_SyncMode := False\<rparr>)))"
    by (simp add: LoadInternalState_def assms Let_def r_def cols_def)
  show ?thesis
  proof (cases r)
    case (Inl e)
    then show ?thesis
      by (auto simp: load r_def bindR_def split: if_splits sum.splits)
  next
    case (Inr is0)
    then have is0: "is_Coin is0 = rpcCoin"
        "dataOf val \<noteq> [] \<longrightarrow> (\<exists>old. UnpackInternalState J (dataOf val) = Ok old \<and> is_Coin old \<in> {[], rpcCoin}
           \<and> is_DbState is0 = is_DbState old \<and> is_BestHeight is0 = is_BestHeight old \<and> is_DbColumns is0 = is_DbColumns old)"
        "dataOf val = [] \<Longrightarrow> is_DbColumns is0 = []"
      by (auto simp: r_def newInternalState_def split: if_splits)
    show ?thesis
    proof (cases "cols is0")
      case (Inl e)
      then obtain name where name: "name \<in> set cfNames" "matchColumn (is_DbColumns is0) (newColumn name) = Err e"
        unfolding cols_def using mapR_Err by metis
      then obtain c where "find (\<lambda>s. col_Name s = name) (is_DbColumns is0) = Some c" "col_Version c \<noteq> dbVersion"
        by (auto simp: matchColumn_find newColumn_def split: option.splits if_splits)
      moreover have "dataOf val \<noteq> []" using calculation(1) is0(3) by fastforce
      moreover have "LoadInternalState D J rpcCoin db = Err e" using Inl \<open>r = Ok is0\<close> by (simp add: load)
      ultimately show ?thesis using name(1) is0(2) by (auto intro!: bexI [of _ name])
    next
      case (Inr nc)
      note nc = Inr [unfolded cols_def]
      have "map col_Name nc = map (\<lambda>x. x) cfNames"
        by (rule mapR_map_fst [OF nc]) (auto dest!: matchColumn_Ok simp: newColumn_def)
      moreover have "map col_Version nc = map (\<lambda>_. dbVersion) cfNames"
        by (rule mapR_map_fst [OF nc]) (auto dest!: matchColumn_Ok simp: newColumn_def)
      then have "set (map col_Version nc) \<subseteq> {dbVersion}" by (simp only: set_map) auto
      ultimately have "map col_Name nc = cfNames" "\<forall>c \<in> set nc. col_Version c = dbVersion" by auto
      with Inr is0 \<open>r = Ok is0\<close> show ?thesis by (auto simp: load)
    qed
  qed
qed

text \<open>Applied at an empty database, which gets the seven columns.\<close>

theorem LoadInternalState_checks_witness:
  "let J = \<lparr>isj_Marshal = \<lambda>_. Ok [], isj_Unmarshal = \<lambda>_. Err (ErrMsg ''unexpected end of JSON input'')\<rparr>
   in case LoadInternalState sampleDeps J ''OLC'' [] of
        Inr is \<Rightarrow> is_Coin is = ''OLC'' \<and> map col_Name (is_DbColumns is) = cfNames | Inl _ \<Rightarrow> False"
proof -
  let ?J = "\<lparr>isj_Marshal = \<lambda>_. Ok [], isj_Unmarshal = \<lambda>_. Err (ErrMsg ''unexpected end of JSON input'')\<rparr>"
  have "kv_GetCF (kvOf sampleDeps) [] cfDefault internalStateKey = Ok None"
    by (simp add: sampleDeps_def alistStore_def)
  from LoadInternalState_checks [OF this, where J = ?J and rpcCoin = "''OLC''"] show ?thesis
    by (auto simp: Let_def dataOf_def split: sum.splits)
qed

section \<open>The cache answers what it stored\<close>

lemma addStats_db: "addStats now c r k v d = Ok d' \<Longrightarrow> d_db d' = d_db d"
  by (auto simp: addStats_def split: option.splits)


definition cachedTx :: Tx where
  "cachedTx = \<lparr>tx_Hex = [], tx_Txid = ''01'', tx_Version = 1, tx_LockTime = 0, tx_Vin = [], tx_Vout = [],
     tx_Confirmations = 2, tx_Time = 0, tx_Blocktime = 0, tx_VShieldIn = [], tx_VShieldOut = [], tx_ShieldValBal = 0,
     tx_CoinSpecificData = None\<rparr>"

definition cacheDeps :: "alist_db deps" where
  "cacheDeps = sampleDeps\<lparr>parserOf := sampleParser\<lparr>cp_PackTx := \<lambda>_ _ _. Ok [1, 2, 3, 4, 5], cp_UnpackTx := \<lambda>_. Ok (cachedTx, 3)\<rparr>\<rparr>"

definition cacheChain :: block_chain where
  "cacheChain = \<lparr>bc_GetBestBlockHash = Err ErrBlockNotFound, bc_GetBestBlockHeight = Ok 9, bc_GetBlockHash = \<lambda>_. Err ErrBlockNotFound,
     bc_GetBlock = \<lambda>_ _. Err ErrBlockNotFound, bc_GetTransaction = \<lambda>_. Ok cachedTx,
     bc_GetTransactionForMempool = \<lambda>_. Err ErrTxNotFound, bc_GetMempoolTransactions = Ok []\<rparr>"

definition cacheRocks :: "alist_db RocksDB" where
  "cacheRocks = \<lparr>d_db = [((cfTxAddresses, [1]), [3, 0, 1, 2, 9, 9, 1, 7, 0, 0, 0])],
     d_is = Some ((newInternalState ''OLC'')\<lparr>is_DbColumns := map newColumn cfNames, is_BestHeight := 9\<rparr>),
     d_cbs = \<lparr>cbs_txAddressesHit = 0, cbs_txAddressesMiss = 0, cbs_balancesHit = 0, cbs_balancesMiss = 0\<rparr>\<rparr>"


end
