(* ===== verification/Mempool.thy ===== *)
theory Mempool
  imports Chain "HOL-Library.Multiset" "HOL-Library.Char_ord"
begin

text \<open>
  The transactions that are not yet in a block (\<open>src/bchain/basemempool.go\<close>,
  \<open>src/bchain/mempool_bitcoin_type.go\<close>): the entries by transaction, the index by address, and
  \<open>Resync\<close>, which hands transactions to worker goroutines over channels and stores what comes
  back. The goroutines are a step relation, so that the theorems hold of every interleaving.
\<close>

section \<open>Entries\<close>

record addrIndex =
  ai_addrDesc :: bytes
  ai_n :: int32

record txEntry =
  te_addrIndexes :: "addrIndex list"
  te_time :: u32

record BaseMempool =
  mp_txEntries :: "(string, txEntry) gomap"
  mp_addrDescToTx :: "(bytes, Outpoint list) gomap"

definition NewMempoolBitcoinType :: BaseMempool where
  "NewMempoolBitcoinType = \<lparr>mp_txEntries = [], mp_addrDescToTx = []\<rparr>"

text \<open>\<open>m.addrDescToTx[s]\<close>: nil when there is no such key.\<close>

definition outpointsAt :: "(bytes, Outpoint list) gomap \<Rightarrow> bytes \<Rightarrow> Outpoint list" where
  "outpointsAt m a = (case mapGet m a of None \<Rightarrow> [] | Some os \<Rightarrow> os)"

definition GetAddrDescTransactions_mempool :: "AddressDescriptor \<Rightarrow> BaseMempool \<Rightarrow> Outpoint list" where
  "GetAddrDescTransactions_mempool addrDesc m = rev (outpointsAt (mp_addrDescToTx m) addrDesc)"

definition GetTransactions_mempool :: "chain_parser \<Rightarrow> string \<Rightarrow> BaseMempool \<Rightarrow> Outpoint list res" where
  "GetTransactions_mempool P address m =
     bindR (ValidateAddressLength address) (\<lambda>_.
     bindR (cp_GetAddrDescFromAddress P address) (\<lambda>addrDesc.
     Ok (GetAddrDescTransactions_mempool addrDesc m)))"

text \<open>The order of \<open>MempoolTxidEntries\<close>, newest first, and \<open>sort.Sort\<close> by it.\<close>

definition Less :: "MempoolTxidEntry \<Rightarrow> MempoolTxidEntry \<Rightarrow> bool" where
  "Less a b = (if mte_Time a = mte_Time b then mte_Txid a > mte_Txid b else mte_Time a > mte_Time b)"

fun insertEntry :: "MempoolTxidEntry \<Rightarrow> MempoolTxidEntry list \<Rightarrow> MempoolTxidEntry list" where
  "insertEntry e [] = [e]"
| "insertEntry e (x # xs) = (if Less x e then x # insertEntry e xs else e # x # xs)"

definition sortEntries :: "MempoolTxidEntry list \<Rightarrow> MempoolTxidEntry list" where
  "sortEntries es = foldr insertEntry es []"

definition GetAllEntries :: "BaseMempool \<Rightarrow> MempoolTxidEntry list" where
  "GetAllEntries m = sortEntries (map (\<lambda>(txid, entry). \<lparr>mte_Txid = txid, mte_Time = te_time entry\<rparr>) (mp_txEntries m))"

definition GetTransactionTime :: "string \<Rightarrow> BaseMempool \<Rightarrow> u32" where
  "GetTransactionTime txid m = (case mapGet (mp_txEntries m) txid of None \<Rightarrow> 0 | Some e \<Rightarrow> te_time e)"

text \<open>
  The loop of \<open>removeEntryFromMempool\<close>. The new slice is made with one element less of room, which
  panics for an empty slice.
\<close>

definition removeOutpoints :: "string \<Rightarrow> addrIndex \<Rightarrow> (bytes, Outpoint list) gomap \<Rightarrow> (bytes, Outpoint list) gomap res" where
  "removeOutpoints txid si m =
     (case mapGet m (ai_addrDesc si) of
        None \<Rightarrow> Ok m
      | Some outpoints \<Rightarrow>
          if outpoints = [] then Err (Panic ''makeslice: cap out of range'')
          else let newOutpoints = filter (\<lambda>o'. op_Txid o' \<noteq> txid) outpoints
               in Ok (if newOutpoints \<noteq> [] then mapPut (ai_addrDesc si) newOutpoints m else mapDelete (ai_addrDesc si) m))"

definition removeEntryFromMempool :: "string \<Rightarrow> txEntry \<Rightarrow> BaseMempool \<Rightarrow> BaseMempool res" where
  "removeEntryFromMempool txid entry m =
     bindR (foldR (removeOutpoints txid) (te_addrIndexes entry) (mp_addrDescToTx m)) (\<lambda>a.
     Ok (m\<lparr>mp_txEntries := mapDelete txid (mp_txEntries m), mp_addrDescToTx := a\<rparr>))"

text \<open>The closure \<open>onNewEntry\<close> of \<open>Resync\<close>.\<close>

definition addOutpoint :: "string \<Rightarrow> addrIndex \<Rightarrow> (bytes, Outpoint list) gomap \<Rightarrow> (bytes, Outpoint list) gomap" where
  "addOutpoint txid si m =
     mapPut (ai_addrDesc si) (outpointsAt m (ai_addrDesc si) @ [\<lparr>op_Txid = txid, op_Vout = ai_n si\<rparr>]) m"

definition onNewEntry :: "string \<Rightarrow> txEntry \<Rightarrow> BaseMempool \<Rightarrow> BaseMempool" where
  "onNewEntry txid entry m =
     (if length (te_addrIndexes entry) > 0
      then m\<lparr>mp_txEntries := mapPut txid entry (mp_txEntries m),
             mp_addrDescToTx := fold (addOutpoint txid) (te_addrIndexes entry) (mp_addrDescToTx m)\<rparr>
      else m)"

section \<open>The addresses of a transaction\<close>

text \<open>
  \<open>getInputAddress\<close>: from the index where it knows the output, else from the spent
  transaction. \<open>F\<close> is \<open>AddrDescForOutpoint\<close>, if set; it returns nil as \<open>None\<close>. The result
  \<open>None\<close> is the nil pointer of an address that could not be found.
\<close>

definition getInputAddress :: "block_chain \<Rightarrow> chain_parser \<Rightarrow> (Outpoint \<Rightarrow> AddressDescriptor option) option \<Rightarrow> Outpoint
    \<Rightarrow> addrIndex option res" where
  "getInputAddress B P F input =
     (case (case F of None \<Rightarrow> None | Some f \<Rightarrow> f input) of
        Some addrDesc \<Rightarrow> Ok (Some \<lparr>ai_addrDesc = addrDesc, ai_n = NOT (op_Vout input)\<rparr>)
      | None \<Rightarrow>
          catchR (bc_GetTransactionForMempool B (op_Txid input)) (\<lambda>_. Ok None) (\<lambda>itx.
          if sint (op_Vout input) \<ge> int (length (tx_Vout itx)) then Ok None
          else bindR (indexR (tx_Vout itx) (sint (op_Vout input))) (\<lambda>out.
               catchR (cp_GetAddrDescFromVout P out) (\<lambda>_. Ok None) (\<lambda>addrDesc.
               Ok (Some \<lparr>ai_addrDesc = addrDesc, ai_n = NOT (op_Vout input)\<rparr>)))))"

definition outputAddress :: "chain_parser \<Rightarrow> Vout \<Rightarrow> addrIndex option res" where
  "outputAddress P output =
     catchR (cp_GetAddrDescFromVout P output) (\<lambda>_. Ok None) (\<lambda>addrDesc.
     Ok (if length addrDesc > 0 then Some \<lparr>ai_addrDesc = addrDesc, ai_n = vout_N output\<rparr> else None))"

definition found :: "addrIndex option list \<Rightarrow> addrIndex list" where
  "found xs = List.map_filter id xs"

definition inputOutpoints :: "Tx \<Rightarrow> Outpoint list" where
  "inputOutpoints tx =
     map (\<lambda>v. \<lparr>op_Txid = vin_Txid v, op_Vout = vin_Vout v\<rparr>) (filter (\<lambda>v. vin_Coinbase v = []) (tx_Vin tx))"

text \<open>
  \<open>getTxAddrs\<close>: the addresses of the outputs in order, then those of the inputs in the order
  in which the subworkers answer, which is the permutation \<open>arrive\<close>. \<open>None\<close> is \<open>nil, false\<close>.
\<close>

definition getTxAddrs :: "block_chain \<Rightarrow> chain_parser \<Rightarrow> (Outpoint \<Rightarrow> AddressDescriptor option) option
    \<Rightarrow> (addrIndex list \<Rightarrow> addrIndex list) \<Rightarrow> string \<Rightarrow> addrIndex list option res" where
  "getTxAddrs B P F arrive txid =
     catchR (bc_GetTransactionForMempool B txid) (\<lambda>_. Ok None) (\<lambda>tx.
     bindR (mapR (outputAddress P) (tx_Vout tx)) (\<lambda>outs.
     bindR (mapR (getInputAddress B P F) (inputOutpoints tx)) (\<lambda>ins.
     Ok (Some (found outs @ arrive (found ins))))))"

text \<open>What a worker of \<open>NewMempoolBitcoinType\<close> sends for a transaction.\<close>

definition workerResult :: "block_chain \<Rightarrow> chain_parser \<Rightarrow> (Outpoint \<Rightarrow> AddressDescriptor option) option
    \<Rightarrow> (addrIndex list \<Rightarrow> addrIndex list) \<Rightarrow> string \<Rightarrow> addrIndex list res" where
  "workerResult B P F arrive txid =
     bindR (getTxAddrs B P F arrive txid) (\<lambda>io. Ok (case io of None \<Rightarrow> [] | Some io \<Rightarrow> io))"

section \<open>Resync as steps of goroutines\<close>

text \<open>
  The state while \<open>Resync\<close> collects: what is left of the list, the transaction it waits to send
  (\<open>cur\<close>), the buffered channels (one element each), the transactions the workers have in hand
  and the number of results outstanding. The last loop of the collection counts up to
  \<open>dispatched\<close>; here \<open>dispatched\<close> counts down.
\<close>

record resync =
  rs_mp :: BaseMempool
  rs_todo :: "string list"
  rs_cur :: "string option"
  rs_txsMap :: "(string, unit) gomap"
  rs_chanTxid :: "string list"
  rs_busy :: "string list"
  rs_chanAddrIndex :: "(string \<times> addrIndex list) list"
  rs_dispatched :: nat

definition resyncStart :: "string list \<Rightarrow> BaseMempool \<Rightarrow> resync" where
  "resyncStart txs m = \<lparr>rs_mp = m, rs_todo = txs, rs_cur = None, rs_txsMap = [], rs_chanTxid = [], rs_busy = [],
     rs_chanAddrIndex = [], rs_dispatched = 0\<rparr>"

inductive resync_step :: "nat \<Rightarrow> (string \<Rightarrow> addrIndex list \<Rightarrow> bool) \<Rightarrow> u32 \<Rightarrow> resync \<Rightarrow> resync \<Rightarrow> bool"
  for workers :: nat and result :: "string \<Rightarrow> addrIndex list \<Rightarrow> bool" and txTime :: u32 where
  range_known:
    "rs_todo s = t # ts \<Longrightarrow> rs_cur s = None \<Longrightarrow> mapGet (mp_txEntries (rs_mp s)) t \<noteq> None
     \<Longrightarrow> resync_step workers result txTime s (s\<lparr>rs_todo := ts, rs_txsMap := mapPut t () (rs_txsMap s)\<rparr>)"
| range_new:
    "rs_todo s = t # ts \<Longrightarrow> rs_cur s = None \<Longrightarrow> mapGet (mp_txEntries (rs_mp s)) t = None
     \<Longrightarrow> resync_step workers result txTime s (s\<lparr>rs_todo := ts, rs_txsMap := mapPut t () (rs_txsMap s), rs_cur := Some t\<rparr>)"
| send:
    "rs_cur s = Some t \<Longrightarrow> length (rs_chanTxid s) < 1
     \<Longrightarrow> resync_step workers result txTime s
           (s\<lparr>rs_cur := None, rs_chanTxid := rs_chanTxid s @ [t], rs_dispatched := rs_dispatched s + 1\<rparr>)"
| collect:
    "rs_chanAddrIndex s = (t, io) # rest \<Longrightarrow> rs_cur s \<noteq> None \<or> rs_todo s = [] \<and> rs_dispatched s > 0
     \<Longrightarrow> resync_step workers result txTime s
           (s\<lparr>rs_mp := onNewEntry t \<lparr>te_addrIndexes = io, te_time = txTime\<rparr> (rs_mp s), rs_chanAddrIndex := rest,
              rs_dispatched := rs_dispatched s - 1\<rparr>)"
| worker_take:
    "rs_chanTxid s = t # q \<Longrightarrow> length (rs_busy s) < workers
     \<Longrightarrow> resync_step workers result txTime s (s\<lparr>rs_chanTxid := q, rs_busy := t # rs_busy s\<rparr>)"
| worker_done:
    "rs_busy s = us @ t # vs \<Longrightarrow> result t io \<Longrightarrow> length (rs_chanAddrIndex s) < 1
     \<Longrightarrow> resync_step workers result txTime s
           (s\<lparr>rs_busy := us @ vs, rs_chanAddrIndex := rs_chanAddrIndex s @ [(t, io)]\<rparr>)"

definition collected :: "resync \<Rightarrow> bool" where
  "collected s \<longleftrightarrow> rs_todo s = [] \<and> rs_cur s = None \<and> rs_dispatched s = 0"

text \<open>The last loop of \<open>Resync\<close>, over the entries that the node no longer has.\<close>

definition cleanup :: "resync \<Rightarrow> BaseMempool res" where
  "cleanup s = foldR (\<lambda>(txid, entry) m.
     if mapGet (rs_txsMap s) txid = None then removeEntryFromMempool txid entry m else Ok m)
     (mp_txEntries (rs_mp s)) (rs_mp s)"

text \<open>
  The results of the workers for the chain: any order in which subworkers may answer.
\<close>

definition results :: "block_chain \<Rightarrow> chain_parser \<Rightarrow> (Outpoint \<Rightarrow> AddressDescriptor option) option
    \<Rightarrow> string \<Rightarrow> addrIndex list \<Rightarrow> bool" where
  "results B P F t io \<longleftrightarrow> (\<exists>arrive. (\<forall>xs. mset (arrive xs) = mset xs) \<and> workerResult B P F arrive t = Ok io)"

text \<open>
  \<open>Resync\<close> as a relation: it fails with the node, or ends in a mempool that some run of the
  goroutines collected and the last loop cleaned up.
\<close>

inductive Resync :: "block_chain \<Rightarrow> chain_parser \<Rightarrow> (Outpoint \<Rightarrow> AddressDescriptor option) option \<Rightarrow> nat \<Rightarrow> u32
    \<Rightarrow> BaseMempool \<Rightarrow> BaseMempool \<Rightarrow> nat res \<Rightarrow> bool"
  for B P F workers txTime m where
  fails: "bc_GetMempoolTransactions B = Err e \<Longrightarrow> Resync B P F workers txTime m m (Err e)"
| synced: "bc_GetMempoolTransactions B = Ok txs
    \<Longrightarrow> (resync_step workers (results B P F) txTime)\<^sup>*\<^sup>* (resyncStart txs m) s \<Longrightarrow> collected s
    \<Longrightarrow> cleanup s = Ok m' \<Longrightarrow> Resync B P F workers txTime m m' (Ok (length (mp_txEntries m')))"

section \<open>The abstract index\<close>

text \<open>
  What the index by address should hold: for an address, one outpoint for every index that an
  entry lists for it.
\<close>

definition entryOutpoints :: "string \<Rightarrow> addrIndex list \<Rightarrow> bytes \<Rightarrow> Outpoint list" where
  "entryOutpoints t io a = map (\<lambda>si. \<lparr>op_Txid = t, op_Vout = ai_n si\<rparr>) (filter (\<lambda>si. ai_addrDesc si = a) io)"

fun specOutpoints :: "(string, txEntry) gomap \<Rightarrow> bytes \<Rightarrow> Outpoint multiset" where
  "specOutpoints [] a = {#}"
| "specOutpoints ((t, e) # es) a = mset (entryOutpoints t (te_addrIndexes e) a) + specOutpoints es a"

definition noEmpty :: "(bytes, Outpoint list) gomap \<Rightarrow> bool" where
  "noEmpty m \<longleftrightarrow> (\<forall>a. mapGet m a \<noteq> Some [])"

definition memInv :: "BaseMempool \<Rightarrow> bool" where
  "memInv m \<longleftrightarrow> wfMap (mp_txEntries m) \<and> wfMap (mp_addrDescToTx m)
     \<and> (\<forall>a. mset (outpointsAt (mp_addrDescToTx m) a) = specOutpoints (mp_txEntries m) a)
     \<and> noEmpty (mp_addrDescToTx m)"

lemma memInv_new [simp]: "memInv NewMempoolBitcoinType"
  by (simp add: memInv_def NewMempoolBitcoinType_def outpointsAt_def noEmpty_def)

lemma mapPut_fresh: "mapGet m k = None \<Longrightarrow> mapPut k v m = m @ [(k, v)]"
  by (induction m) (auto split: if_splits)

lemma specOutpoints_append: "specOutpoints (es @ es') a = specOutpoints es a + specOutpoints es' a"
  by (induction es) (auto simp: add.assoc)

lemma outpointsAt_put [simp]: "outpointsAt (mapPut a os m) b = (if b = a then os else outpointsAt m b)"
  by (simp add: outpointsAt_def)

lemma outpointsAt_fold_add: "outpointsAt (fold (addOutpoint t) io m) a = outpointsAt m a @ entryOutpoints t io a"
  by (induction io arbitrary: m) (auto simp: addOutpoint_def entryOutpoints_def)

lemma wfMap_fold_add: "wfMap m \<Longrightarrow> wfMap (fold (addOutpoint t) io m)"
  by (induction io arbitrary: m) (auto simp: addOutpoint_def)

lemma noEmpty_fold_add: "noEmpty m \<Longrightarrow> noEmpty (fold (addOutpoint t) io m)"
  by (induction io arbitrary: m) (auto simp: addOutpoint_def noEmpty_def)

lemma onNewEntry_entries:
  "mp_txEntries (onNewEntry t e m) = (if te_addrIndexes e = [] then mp_txEntries m else mapPut t e (mp_txEntries m))"
  by (simp add: onNewEntry_def)

lemma onNewEntry_inv:
  assumes "memInv m" "mapGet (mp_txEntries m) t = None"
  shows "memInv (onNewEntry t e m)"
proof (cases "te_addrIndexes e = []")
  case True
  with assms show ?thesis by (simp add: onNewEntry_def)
next
  case False
  let ?a = "fold (addOutpoint t) (te_addrIndexes e) (mp_addrDescToTx m)"
  have "mset (outpointsAt ?a x) = specOutpoints (mapPut t e (mp_txEntries m)) x" for x
    using assms by (simp add: outpointsAt_fold_add memInv_def mapPut_fresh specOutpoints_append)
  then show ?thesis
    using assms(1) False by (simp add: memInv_def onNewEntry_def wfMap_fold_add noEmpty_fold_add)
qed

lemma op_Txid_spec: "o' \<in># specOutpoints es a \<Longrightarrow> op_Txid o' \<in> fst ` set es"
  by (induction es) (auto simp: entryOutpoints_def)

lemma specOutpoints_delete:
  "wfMap es \<Longrightarrow> specOutpoints (mapDelete t es) a = filter_mset (\<lambda>o'. op_Txid o' \<noteq> t) (specOutpoints es a)"
proof (induction es)
  case (Cons x es)
  obtain t' e where x: "x = (t', e)" by (cases x)
  have "filter_mset (\<lambda>o'. op_Txid o' \<noteq> t) (mset (entryOutpoints t' io a))
      = (if t' = t then {#} else mset (entryOutpoints t' io a))" for io
    by (auto simp: entryOutpoints_def filter_mset_eq_conv)
  with Cons show ?case by (auto simp: x wfMap_def)
qed simp

lemma specOutpoints_other:
  "wfMap es \<Longrightarrow> mapGet es t = Some e \<Longrightarrow> a \<notin> ai_addrDesc ` set (te_addrIndexes e)
    \<Longrightarrow> filter_mset (\<lambda>o'. op_Txid o' \<noteq> t) (specOutpoints es a) = specOutpoints es a"
proof (induction es)
  case (Cons x es)
  obtain t' e' where x: "x = (t', e')" by (cases x)
  show ?case
  proof (cases "t' = t")
    case True
    with Cons.prems have "e' = e" "t \<notin> fst ` set es" by (auto simp: x wfMap_def)
    then have "filter_mset (\<lambda>o'. op_Txid o' \<noteq> t) (specOutpoints es a) = specOutpoints es a"
      by (auto simp: filter_mset_eq_conv dest: op_Txid_spec)
    moreover have "entryOutpoints t (te_addrIndexes e) a = []"
      using Cons.prems(3) by (auto simp: entryOutpoints_def filter_empty_conv)
    ultimately show ?thesis using True \<open>e' = e\<close> by (simp add: x)
  next
    case False
    moreover from False Cons.prems have "mapGet es t = Some e" by (simp add: x)
    moreover have "filter_mset (\<lambda>o'. op_Txid o' \<noteq> t) (mset (entryOutpoints t' io a)) = mset (entryOutpoints t' io a)" for io
      using False by (auto simp: entryOutpoints_def filter_mset_eq_conv)
    ultimately show ?thesis using Cons by (simp add: x wfMap_def)
  qed
qed simp

text \<open>Removing an entry takes its outpoints out of every address it lists, and never panics.\<close>

lemma removeOutpoints_step:
  assumes "noEmpty m" "wfMap m"
  obtains m' where "removeOutpoints t si m = Ok m'" "wfMap m'" "noEmpty m'"
    "\<forall>a. outpointsAt m' a = (if a = ai_addrDesc si then filter (\<lambda>o'. op_Txid o' \<noteq> t) (outpointsAt m a) else outpointsAt m a)"
proof (cases "mapGet m (ai_addrDesc si)")
  case None
  with assms show thesis by (intro that [of m]) (auto simp: removeOutpoints_def outpointsAt_def)
next
  case (Some os)
  let ?n = "filter (\<lambda>o'. op_Txid o' \<noteq> t) os"
  let ?m = "if ?n \<noteq> [] then mapPut (ai_addrDesc si) ?n m else mapDelete (ai_addrDesc si) m"
  have "removeOutpoints t si m = Ok ?m"
    using Some assms(1) by (auto simp: removeOutpoints_def Let_def noEmpty_def)
  moreover have "wfMap ?m" "noEmpty ?m"
    using assms by (auto simp: noEmpty_def)
  moreover have "\<forall>a. outpointsAt ?m a
      = (if a = ai_addrDesc si then filter (\<lambda>o'. op_Txid o' \<noteq> t) (outpointsAt m a) else outpointsAt m a)"
    using Some by (auto simp: outpointsAt_def)
  ultimately show thesis by (rule that)
qed

lemma removeOutpoints_fold:
  assumes "noEmpty m" "wfMap m"
  shows "\<exists>m'. foldR (removeOutpoints t) io m = Ok m' \<and> wfMap m' \<and> noEmpty m'
    \<and> (\<forall>a. outpointsAt m' a = (if a \<in> ai_addrDesc ` set io then filter (\<lambda>o'. op_Txid o' \<noteq> t) (outpointsAt m a) else outpointsAt m a))"
  using assms
proof (induction io arbitrary: m)
  case (Cons si io)
  obtain m1 where m1: "removeOutpoints t si m = Ok m1" "wfMap m1" "noEmpty m1"
      "\<forall>a. outpointsAt m1 a = (if a = ai_addrDesc si then filter (\<lambda>o'. op_Txid o' \<noteq> t) (outpointsAt m a) else outpointsAt m a)"
    by (rule removeOutpoints_step [OF Cons.prems])
  from Cons.IH [OF m1(3,2)] m1 show ?case by auto
qed simp

lemma removeEntry_inv:
  assumes "memInv m" "mapGet (mp_txEntries m) t = Some e"
  obtains m' where "removeEntryFromMempool t e m = Ok m'" "memInv m'" "mp_txEntries m' = mapDelete t (mp_txEntries m)"
proof -
  from assms(1) removeOutpoints_fold [of "mp_addrDescToTx m" t "te_addrIndexes e"] obtain a where
      a: "foldR (removeOutpoints t) (te_addrIndexes e) (mp_addrDescToTx m) = Ok a" "wfMap a"
      "noEmpty a"
      "\<forall>x. outpointsAt a x = (if x \<in> ai_addrDesc ` set (te_addrIndexes e)
         then filter (\<lambda>o'. op_Txid o' \<noteq> t) (outpointsAt (mp_addrDescToTx m) x) else outpointsAt (mp_addrDescToTx m) x)"
    by (auto simp: memInv_def)
  have wf: "wfMap (mp_txEntries m)" using assms(1) by (simp add: memInv_def)
  have "mset (outpointsAt a x) = specOutpoints (mapDelete t (mp_txEntries m)) x" for x
    using assms a(4) specOutpoints_other [OF wf assms(2), of x] by (auto simp: specOutpoints_delete [OF wf] memInv_def)
  then show thesis
    using a wf by (intro that) (auto simp: removeEntryFromMempool_def memInv_def)
qed

section \<open>Every interleaving\<close>

definition inFlight :: "resync \<Rightarrow> string list" where
  "inFlight s = rs_chanTxid s @ rs_busy s @ map fst (rs_chanAddrIndex s)"

definition waiting :: "resync \<Rightarrow> string list" where
  "waiting s = (case rs_cur s of None \<Rightarrow> [] | Some t \<Rightarrow> [t]) @ inFlight s"

text \<open>
  The invariant of the collection: no transaction is in two places, the ones on their way have
  no entry, entries that were there stay, new ones are results of the workers, and what left
  the list has an entry, is on its way, or has no addresses.
\<close>

definition rsInv :: "(string \<Rightarrow> addrIndex list \<Rightarrow> bool) \<Rightarrow> u32 \<Rightarrow> string list \<Rightarrow> BaseMempool \<Rightarrow> resync \<Rightarrow> bool" where
  "rsInv result txTime txs m0 s \<longleftrightarrow>
     memInv (rs_mp s) \<and> rs_dispatched s = length (inFlight s)
     \<and> distinct (waiting s @ rs_todo s)
     \<and> (\<forall>t \<in> set (waiting s). mapGet (mp_txEntries (rs_mp s)) t = None)
     \<and> (\<forall>t e. mapGet (mp_txEntries m0) t = Some e \<longrightarrow> mapGet (mp_txEntries (rs_mp s)) t = Some e)
     \<and> (\<forall>t e. mapGet (mp_txEntries (rs_mp s)) t = Some e \<longrightarrow> mapGet (mp_txEntries m0) t = Some e
           \<or> result t (te_addrIndexes e) \<and> te_addrIndexes e \<noteq> [] \<and> te_time e = txTime)
     \<and> (\<forall>t io. (t, io) \<in> set (rs_chanAddrIndex s) \<longrightarrow> result t io)
     \<and> set (waiting s) \<union> set (rs_todo s) \<subseteq> set txs
     \<and> (\<forall>t \<in> set txs. mapGet (rs_txsMap s) t = None \<longleftrightarrow> t \<in> set (rs_todo s))
     \<and> (\<forall>t. t \<notin> set txs \<longrightarrow> mapGet (rs_txsMap s) t = None)
     \<and> (\<forall>t \<in> set txs. t \<in> set (rs_todo s) \<or> t \<in> set (waiting s) \<or> mapGet (mp_txEntries (rs_mp s)) t \<noteq> None \<or> result t [])"

lemma rsInv_start: "memInv m \<Longrightarrow> distinct txs \<Longrightarrow> rsInv result txTime txs m (resyncStart txs m)"
  by (auto simp: rsInv_def resyncStart_def inFlight_def waiting_def)

lemma rsInv_step:
  assumes "resync_step workers result txTime s s'" "rsInv result txTime txs m0 s"
  shows "rsInv result txTime txs m0 s'"
  using assms
proof (cases rule: resync_step.cases)
  case (range_known t ts)
  then show ?thesis using assms(2) by (auto simp: rsInv_def inFlight_def waiting_def)
next
  case (range_new t ts)
  then show ?thesis using assms(2) by (auto simp: rsInv_def inFlight_def waiting_def)
next
  case (send t)
  then show ?thesis using assms(2) by (auto simp: rsInv_def inFlight_def waiting_def)
next
  case (collect t io rest)
  let ?e = "\<lparr>te_addrIndexes = io, te_time = txTime\<rparr>"
  have t: "t \<in> set (waiting s)" "mapGet (mp_txEntries (rs_mp s)) t = None" "result t io" "t \<in> set txs"
    using collect(2) assms(2) by (auto simp: rsInv_def inFlight_def waiting_def)
  have "memInv (onNewEntry t ?e (rs_mp s))"
    using t assms(2) by (intro onNewEntry_inv) (simp_all add: rsInv_def)
  moreover have "mapGet (mp_txEntries (onNewEntry t ?e (rs_mp s))) = (mapGet (mp_txEntries (rs_mp s)))(t := if io = [] then None else Some ?e)"
    using t by (auto simp: onNewEntry_entries)
  moreover have "mapGet (mp_txEntries m0) t = None"
    using t(2) assms(2) unfolding rsInv_def by (metis option.distinct(1) option.exhaust)
  ultimately show ?thesis
    using collect t assms(2) by (auto simp: rsInv_def inFlight_def waiting_def)
next
  case (worker_take t q)
  then show ?thesis using assms(2) by (auto simp: rsInv_def inFlight_def waiting_def)
next
  case (worker_done us t vs io)
  then show ?thesis using assms(2) by (auto simp: rsInv_def inFlight_def waiting_def)
qed

lemma rsInv_reach:
  "(resync_step workers result txTime)\<^sup>*\<^sup>* s s' \<Longrightarrow> rsInv result txTime txs m0 s \<Longrightarrow> rsInv result txTime txs m0 s'"
  by (induction rule: rtranclp_induct) (auto intro: rsInv_step)

text \<open>A step brings a transaction one place further.\<close>

definition remaining :: "resync \<Rightarrow> nat" where
  "remaining s = 5 * length (rs_todo s) + (case rs_cur s of None \<Rightarrow> 0 | Some _ \<Rightarrow> 4) + 3 * length (rs_chanTxid s)
     + 2 * length (rs_busy s) + length (rs_chanAddrIndex s)"

lemma resync_step_remaining: "resync_step workers result txTime s s' \<Longrightarrow> remaining s' < remaining s"
  by (induction rule: resync_step.induct) (auto simp: remaining_def)

lemma resync_progress:
  assumes "rsInv result txTime txs m0 s" "0 < workers" "\<forall>t \<in> set txs. \<exists>io. result t io" "\<not> collected s"
  shows "\<exists>s'. resync_step workers result txTime s s'"
proof (cases "rs_cur s = None \<and> rs_todo s \<noteq> []")
  case True
  then obtain t ts where "rs_todo s = t # ts" "rs_cur s = None" by (auto simp: neq_Nil_conv)
  then show ?thesis
    by (cases "mapGet (mp_txEntries (rs_mp s)) t") (auto intro: range_known range_new)
next
  case False
  then have at: "rs_cur s \<noteq> None \<or> rs_todo s = [] \<and> rs_dispatched s > 0"
    using assms(4) by (auto simp: collected_def)
  consider t io rest where "rs_chanAddrIndex s = (t, io) # rest" | t vs where "rs_chanAddrIndex s = []" "rs_busy s = t # vs"
    | t q where "rs_busy s = []" "rs_chanTxid s = t # q" | "rs_chanAddrIndex s = []" "rs_busy s = []" "rs_chanTxid s = []"
    by (metis list.exhaust surj_pair)
  then show ?thesis
  proof cases
    case 1
    with at show ?thesis using collect [of s t io rest workers result txTime] by auto
  next
    case 2
    then have "t \<in> set txs" using assms(1) by (auto simp: rsInv_def waiting_def inFlight_def)
    then obtain io where "result t io" using assms(3) by auto
    with 2 show ?thesis using worker_done [of s "[]" t vs result io] by auto
  next
    case 3
    with assms(2) show ?thesis using worker_take [of s t q workers result txTime] by auto
  next
    case 4
    with assms(1) have "rs_dispatched s = 0" by (simp add: rsInv_def inFlight_def)
    with at 4 show ?thesis using send [of s _ workers result txTime] by auto
  qed
qed

lemma resync_finishes:
  assumes "rsInv result txTime txs m0 s" "0 < workers" "\<forall>t \<in> set txs. \<exists>io. result t io"
  shows "\<exists>s'. (resync_step workers result txTime)\<^sup>*\<^sup>* s s' \<and> collected s'"
  using assms(1)
proof (induction "remaining s" arbitrary: s rule: less_induct)
  case less
  show ?case
  proof (cases "collected s")
    case False
    from resync_progress [OF less.prems assms(2,3) False] obtain s1 where s1: "resync_step workers result txTime s s1" by auto
    from less.hyps [OF resync_step_remaining [OF s1] rsInv_step [OF s1 less.prems]] s1 show ?thesis
      by (meson converse_rtranclp_into_rtranclp)
  qed auto
qed

lemma cleanup_fold:
  assumes "memInv m" "distinct (map fst es)" "\<forall>(t, e) \<in> set es. mapGet (mp_txEntries m) t = Some e"
  shows "\<exists>m'. foldR (\<lambda>(txid, entry) m. if mapGet txsMap txid = None then removeEntryFromMempool txid entry m else Ok m) es m = Ok m'
    \<and> memInv m' \<and> (\<forall>t. mapGet (mp_txEntries m') t
         = (if t \<in> fst ` set es \<and> mapGet txsMap t = None then None else mapGet (mp_txEntries m) t))"
  using assms
proof (induction es arbitrary: m)
  case (Cons x es)
  obtain t e where x: "x = (t, e)" by (cases x)
  show ?case
  proof (cases "mapGet txsMap t = None")
    case True
    from Cons.prems x obtain m1 where m1: "removeEntryFromMempool t e m = Ok m1" "memInv m1"
        "mp_txEntries m1 = mapDelete t (mp_txEntries m)"
      using removeEntry_inv [of m t e] by auto
    have "\<forall>(t, e) \<in> set es. mapGet (mp_txEntries m1) t = Some e"
      using Cons.prems m1(3) x by (auto simp: rev_image_eqI)
    from Cons.IH [OF m1(2) _ this] Cons.prems m1 True x show ?thesis by auto
  next
    case False
    from Cons.IH [OF Cons.prems(1)] Cons.prems False x show ?thesis by auto
  qed
qed simp

lemma cleanup_ok:
  assumes "memInv (rs_mp s)"
  obtains m' where "cleanup s = Ok m'" "memInv m'"
    "\<forall>t. mapGet (mp_txEntries m') t = (if mapGet (rs_txsMap s) t = None then None else mapGet (mp_txEntries (rs_mp s)) t)"
proof -
  have "distinct (map fst (mp_txEntries (rs_mp s)))" using assms by (simp add: memInv_def wfMap_def)
  moreover have "\<forall>(t, e) \<in> set (mp_txEntries (rs_mp s)). mapGet (mp_txEntries (rs_mp s)) t = Some e"
    using calculation by auto
  ultimately obtain m' where "cleanup s = Ok m'" "memInv m'" "\<forall>t. mapGet (mp_txEntries m') t
         = (if t \<in> fst ` set (mp_txEntries (rs_mp s)) \<and> mapGet (rs_txsMap s) t = None then None else mapGet (mp_txEntries (rs_mp s)) t)"
    using cleanup_fold [OF assms, of "mp_txEntries (rs_mp s)" "rs_txsMap s"] by (auto simp: cleanup_def)
  moreover have "mapGet (mp_txEntries (rs_mp s)) t = None" if "t \<notin> fst ` set (mp_txEntries (rs_mp s))" for t
    using that by (simp add: map_of_eq_None_iff)
  ultimately show thesis by (intro that) auto
qed

section \<open>Properties\<close>

text \<open>
  C17: however the goroutines interleave, when \<open>Resync\<close> returns the mempool holds exactly the
  transactions of the node that have addresses: the ones it knew keep their entry and the time
  they were first seen, new ones have the addresses the workers found and the time of this
  run, all others are gone; and the index by address lists, for every address, exactly the
  outpoints of these entries.
\<close>

theorem Resync_result:
  assumes run: "Resync B P F workers txTime m m' (Ok n)" and inv: "memInv m"
    and txs: "bc_GetMempoolTransactions B = Ok txs" "distinct txs"
  shows "memInv m' \<and> n = length (mp_txEntries m')
    \<and> (\<forall>t. case mapGet (mp_txEntries m') t of
          None \<Rightarrow> t \<notin> set txs \<or> mapGet (mp_txEntries m) t = None \<and> results B P F t []
        | Some e \<Rightarrow> t \<in> set txs \<and> (mapGet (mp_txEntries m) t = Some e
            \<or> mapGet (mp_txEntries m) t = None \<and> results B P F t (te_addrIndexes e) \<and> te_addrIndexes e \<noteq> [] \<and> te_time e = txTime))"
proof -
  from run txs(1) obtain s where s: "(resync_step workers (results B P F) txTime)\<^sup>*\<^sup>* (resyncStart txs m) s" "collected s"
      "cleanup s = Ok m'" "n = length (mp_txEntries m')"
    by (auto elim: Resync.cases)
  have reach: "rsInv (results B P F) txTime txs m s"
    by (rule rsInv_reach [OF s(1) rsInv_start [OF inv txs(2)]])
  then have "memInv (rs_mp s)" by (simp add: rsInv_def)
  then obtain m1 where m1: "cleanup s = Ok m1" "memInv m1"
      "\<forall>t. mapGet (mp_txEntries m1) t = (if mapGet (rs_txsMap s) t = None then None else mapGet (mp_txEntries (rs_mp s)) t)"
    by (rule cleanup_ok)
  have none: "rs_todo s = []" "waiting s = []"
    using s(2) reach by (auto simp: collected_def rsInv_def waiting_def)
  have listed: "mapGet (rs_txsMap s) t = None \<longleftrightarrow> t \<notin> set txs" for t
    using reach none by (auto simp: rsInv_def)
  have old: "mapGet (mp_txEntries m) t = Some e \<Longrightarrow> mapGet (mp_txEntries (rs_mp s)) t = Some e" for t e
    using reach by (simp add: rsInv_def)
  have new: "mapGet (mp_txEntries (rs_mp s)) t = Some e \<Longrightarrow> mapGet (mp_txEntries m) t = Some e
      \<or> results B P F t (te_addrIndexes e) \<and> te_addrIndexes e \<noteq> [] \<and> te_time e = txTime" for t e
    using reach by (simp add: rsInv_def)
  have noAddrs: "t \<in> set txs \<Longrightarrow> mapGet (mp_txEntries (rs_mp s)) t = None \<Longrightarrow> results B P F t []" for t
    using reach none by (auto simp: rsInv_def)
  have "case mapGet (mp_txEntries m') t of
          None \<Rightarrow> t \<notin> set txs \<or> mapGet (mp_txEntries m) t = None \<and> results B P F t []
        | Some e \<Rightarrow> t \<in> set txs \<and> (mapGet (mp_txEntries m) t = Some e
            \<or> mapGet (mp_txEntries m) t = None \<and> results B P F t (te_addrIndexes e) \<and> te_addrIndexes e \<noteq> [] \<and> te_time e = txTime)" for t
  proof (cases "mapGet (mp_txEntries (rs_mp s)) t")
    case None
    from None old [of t] have "mapGet (mp_txEntries m) t = None" by (cases "mapGet (mp_txEntries m) t") auto
    moreover have "results B P F t []" if "t \<in> set txs" by (rule noAddrs [OF that None])
    ultimately show ?thesis using None m1 s(3) by (auto simp: listed)
  next
    case (Some e)
    with old [of t] have "mapGet (mp_txEntries m) t = None \<or> mapGet (mp_txEntries m) t = Some e"
      by (cases "mapGet (mp_txEntries m) t") auto
    with Some new [OF Some] m1 s(3) show ?thesis by (auto simp: listed)
  qed
  with m1 s show ?thesis by auto
qed


definition sampleMempoolTx :: Tx where
  "sampleMempoolTx = \<lparr>tx_Hex = [], tx_Txid = ''aa'', tx_Version = 1, tx_LockTime = 0, tx_Vin = [],
     tx_Vout = [\<lparr>vout_ValueSat = 5, vout_JsonValue = [], vout_N = 0, vout_ScriptPubKeyHex = [], vout_Addresses = []\<rparr>],
     tx_Confirmations = 0, tx_Time = 0, tx_Blocktime = 0, tx_VShieldIn = [], tx_VShieldOut = [], tx_ShieldValBal = 0,
     tx_CoinSpecificData = None\<rparr>"

definition mempoolChain :: block_chain where
  "mempoolChain = \<lparr>bc_GetBestBlockHash = Err ErrBlockNotFound, bc_GetBestBlockHeight = Ok 9, bc_GetBlockHash = \<lambda>_. Err ErrBlockNotFound,
     bc_GetBlock = \<lambda>_ _. Err ErrBlockNotFound, bc_GetTransaction = \<lambda>_. Err ErrTxNotFound,
     bc_GetTransactionForMempool = \<lambda>_. Ok sampleMempoolTx, bc_GetMempoolTransactions = Ok [''aa'']\<rparr>"

text \<open>A parser of which only the descriptor of an output is used.\<close>

definition scriptParser :: chain_parser where
  "scriptParser = \<lparr>cp_KeepBlockAddresses = 2, cp_AmountDecimals = 8, cp_GetAddrDescFromVout = \<lambda>_. Ok [7],
     cp_GetAddrDescFromAddress = \<lambda>_. Err ErrAddressMissing, cp_GetAddressesFromAddrDesc = \<lambda>_. Err ErrAddressMissing,
     cp_IsAddrDescIndexable = \<lambda>_. True, cp_PackedTxidLen = 1, cp_PackTxid = \<lambda>_. Err ErrTxidMissing,
     cp_UnpackTxid = \<lambda>_. Err ErrTxidMissing, cp_PackTx = \<lambda>_ _ _. Err ErrTxidMissing, cp_UnpackTx = \<lambda>_. Err ErrTxidMissing,
     cp_GetAddrDescForUnknownInput = \<lambda>_ _. [], cp_GetValueSatForUnknownInput = \<lambda>_ _. 0,
     cp_PackBlockHash = \<lambda>_. Err ErrTxidMissing, cp_UnpackBlockHash = \<lambda>_. Err ErrTxidMissing\<rparr>"

lemma sample_results:
  "results mempoolChain scriptParser None ''aa'' io \<longleftrightarrow> io = [\<lparr>ai_addrDesc = [7], ai_n = 0\<rparr>]"
proof -
  have eq: "workerResult mempoolChain scriptParser None arrive ''aa'' = Ok ([\<lparr>ai_addrDesc = [7], ai_n = 0\<rparr>] @ arrive [])" for arrive
    by (simp add: workerResult_def getTxAddrs_def mempoolChain_def scriptParser_def sampleMempoolTx_def outputAddress_def
        inputOutpoints_def found_def map_filter_simps)
  have "arrive [] = []" if "\<forall>xs. mset (arrive xs) = mset (xs :: addrIndex list)" for arrive
    using that by (metis mset_zero_iff mset.simps(1))
  then show ?thesis unfolding results_def eq by (auto intro: exI [of _ id])
qed


text \<open>C17 at a run that finds the one transaction of the node.\<close>

theorem Resync_result_witness:
  "\<exists>m'. Resync mempoolChain scriptParser None 2 60 NewMempoolBitcoinType m' (Ok (length (mp_txEntries m')))
    \<and> memInv m' \<and> mapGet (mp_txEntries m') ''aa'' = Some \<lparr>te_addrIndexes = [\<lparr>ai_addrDesc = [7], ai_n = 0\<rparr>], te_time = 60\<rparr>"
proof -
  have txs: "bc_GetMempoolTransactions mempoolChain = Ok [''aa'']" by (simp add: mempoolChain_def)
  have inv: "rsInv (results mempoolChain scriptParser None) 60 [''aa''] NewMempoolBitcoinType (resyncStart [''aa''] NewMempoolBitcoinType)"
    by (rule rsInv_start) simp_all
  obtain s where s: "(resync_step 2 (results mempoolChain scriptParser None) 60)\<^sup>*\<^sup>* (resyncStart [''aa''] NewMempoolBitcoinType) s"
      "collected s"
    using resync_finishes [OF inv, of 2] by (auto simp: sample_results)
  have "memInv (rs_mp s)" using rsInv_reach [OF s(1) inv] by (simp add: rsInv_def)
  then obtain m' where "cleanup s = Ok m'" by (rule cleanup_ok)
  from Resync.synced [OF txs s this]
  have run: "Resync mempoolChain scriptParser None 2 60 NewMempoolBitcoinType m' (Ok (length (mp_txEntries m')))" .
  have "distinct [''aa'']" by simp
  note res = Resync_result [OF run memInv_new txs this]
  note aa = conjunct2 [OF conjunct2 [OF res], THEN spec [of _ "''aa''"]]
  obtain e where e: "mapGet (mp_txEntries m') ''aa'' = Some e" "te_addrIndexes e = [\<lparr>ai_addrDesc = [7], ai_n = 0\<rparr>]" "te_time e = 60"
    using aa by (cases "mapGet (mp_txEntries m') ''aa''") (simp_all add: NewMempoolBitcoinType_def sample_results)
  from e have "e = \<lparr>te_addrIndexes = [\<lparr>ai_addrDesc = [7], ai_n = 0\<rparr>], te_time = 60\<rparr>" by (cases e) simp
  with e(1) run res show ?thesis by auto
qed

section \<open>The list of all entries\<close>

lemma Less_trans: "Less a b \<Longrightarrow> Less b c \<Longrightarrow> Less a c"
  by (auto simp: Less_def split: if_splits)

lemma Less_total: "mte_Txid a \<noteq> mte_Txid b \<Longrightarrow> \<not> Less a b \<Longrightarrow> Less b a"
  by (auto simp: Less_def split: if_splits)

lemma mset_insertEntry [simp]: "mset (insertEntry e xs) = add_mset e (mset xs)"
  by (induction xs) auto

lemma set_insertEntry [simp]: "set (insertEntry e xs) = insert e (set xs)"
  by (metis mset_insertEntry set_mset_add_mset_insert set_mset_mset)

lemma insertEntry_sorted:
  "sorted_wrt Less xs \<Longrightarrow> mte_Txid e \<notin> mte_Txid ` set xs \<Longrightarrow> sorted_wrt Less (insertEntry e xs)"
proof (induction xs)
  case (Cons x xs)
  show ?case
  proof (cases "Less x e")
    case True
    with Cons show ?thesis by auto
  next
    case False
    with Cons.prems have "Less e x" by (auto intro: Less_total)
    with Cons.prems False show ?thesis by (auto intro: Less_trans)
  qed
qed simp

lemma sortEntries_sorted:
  "distinct (map mte_Txid es) \<Longrightarrow> sorted_wrt Less (sortEntries es) \<and> mset (sortEntries es) = mset es"
proof (induction es)
  case (Cons e es)
  then have IH: "sorted_wrt Less (sortEntries es)" "mset (sortEntries es) = mset es" by simp_all
  have "set (sortEntries es) = set es" using IH(2) by (metis set_mset_mset)
  then have "mte_Txid e \<notin> mte_Txid ` set (sortEntries es)" using Cons.prems by auto
  with insertEntry_sorted [OF IH(1) this] IH show ?case by (simp add: sortEntries_def)
qed (simp add: sortEntries_def)

text \<open>
  The list of all entries is strictly ordered, newest first and by transaction id among
  those of one time, and holds every entry of the mempool exactly once.
\<close>

theorem GetAllEntries_sorted:
  assumes "memInv m"
  shows "sorted_wrt Less (GetAllEntries m)
    \<and> mset (GetAllEntries m) = mset (map (\<lambda>(t, e). \<lparr>mte_Txid = t, mte_Time = te_time e\<rparr>) (mp_txEntries m))"
proof -
  have "map mte_Txid (map (\<lambda>(t, e). \<lparr>mte_Txid = t, mte_Time = te_time e\<rparr>) (mp_txEntries m)) = map fst (mp_txEntries m)"
    by auto
  moreover have "distinct (map fst (mp_txEntries m))" using assms by (simp add: memInv_def wfMap_def)
  ultimately show ?thesis
    unfolding GetAllEntries_def by (intro sortEntries_sorted) (simp only:)
qed

text \<open>The order at a mempool of three entries, two of one time.\<close>

theorem GetAllEntries_sorted_witness:
  "let m = fold (\<lambda>(t, time). onNewEntry t \<lparr>te_addrIndexes = [\<lparr>ai_addrDesc = [7], ai_n = 0\<rparr>], te_time = time\<rparr>)
        [(''aa'', 5), (''bb'', 9), (''cc'', 5)] NewMempoolBitcoinType
   in sorted_wrt Less (GetAllEntries m) \<and> map mte_Txid (GetAllEntries m) = [''bb'', ''cc'', ''aa'']"
proof -
  let ?e = "\<lambda>time. \<lparr>te_addrIndexes = [\<lparr>ai_addrDesc = [7], ai_n = 0\<rparr>], te_time = time\<rparr>"
  let ?m = "onNewEntry ''cc'' (?e 5) (onNewEntry ''bb'' (?e 9) (onNewEntry ''aa'' (?e 5) NewMempoolBitcoinType))"
  have inv: "memInv ?m"
    by (intro onNewEntry_inv memInv_new) (simp_all add: onNewEntry_entries NewMempoolBitcoinType_def)
  have "map mte_Txid (GetAllEntries ?m) = [''bb'', ''cc'', ''aa'']" by code_simp
  with GetAllEntries_sorted [OF inv] show ?thesis by simp
qed

end
