(* ===== verification/Bulk.thy ===== *)
theory Bulk
  imports StoredBlocks TxStore
begin

text \<open>
  Bulk connect (\<open>src/db/bulkconnect.go\<close>): the maps of \<open>processAddressesBitcoinType\<close> live on from
  block to block and are written in large batches. The state of processing \<open>ps\<close> is the cache.

  The two writers \<open>parallelStoreTxAddresses\<close> and \<open>parallelStoreBalances\<close> run beside the writer
  of addresses and headers. The three write different columns and touch different parts of the
  state, so their order does not matter; here the two come first. Which entries a partial store
  picks from a Go map is not defined: \<open>order\<close> is the order of the iteration.
\<close>

section \<open>Operations\<close>

record 'db BulkConnect =
  bk_d :: "'db RocksDB"
  bk_bulkAddresses :: "(BlockInfo \<times> addressesMap) list"
  bk_bulkAddressesCount :: nat
  bk_ps :: ps
  bk_height :: u32

definition maxBulkAddresses :: nat where "maxBulkAddresses = 80000"
definition maxBulkTxAddresses :: nat where "maxBulkTxAddresses = 500000"
definition partialStoreAddresses :: nat where "partialStoreAddresses = maxBulkTxAddresses div 10"
definition maxBulkBalances :: nat where "maxBulkBalances = 700000"
definition partialStoreBalances :: nat where "partialStoreBalances = maxBulkBalances div 10"

definition InitBulkConnect :: "'db deps \<Rightarrow> is_json \<Rightarrow> go_time \<Rightarrow> 'db RocksDB \<Rightarrow> 'db RocksDB \<times> 'db BulkConnect res" where
  "InitBulkConnect D J now d =
     (case SetInconsistentState D J now True d of
        (d, Inl e) \<Rightarrow> (d, Err e)
      | (d, Inr _) \<Rightarrow>
          (d, Ok \<lparr>bk_d = d, bk_bulkAddresses = [], bk_bulkAddressesCount = 0, bk_ps = emptyPs (d_cbs d), bk_height = 0\<rparr>))"

text \<open>The orders in which the two maps of the cache are iterated.\<close>

record orders =
  or_txs :: "(bytes \<times> nat) list \<Rightarrow> (bytes \<times> nat) list"
  or_balances :: "(bytes \<times> AddrBalance) list \<Rightarrow> (bytes \<times> AddrBalance) list"

definition completelySpent :: "ps \<Rightarrow> nat \<Rightarrow> bool" where
  "completelySpent st p = list_all to_Spent (ta_Outputs (ps_heap st ! p))"

definition without :: "('k \<times> 'v) list \<Rightarrow> ('k \<times> 'v) list \<Rightarrow> ('k \<times> 'v) list" where
  "without m taken = filter (\<lambda>kv. fst kv \<notin> fst ` set taken) m"

text \<open>
  The transactions to store: completely spent ones, and others up to the limit. With \<open>all\<close> the
  whole map.
\<close>

definition pickTxAddresses :: "orders \<Rightarrow> bool \<Rightarrow> ps \<Rightarrow> (bytes \<times> nat) list" where
  "pickTxAddresses ord all st =
     (let m = ps_txAddressesMap st
      in if all then m
         else let txm = filter (\<lambda>(k, p). completelySpent st p) m
              in if length txm < partialStoreAddresses
                 then txm @ take (partialStoreAddresses - length txm) (or_txs ord (without m txm))
                 else txm)"

definition storeTxAddresses_bulk :: "'db deps \<Rightarrow> orders \<Rightarrow> bool \<Rightarrow> ps \<Rightarrow> write_batch \<times> ps" where
  "storeTxAddresses_bulk D ord all st =
     (let txm = pickTxAddresses ord all st
      in (storeTxAddresses D (map (\<lambda>(k, p). (k, ps_heap st ! p)) txm),
          st\<lparr>ps_txAddressesMap := without (ps_txAddressesMap st) txm\<rparr>))"

definition pickBalances :: "orders \<Rightarrow> bool \<Rightarrow> ps \<Rightarrow> (bytes \<times> AddrBalance) list" where
  "pickBalances ord all st =
     (if all then ps_balances st else take partialStoreBalances (or_balances ord (ps_balances st)))"

definition storeBalances_bulk :: "'db deps \<Rightarrow> orders \<Rightarrow> bool \<Rightarrow> ps \<Rightarrow> write_batch \<times> ps" where
  "storeBalances_bulk D ord all st =
     (let bal = pickBalances ord all st
      in (storeBalances D (map (\<lambda>(k, b). (k, Some b)) bal), st\<lparr>ps_balances := without (ps_balances st) bal\<rparr>))"

text \<open>
  A writer goroutine: the picked entries leave the cache, then the batch is written; the result
  is what it sends on its channel.
\<close>

definition runWriter :: "'db deps \<Rightarrow> (ps \<Rightarrow> write_batch \<times> ps) \<Rightarrow> 'db BulkConnect \<Rightarrow> 'db BulkConnect \<times> unit res" where
  "runWriter D store b =
     (let (wb, st) = store (bk_ps b); b = b\<lparr>bk_ps := st\<rparr>
      in case kv_Write (kvOf D) wb (d_db (bk_d b)) of
           Inl e \<Rightarrow> (b, Err e)
         | Inr db \<Rightarrow> (b\<lparr>bk_d := (bk_d b)\<lparr>d_db := db\<rparr>\<rparr>, Ok ()))"

definition parallelStoreTxAddresses :: "'db deps \<Rightarrow> orders \<Rightarrow> bool \<Rightarrow> 'db BulkConnect \<Rightarrow> 'db BulkConnect \<times> unit res" where
  "parallelStoreTxAddresses D ord all b = runWriter D (storeTxAddresses_bulk D ord all) b"

definition parallelStoreBalances :: "'db deps \<Rightarrow> orders \<Rightarrow> bool \<Rightarrow> 'db BulkConnect \<Rightarrow> 'db BulkConnect \<times> unit res" where
  "parallelStoreBalances D ord all b = runWriter D (storeBalances_bulk D ord all) b"

text \<open>
  \<open>storeBulkAddresses\<close>: the addresses and the header of every cached block. The height of the
  internal state moves with each header, also when a later one fails.
\<close>

fun storeBulkLoop :: "'db deps \<Rightarrow> go_time \<Rightarrow> (BlockInfo \<times> addressesMap) list \<Rightarrow> InternalState option \<Rightarrow> write_batch
    \<Rightarrow> InternalState option \<times> write_batch res" where
  "storeBulkLoop D now [] is wb = (is, Ok wb)"
| "storeBulkLoop D now ((bi, addresses) # bas) is wb =
     (let wb = wb @ storeAddresses D (bi_Height bi) addresses
      in case writeHeight D now (bi_Height bi) bi opInsert is of
           Inl e \<Rightarrow> (is, Err e)
         | Inr (is, w) \<Rightarrow> storeBulkLoop D now bas is (wb @ w))"

definition storeBulkAddresses :: "'db deps \<Rightarrow> go_time \<Rightarrow> 'db BulkConnect \<Rightarrow> 'db BulkConnect \<times> write_batch res" where
  "storeBulkAddresses D now b =
     (let (is, r) = storeBulkLoop D now (bk_bulkAddresses b) (d_is (bk_d b)) [];
          b = b\<lparr>bk_d := (bk_d b)\<lparr>d_is := is\<rparr>\<rparr>
      in case r of
           Inl e \<Rightarrow> (b, Err e)
         | Inr wb \<Rightarrow> (b\<lparr>bk_bulkAddressesCount := 0, bk_bulkAddresses := []\<rparr>, Ok wb))"

text \<open>The part of \<open>connectBlockBitcoinType\<close> that writes addresses, headers and inputs.\<close>

definition writeBlock :: "'db deps \<Rightarrow> go_time \<Rightarrow> Block \<Rightarrow> bool \<Rightarrow> bool \<Rightarrow> 'db BulkConnect \<Rightarrow> 'db BulkConnect \<times> unit res" where
  "writeBlock D now block storeInputs sa b =
     (let full = sa \<or> bk_bulkAddressesCount b > maxBulkAddresses
      in if full \<or> storeInputs
         then case (if full then storeBulkAddresses D now b else (b, Ok [])) of
                (b, Inl e) \<Rightarrow> (b, Err e)
              | (b, Inr wb) \<Rightarrow>
                  (case (if storeInputs then storeAndCleanupBlockTxs D block (d_db (bk_d b)) else (d_db (bk_d b), Ok [])) of
                     (db, Inl e) \<Rightarrow> (b\<lparr>bk_d := (bk_d b)\<lparr>d_db := db\<rparr>\<rparr>, Err e)
                   | (db, Inr wb') \<Rightarrow>
                       (case kv_Write (kvOf D) (wb @ wb') db of
                          Inl e \<Rightarrow> (b\<lparr>bk_d := (bk_d b)\<lparr>d_db := db\<rparr>\<rparr>, Err e)
                        | Inr db \<Rightarrow> (b\<lparr>bk_d := (bk_d b)\<lparr>d_db := db\<rparr>\<rparr>, Ok ())))
         else (b, Ok ()))"

text \<open>The first error of the main routine, then of the two channels.\<close>

definition firstError :: "unit res \<Rightarrow> unit res \<Rightarrow> unit res \<Rightarrow> unit res" where
  "firstError r ra rb = bindR r (\<lambda>_. bindR ra (\<lambda>_. rb))"

definition connectBlockBitcoinType :: "'db deps \<Rightarrow> orders \<Rightarrow> go_time \<Rightarrow> Block \<Rightarrow> bool \<Rightarrow> 'db BulkConnect \<Rightarrow> 'db BulkConnect \<times> unit res" where
  "connectBlockBitcoinType D ord now block storeInputs b =
     (case processAddressesBitcoinType D (d_db (bk_d b)) block ((bk_ps b)\<lparr>ps_addresses := []\<rparr>) of
        Inl e \<Rightarrow> (b, Err e)
      | Inr st \<Rightarrow>
          let b = b\<lparr>bk_ps := st\<rparr>;
              sa = length (ps_txAddressesMap st) > maxBulkTxAddresses \<or> length (ps_balances st) > maxBulkBalances;
              (b, ra) = (if sa \<and> length (ps_txAddressesMap st) + partialStoreAddresses > maxBulkTxAddresses
                         then parallelStoreTxAddresses D ord False b else (b, Ok ()));
              (b, rb) = (if sa \<and> length (ps_balances st) + partialStoreBalances > maxBulkBalances
                         then parallelStoreBalances D ord False b else (b, Ok ()));
              b = b\<lparr>bk_bulkAddresses := bk_bulkAddresses b @ [(blockInfoOf block, ps_addresses st)],
                    bk_bulkAddressesCount := bk_bulkAddressesCount b + length (ps_addresses st)\<rparr>;
              (b, r) = writeBlock D now block storeInputs sa b
          in (b, firstError r ra rb))"

definition ConnectBlock_bulk :: "'db deps \<Rightarrow> orders \<Rightarrow> go_time \<Rightarrow> Block \<Rightarrow> bool \<Rightarrow> 'db BulkConnect \<Rightarrow> 'db BulkConnect \<times> unit res" where
  "ConnectBlock_bulk D ord now block storeInputs b =
     connectBlockBitcoinType D ord now block storeInputs (b\<lparr>bk_height := bh_Height block\<rparr>)"

definition Close_bulk :: "'db deps \<Rightarrow> is_json \<Rightarrow> orders \<Rightarrow> go_time \<Rightarrow> 'db BulkConnect \<Rightarrow> 'db BulkConnect \<times> unit res" where
  "Close_bulk D J ord now b =
     (let (b, ra) = parallelStoreTxAddresses D ord True b;
          (b, rb) = parallelStoreBalances D ord True b;
          (b, r) = storeBulkAddresses D now b;
          (b, r) = (case r of
                      Inl e \<Rightarrow> (b, Err e)
                    | Inr wb \<Rightarrow>
                        (case kv_Write (kvOf D) wb (d_db (bk_d b)) of
                           Inl e \<Rightarrow> (b, Err e)
                         | Inr db \<Rightarrow> (b\<lparr>bk_d := (bk_d b)\<lparr>d_db := db\<rparr>\<rparr>, Ok ())))
      in case firstError r ra rb of
           Inl e \<Rightarrow> (b, Err e)
         | Inr _ \<Rightarrow> (let (d, r) = SetInconsistentState D J now False (bk_d b) in (b\<lparr>bk_d := d\<rparr>, r)))"

section \<open>Runs\<close>

text \<open>
  The states of a bulk connect that was started on \<open>d\<close>: every call of \<open>ConnectBlock\<close> leads on,
  also one that failed.
\<close>

inductive bulk_reach :: "'db deps \<Rightarrow> is_json \<Rightarrow> 'db RocksDB \<Rightarrow> 'db BulkConnect \<Rightarrow> bool" for D J d where
  init: "InitBulkConnect D J now d = (d', Ok b) \<Longrightarrow> bulk_reach D J d b"
| connect: "bulk_reach D J d b \<Longrightarrow> ConnectBlock_bulk D ord now block storeInputs b = (b', r) \<Longrightarrow> bulk_reach D J d b'"

inductive_cases bulk_reachE: "bulk_reach D J d b"

section \<open>Columns that a step leaves alone\<close>

lemma write_column:
  assumes "kv_store (kvOf D) val" "kv_Write (kvOf D) wb db = Ok db'" "c \<notin> (fst \<circ> opKey) ` set wb"
  shows "val db' c = val db c"
  using kv_store.write_val [OF assms(1,2)] applyBatch_column [OF assms(3)] by simp

lemma cleanupLoop_column:
  assumes "kv_store (kvOf D) val" "c \<noteq> cfBlockTxs"
  shows "val (fst (cleanupLoop D rh db)) c = val db c"
proof (induction rh arbitrary: db)
  case (Suc rh)
  have "val db' c = val db c" if "kv_DeleteCF (kvOf D) cfBlockTxs k db = Ok db'" for db' k
    using kv_store.delete_val [OF assms(1) that] assms(2) by simp
  with Suc show ?case by (auto simp: Let_def split: sum.splits option.splits)
qed simp

lemma storeAndCleanup_column:
  assumes "kv_store (kvOf D) val" "c \<noteq> cfBlockTxs" "storeAndCleanupBlockTxs D block db = (db', r)"
  shows "val db' c = val db c" "r = Ok wb \<Longrightarrow> c \<notin> (fst \<circ> opKey) ` set wb"
proof -
  have "val (fst (cleanupBlockTxs D (bh_Height block) db)) c = val db c"
    using cleanupLoop_column [OF assms(1,2)] by (simp add: cleanupBlockTxs_def Let_def)
  with assms(3) show "val db' c = val db c"
    by (auto simp: storeAndCleanupBlockTxs_def split: sum.splits prod.splits)
  show "c \<notin> (fst \<circ> opKey) ` set wb" if "r = Ok wb"
    using assms(2,3) that columns_blockTxs [of D block wb]
    by (auto simp: storeAndCleanupBlockTxs_def split: sum.splits prod.splits)
qed

lemma storeBulkLoop_columns:
  "storeBulkLoop D now bas is wb0 = (is', Ok wb) \<Longrightarrow> c \<notin> {cfAddresses, cfHeight}
   \<Longrightarrow> c \<notin> (fst \<circ> opKey) ` set wb0 \<Longrightarrow> c \<notin> (fst \<circ> opKey) ` set wb"
proof (induction bas arbitrary: "is" wb0)
  case (Cons ba bas)
  obtain bi ad where ba: "ba = (bi, ad)" by (cases ba)
  from Cons.prems(1) obtain is1 w where w: "writeHeight D now (bi_Height bi) bi opInsert is = Ok (is1, w)"
      "storeBulkLoop D now bas is1 (wb0 @ storeAddresses D (bi_Height bi) ad @ w) = (is', Ok wb)"
    by (auto simp: ba Let_def split: sum.splits)
  have "(fst \<circ> opKey) ` set w \<subseteq> {cfHeight}"
    using w(1) by (auto simp: writeHeight_def split: option.splits)
  moreover note columns(3) [of D "bi_Height bi" ad]
  ultimately have "c \<notin> (fst \<circ> opKey) ` set (wb0 @ storeAddresses D (bi_Height bi) ad @ w)"
    using Cons.prems(2,3) by auto
  from Cons.IH [OF w(2) Cons.prems(2) this] show ?case .
qed simp

lemma storeBulkAddresses_columns:
  assumes "storeBulkAddresses D now b = (b', r)"
  shows "d_db (bk_d b') = d_db (bk_d b)" "bk_ps b' = bk_ps b"
    "r = Ok wb \<Longrightarrow> c \<notin> {cfAddresses, cfHeight} \<Longrightarrow> c \<notin> (fst \<circ> opKey) ` set wb"
proof -
  obtain is' r' where l: "storeBulkLoop D now (bk_bulkAddresses b) (d_is (bk_d b)) [] = (is', r')" by force
  with assms show "d_db (bk_d b') = d_db (bk_d b)" "bk_ps b' = bk_ps b"
    by (auto simp: storeBulkAddresses_def Let_def split: sum.splits)
  show "c \<notin> (fst \<circ> opKey) ` set wb" if "r = Ok wb" "c \<notin> {cfAddresses, cfHeight}"
    using assms l that storeBulkLoop_columns [of D now "bk_bulkAddresses b" "d_is (bk_d b)" "[]" is' wb c]
    by (auto simp: storeBulkAddresses_def Let_def split: sum.splits)
qed

lemma runWriter_column:
  assumes "kv_store (kvOf D) val" "runWriter D store b = (b', r)" "\<And>st. c \<notin> (fst \<circ> opKey) ` set (fst (store st))"
  shows "val (d_db (bk_d b')) c = val (d_db (bk_d b)) c"
proof -
  obtain wb st where w: "store (bk_ps b) = (wb, st)" by force
  then have "c \<notin> (fst \<circ> opKey) ` set wb" using assms(3) [of "bk_ps b"] by simp
  then show ?thesis
    using assms(2) w write_column [OF assms(1)] by (auto simp: runWriter_def Let_def split: sum.splits)
qed

lemma parallelStore_column:
  assumes "kv_store (kvOf D) val"
  shows "parallelStoreTxAddresses D ord all b = (b', r) \<Longrightarrow> c \<noteq> cfTxAddresses \<Longrightarrow> val (d_db (bk_d b')) c = val (d_db (bk_d b)) c"
    and "parallelStoreBalances D ord all b = (b', r) \<Longrightarrow> c \<noteq> cfAddressBalance \<Longrightarrow> val (d_db (bk_d b')) c = val (d_db (bk_d b)) c"
proof -
  have "c \<notin> (fst \<circ> opKey) ` set (fst (storeTxAddresses_bulk D ord all st))" if "c \<noteq> cfTxAddresses" for st
    using that columns(1) unfolding storeTxAddresses_bulk_def Let_def fst_conv by blast
  then show "parallelStoreTxAddresses D ord all b = (b', r) \<Longrightarrow> c \<noteq> cfTxAddresses \<Longrightarrow> val (d_db (bk_d b')) c = val (d_db (bk_d b)) c"
    unfolding parallelStoreTxAddresses_def using runWriter_column [OF assms] by blast
  have "c \<notin> (fst \<circ> opKey) ` set (fst (storeBalances_bulk D ord all st))" if "c \<noteq> cfAddressBalance" for st
    using that columns(2) unfolding storeBalances_bulk_def Let_def fst_conv by blast
  then show "parallelStoreBalances D ord all b = (b', r) \<Longrightarrow> c \<noteq> cfAddressBalance \<Longrightarrow> val (d_db (bk_d b')) c = val (d_db (bk_d b)) c"
    unfolding parallelStoreBalances_def using runWriter_column [OF assms] by blast
qed

lemma writeBlock_column:
  assumes "kv_store (kvOf D) val" "writeBlock D now block storeInputs sa b = (b', r)" "c \<notin> {cfAddresses, cfHeight, cfBlockTxs}"
  shows "val (d_db (bk_d b')) c = val (d_db (bk_d b)) c"
proof -
  let ?full = "sa \<or> bk_bulkAddressesCount b > maxBulkAddresses"
  obtain b1 r1 where b1: "(if ?full then storeBulkAddresses D now b else (b, Ok [])) = (b1, r1)" by force
  have b1_db: "d_db (bk_d b1) = d_db (bk_d b)" and r1: "\<And>wb. r1 = Ok wb \<Longrightarrow> c \<notin> (fst \<circ> opKey) ` set wb"
    using b1 storeBulkAddresses_columns [of D now b b1 r1] assms(3) by (auto split: if_splits)
  obtain db2 r2 where b2: "(if storeInputs then storeAndCleanupBlockTxs D block (d_db (bk_d b1)) else (d_db (bk_d b1), Ok [])) = (db2, r2)"
    by force
  have b2_db: "val db2 c = val (d_db (bk_d b1)) c" and r2: "\<And>wb. r2 = Ok wb \<Longrightarrow> c \<notin> (fst \<circ> opKey) ` set wb"
    using b2 storeAndCleanup_column [OF assms(1), of c block "d_db (bk_d b1)" db2 r2] assms(3) by (auto split: if_splits)
  have w: "val db c = val db2 c" if "kv_Write (kvOf D) (wb1 @ wb2) db2 = Ok db" "r1 = Ok wb1" "r2 = Ok wb2" for db wb1 wb2
    using write_column [OF assms(1) that(1)] r1 r2 that by auto
  show ?thesis
    using assms(2) b1 b2 b1_db b2_db w
    by (auto simp: writeBlock_def Let_def split: if_splits sum.splits)
qed

lemma connect_bulk_column:
  assumes "kv_store (kvOf D) val" "ConnectBlock_bulk D ord now block storeInputs b = (b', r)"
    and "c \<notin> {cfAddresses, cfHeight, cfBlockTxs, cfTxAddresses, cfAddressBalance}"
  shows "val (d_db (bk_d b')) c = val (d_db (bk_d b)) c"
proof (cases "processAddressesBitcoinType D (d_db (bk_d b)) block ((bk_ps b)\<lparr>ps_addresses := []\<rparr>)")
  case (Inl e)
  with assms(2) show ?thesis by (auto simp: ConnectBlock_bulk_def connectBlockBitcoinType_def)
next
  case (Inr st)
  let ?b = "b\<lparr>bk_height := bh_Height block, bk_ps := st\<rparr>"
  let ?sa = "length (ps_txAddressesMap st) > maxBulkTxAddresses \<or> length (ps_balances st) > maxBulkBalances"
  obtain b1 ra where b1: "(if ?sa \<and> length (ps_txAddressesMap st) + partialStoreAddresses > maxBulkTxAddresses
      then parallelStoreTxAddresses D ord False ?b else (?b, Ok ())) = (b1, ra)" by force
  obtain b2 rb where b2: "(if ?sa \<and> length (ps_balances st) + partialStoreBalances > maxBulkBalances
      then parallelStoreBalances D ord False b1 else (b1, Ok ())) = (b2, rb)" by force
  define b3 where "b3 = b2\<lparr>bk_bulkAddresses := bk_bulkAddresses b2 @ [(blockInfoOf block, ps_addresses st)],
      bk_bulkAddressesCount := bk_bulkAddressesCount b2 + length (ps_addresses st)\<rparr>"
  obtain b4 r4 where b4: "writeBlock D now block storeInputs ?sa b3 = (b4, r4)" by force
  have "b' = b4"
    using assms(2) Inr b1 b2 b4 unfolding b3_def
    by (simp add: ConnectBlock_bulk_def connectBlockBitcoinType_def Let_def)
  moreover have "val (d_db (bk_d b1)) c = val (d_db (bk_d b)) c"
    using b1 parallelStore_column(1) [OF assms(1), of ord False ?b b1 ra c] assms(3) by (auto split: if_splits)
  moreover have "val (d_db (bk_d b2)) c = val (d_db (bk_d b1)) c"
    using b2 parallelStore_column(2) [OF assms(1), of ord False b1 b2 rb c] assms(3) by (auto split: if_splits)
  moreover have "val (d_db (bk_d b4)) c = val (d_db (bk_d b3)) c"
    using writeBlock_column [OF assms(1) b4] assms(3) by simp
  ultimately show ?thesis by (simp add: b3_def)
qed

section \<open>The database is marked while the bulk connect runs\<close>

definition storedDbState :: "is_json \<Rightarrow> ('db \<Rightarrow> contents) \<Rightarrow> 'db \<Rightarrow> u32 res" where
  "storedDbState J val db =
     bindR (UnpackInternalState J (dataOf (val db cfDefault internalStateKey))) (\<lambda>is. Ok (is_DbState is))"

lemma SetInconsistentState_stored:
  assumes "kv_store (kvOf D) val" "\<And>is buf. isj_Marshal J is = Ok buf \<Longrightarrow> isj_Unmarshal J buf = Ok is"
    and "SetInconsistentState D J now x d = (d', r)"
  shows "case r of Inl _ \<Rightarrow> d_db d' = d_db d
    | Inr _ \<Rightarrow> storedDbState J val (d_db d') = Ok (if x then DbStateInconsistent else DbStateOpen)"
proof -
  have "storedDbState J val db' = Ok (is_DbState is)"
    if "isj_Marshal J is = Ok buf" "kv_PutCF (kvOf D) cfDefault internalStateKey buf db = Ok db'" for "is" buf db db'
    using kv_store.put_val [OF assms(1) that(2)] assms(2) [OF that(1)]
    by (simp add: storedDbState_def UnpackInternalState_def dataOf_def)
  then show ?thesis
    using assms(3)
    by (auto simp: SetInconsistentState_def storeOwnState_def storeState_def Pack_def Let_def
        split: option.splits sum.splits prod.splits)
qed

lemma SetInconsistentState_put:
  assumes "SetInconsistentState D J now x d = (d', Ok ())"
  shows "\<exists>buf. kv_PutCF (kvOf D) cfDefault internalStateKey buf (d_db d) = Ok (d_db d')"
proof -
  obtain ist where "d_is d = Some ist" using assms by (auto simp: SetInconsistentState_def split: option.splits)
  with assms show ?thesis
    by (auto simp: SetInconsistentState_def storeOwnState_def storeState_def Pack_def Let_def split: sum.splits)
qed

lemma Close_bulk_split:
  assumes "Close_bulk D J ord now b = (b', r)"
  obtains b1 ra b2 rb b3 r3 b4 r4 where
    "parallelStoreTxAddresses D ord True b = (b1, ra)" "parallelStoreBalances D ord True b1 = (b2, rb)"
    "storeBulkAddresses D now b2 = (b3, r3)"
    "(case r3 of Inl e \<Rightarrow> (b3, Err e) | Inr wb \<Rightarrow>
        (case kv_Write (kvOf D) wb (d_db (bk_d b3)) of Inl e \<Rightarrow> (b3, Err e)
         | Inr db \<Rightarrow> (b3\<lparr>bk_d := (bk_d b3)\<lparr>d_db := db\<rparr>\<rparr>, Ok ()))) = (b4, r4)"
    "(case firstError r4 ra rb of Inl e \<Rightarrow> (b4, Err e)
      | Inr _ \<Rightarrow> (let (d, r) = SetInconsistentState D J now False (bk_d b4) in (b4\<lparr>bk_d := d\<rparr>, r))) = (b', r)"
proof -
  obtain b1 ra where 1: "parallelStoreTxAddresses D ord True b = (b1, ra)" by force
  obtain b2 rb where 2: "parallelStoreBalances D ord True b1 = (b2, rb)" by force
  obtain b3 r3 where 3: "storeBulkAddresses D now b2 = (b3, r3)" by force
  obtain b4 r4 where 4: "(case r3 of Inl e \<Rightarrow> (b3, Err e) | Inr wb \<Rightarrow>
        (case kv_Write (kvOf D) wb (d_db (bk_d b3)) of Inl e \<Rightarrow> (b3, Err e)
         | Inr db \<Rightarrow> (b3\<lparr>bk_d := (bk_d b3)\<lparr>d_db := db\<rparr>\<rparr>, Ok ()))) = (b4, r4 :: unit res)" by force
  from assms 1 2 3 4 show thesis
    by (intro that [OF 1 2 3 4]) (simp add: Close_bulk_def Let_def)
qed

text \<open>
  C19: from the start of a bulk connect on the stored state says that the database is
  inconsistent, after every block and every failure; only a \<open>Close\<close> that returns without error,
  when everything was written, stores that it is open, and one that fails leaves the mark.
\<close>

theorem bulk_marked:
  assumes kv: "kv_store (kvOf D) val" and json: "\<And>is buf. isj_Marshal J is = Ok buf \<Longrightarrow> isj_Unmarshal J buf = Ok is"
    and reach: "bulk_reach D J d b" and close: "Close_bulk D J ord now b = (b', r)"
  shows "storedDbState J val (d_db (bk_d b)) = Ok DbStateInconsistent
    \<and> storedDbState J val (d_db (bk_d b')) = Ok (if isOk r then DbStateOpen else DbStateInconsistent)"
proof -
  have other: "storedDbState J val db = storedDbState J val db'" if "val db cfDefault = val db' cfDefault" for db db'
    using that by (simp add: storedDbState_def)
  have marked: "storedDbState J val (d_db (bk_d b)) = Ok DbStateInconsistent"
    using reach
  proof (induction rule: bulk_reach.induct)
    case (init now d' b)
    then obtain d1 where "SetInconsistentState D J now True d = (d1, Ok ())" "bk_d b = d1"
      by (auto simp: InitBulkConnect_def split: prod.splits sum.splits)
    with SetInconsistentState_stored [OF kv json] show ?case by fastforce
  next
    case (connect b ord now block storeInputs b' r)
    have "val (d_db (bk_d b')) cfDefault = val (d_db (bk_d b)) cfDefault"
      by (rule connect_bulk_column [OF kv connect.hyps(2)]) simp
    with connect.IH other show ?case by metis
  qed
  obtain b1 ra b2 rb b3 r3 b4 r4 where c: "parallelStoreTxAddresses D ord True b = (b1, ra)"
      "parallelStoreBalances D ord True b1 = (b2, rb)" "storeBulkAddresses D now b2 = (b3, r3)"
      "(case r3 of Inl e \<Rightarrow> (b3, Err e) | Inr wb \<Rightarrow>
        (case kv_Write (kvOf D) wb (d_db (bk_d b3)) of Inl e \<Rightarrow> (b3, Err e)
         | Inr db \<Rightarrow> (b3\<lparr>bk_d := (bk_d b3)\<lparr>d_db := db\<rparr>\<rparr>, Ok ()))) = (b4, r4)"
      "(case firstError r4 ra rb of Inl e \<Rightarrow> (b4, Err e)
      | Inr _ \<Rightarrow> (let (d, r) = SetInconsistentState D J now False (bk_d b4) in (b4\<lparr>bk_d := d\<rparr>, r))) = (b', r)"
    by (rule Close_bulk_split [OF close])
  have "val (d_db (bk_d b4)) cfDefault = val (d_db (bk_d b3)) cfDefault"
    using c(4) storeBulkAddresses_columns(3) [OF c(3), of _ cfDefault]
    by (auto split: sum.splits dest!: write_column [OF kv])
  also have "\<dots> = val (d_db (bk_d b)) cfDefault"
    using storeBulkAddresses_columns(1) [OF c(3)] parallelStore_column(1) [OF kv c(1)] parallelStore_column(2) [OF kv c(2)] by simp
  finally have b4: "storedDbState J val (d_db (bk_d b4)) = Ok DbStateInconsistent" using marked other by metis
  obtain d5 r5 where d5: "SetInconsistentState D J now False (bk_d b4) = (d5, r5)" by force
  show ?thesis
    using c(5) d5 b4 marked SetInconsistentState_stored [OF kv json d5]
    by (auto simp: isOk_def split: sum.splits)
qed

text \<open>
  A codec for the state of the witness: it knows the two states that the run below stores.
\<close>

definition markState :: "u32 \<Rightarrow> InternalState" where
  "markState x = (newInternalState ''OLC'')\<lparr>is_DbState := x, is_LastStore := 7\<rparr>"

definition markJson :: is_json where
  "markJson = \<lparr>isj_Marshal = \<lambda>is. if is = markState 1 then Ok [1] else if is = markState 2 then Ok [2] else Err (ErrMsg ''json''),
     isj_Unmarshal = \<lambda>b. if b = [1] then Ok (markState 1) else Ok (markState 2)\<rparr>"

definition markRocks :: "alist_db RocksDB" where
  "markRocks = \<lparr>d_db = [], d_is = Some (newInternalState ''OLC''), d_cbs = zeroStats\<rparr>"

definition sameOrder :: orders where
  "sameOrder = \<lparr>or_txs = \<lambda>m. m, or_balances = \<lambda>m. m\<rparr>"

text \<open>C19 at a bulk connect that is opened and closed again.\<close>

theorem bulk_marked_witness:
  "\<exists>b b'. bulk_reach sampleDeps markJson markRocks b \<and> Close_bulk sampleDeps markJson sameOrder 7 b = (b', Ok ())
    \<and> storedDbState markJson alistVal (d_db (bk_d b)) = Ok DbStateInconsistent
    \<and> storedDbState markJson alistVal (d_db (bk_d b')) = Ok DbStateOpen"
proof -
  have kv: "kv_store (kvOf sampleDeps) alistVal" by (simp add: sampleDeps_def alist.kv_store_axioms)
  have json: "isj_Unmarshal markJson buf = Ok is" if "isj_Marshal markJson is = Ok buf" for "is" buf
    using that by (auto simp: markJson_def split: if_splits)
  obtain d' r where init: "InitBulkConnect sampleDeps markJson 7 markRocks = (d', r)" by force
  have "isOk (snd (InitBulkConnect sampleDeps markJson 7 markRocks))" by code_simp
  with init obtain b where b: "InitBulkConnect sampleDeps markJson 7 markRocks = (d', Ok b)" by (auto simp: isOk_iff)
  have "(case snd (InitBulkConnect sampleDeps markJson 7 markRocks) of Inr b \<Rightarrow>
      isOk (snd (Close_bulk sampleDeps markJson sameOrder 7 b)) | Inl _ \<Rightarrow> False)" by code_simp
  with b obtain b' where close: "Close_bulk sampleDeps markJson sameOrder 7 b = (b', Ok ())"
    by (cases "Close_bulk sampleDeps markJson sameOrder 7 b") (auto simp: isOk_iff)
  from bulk_marked [OF kv json bulk_reach.init [OF b] close] close bulk_reach.init [OF b] show ?thesis
    by (auto simp: isOk_def)
qed

section \<open>What the cache hides\<close>

text \<open>
  The two columns as the index means them: the cache over the store. A partial store moves
  entries from the cache to the store and leaves this view alone.
\<close>

definition balanceEntry :: "'db deps \<Rightarrow> AddrBalance \<Rightarrow> bytes option" where
  "balanceEntry D ab = (if ab_Txs ab = 0 then None else Some (packAddrBalance (vlqOf D) ab))"

definition txView :: "'db deps \<Rightarrow> ('db \<Rightarrow> contents) \<Rightarrow> 'db BulkConnect \<Rightarrow> bytes \<Rightarrow> bytes option" where
  "txView D val b k = (case mapGet (ps_txAddressesMap (bk_ps b)) k of
     Some p \<Rightarrow> Some (packTxAddresses (vlqOf D) (ps_heap (bk_ps b) ! p)) | None \<Rightarrow> val (d_db (bk_d b)) cfTxAddresses k)"

definition balanceView :: "'db deps \<Rightarrow> ('db \<Rightarrow> contents) \<Rightarrow> 'db BulkConnect \<Rightarrow> bytes \<Rightarrow> bytes option" where
  "balanceView D val b k = (case mapGet (ps_balances (bk_ps b)) k of
     Some ab \<Rightarrow> balanceEntry D ab | None \<Rightarrow> val (d_db (bk_d b)) cfAddressBalance k)"

definition wfCache :: "ps \<Rightarrow> bool" where
  "wfCache st \<longleftrightarrow> wfMap (ps_txAddressesMap st) \<and> wfMap (ps_balances st)"

definition iterates :: "orders \<Rightarrow> bool" where
  "iterates ord \<longleftrightarrow> (\<forall>m. distinct m \<longrightarrow> distinct (or_txs ord m) \<and> set (or_txs ord m) = set m)
     \<and> (\<forall>m. distinct m \<longrightarrow> distinct (or_balances ord m) \<and> set (or_balances ord m) = set m)"

text \<open>One operation per entry of a map with distinct keys.\<close>

lemma applyBatch_entries:
  assumes "distinct (map fst taken)" "\<And>k v. opKey (f (k, v)) = (c, k)" "\<And>k v m. wbStep (f (k, v)) m c k = eff v"
  shows "applyBatch (map f taken) m c k = (case mapGet taken k of Some v \<Rightarrow> eff v | None \<Rightarrow> m c k)"
  using assms(1)
proof (induction taken arbitrary: m)
  case (Cons x taken)
  obtain k' v where x: "x = (k', v)" by (cases x)
  have step: "wbStep (f (k', v)) m c k = (if k = k' then eff v else m c k)"
    using assms(2,3) wbStep_other [of "f (k', v)" c k m] by auto
  have "mapGet taken k' = None" using Cons.prems by (simp add: x map_of_eq_None_iff)
  with Cons step show ?case by (auto simp: x applyBatch_Cons split: option.splits)
qed simp

lemma mapGet_without:
  assumes "wfMap m" "set taken \<subseteq> set m" "distinct (map fst taken)"
  shows "mapGet (without m taken) k = (case mapGet taken k of Some _ \<Rightarrow> None | None \<Rightarrow> mapGet m k)"
    and "mapGet taken k = Some v \<Longrightarrow> mapGet m k = Some v"
proof -
  show "mapGet (without m taken) k = (case mapGet taken k of Some _ \<Rightarrow> None | None \<Rightarrow> mapGet m k)"
  proof (cases "mapGet taken k")
    case None
    then have "k \<notin> fst ` set taken" by (simp add: map_of_eq_None_iff)
    with None show ?thesis
      by (simp add: without_def) (induction m; auto)
  next
    case (Some v)
    then have "k \<in> fst ` set taken" by (metis map_of_eq_None_iff option.distinct(1))
    with Some show ?thesis by (force simp: without_def map_of_eq_None_iff)
  qed
  show "mapGet m k = Some v" if "mapGet taken k = Some v"
    using that assms by (auto simp: wfMap_def dest: map_of_SomeD)
qed

lemma flush_view:
  assumes "wfMap m" "set taken \<subseteq> set m" "distinct (map fst taken)"
    and "\<And>k v. opKey (f (k, v)) = (c, k)" "\<And>k v s. wbStep (f (k, v)) s c k = eff v"
  shows "(case mapGet (without m taken) k of Some v \<Rightarrow> eff v | None \<Rightarrow> applyBatch (map f taken) s c k)
    = (case mapGet m k of Some v \<Rightarrow> eff v | None \<Rightarrow> s c k)"
  using mapGet_without [OF assms(1-3), of k] applyBatch_entries [of taken f c eff s k, OF assms(3-5)]
  by (auto split: option.splits)

lemma pickTxAddresses_subset:
  assumes "iterates ord" "wfCache st"
  shows "set (pickTxAddresses ord all st) \<subseteq> set (ps_txAddressesMap st)" "distinct (map fst (pickTxAddresses ord all st))"
proof -
  let ?m = "ps_txAddressesMap st"
  let ?spent = "filter (\<lambda>(k, p). completelySpent st p) ?m"
  let ?more = "take (partialStoreAddresses - length ?spent) (or_txs ord (without ?m ?spent))"
  have wf: "distinct (map fst ?m)" using assms(2) by (simp add: wfCache_def wfMap_def)
  have rest: "distinct (map fst (without ?m ?spent))" "distinct (without ?m ?spent)"
    using wf distinct_map_filter [OF wf] by (simp_all add: without_def distinct_map)
  then have ord: "distinct (or_txs ord (without ?m ?spent))" "set (or_txs ord (without ?m ?spent)) = set (without ?m ?spent)"
    using assms(1) by (simp_all add: iterates_def)
  have "set ?more \<subseteq> set (without ?m ?spent)" using ord(2) set_take_subset by fastforce
  moreover have "distinct (map fst ?more)"
    using ord rest(1) calculation by (auto simp: distinct_map intro: inj_on_subset)
  moreover have "fst ` set (without ?m ?spent) \<inter> fst ` set ?spent = {}" by (auto simp: without_def)
  moreover have "distinct (map fst ?spent)" using wf by (simp add: distinct_map_filter)
  moreover have "set (without ?m ?spent) \<subseteq> set ?m" by (auto simp: without_def)
  ultimately have "distinct (map fst (?spent @ ?more))" "set (?spent @ ?more) \<subseteq> set ?m" by auto
  moreover have "pickTxAddresses ord all st \<in> {?m, ?spent @ ?more, ?spent}" by (simp add: pickTxAddresses_def Let_def)
  ultimately show "set (pickTxAddresses ord all st) \<subseteq> set ?m" "distinct (map fst (pickTxAddresses ord all st))"
    using wf \<open>distinct (map fst ?spent)\<close> by (auto simp del: set_append map_append)
qed

lemma pickBalances_subset:
  assumes "iterates ord" "wfCache st"
  shows "set (pickBalances ord all st) \<subseteq> set (ps_balances st)" "distinct (map fst (pickBalances ord all st))"
proof -
  let ?m = "ps_balances st"
  have wf: "distinct (map fst ?m)" using assms(2) by (simp add: wfCache_def wfMap_def)
  then have "distinct ?m" by (simp add: distinct_map)
  then have ord: "distinct (or_balances ord ?m)" "set (or_balances ord ?m) = set ?m"
    using assms(1) by (simp_all add: iterates_def)
  let ?more = "take partialStoreBalances (or_balances ord ?m)"
  have sub: "set ?more \<subseteq> set ?m" using ord(2) set_take_subset by fastforce
  moreover have "distinct (map fst ?more)"
    using ord wf sub by (auto simp: distinct_map intro: inj_on_subset)
  ultimately show "set (pickBalances ord all st) \<subseteq> set ?m" "distinct (map fst (pickBalances ord all st))"
    using wf by (simp_all add: pickBalances_def)
qed

lemma storeTx_view:
  assumes "kv_store (kvOf D) val" "iterates ord" "wfCache (bk_ps b)" "parallelStoreTxAddresses D ord all b = (b', Ok ())"
  shows "txView D val b' = txView D val b" "balanceView D val b' = balanceView D val b" "wfCache (bk_ps b')"
    "all \<Longrightarrow> ps_txAddressesMap (bk_ps b') = []" "bk_bulkAddresses b' = bk_bulkAddresses b"
proof -
  let ?st = "bk_ps b" and ?h = "ps_heap (bk_ps b)"
  let ?t = "pickTxAddresses ord all ?st"
  let ?f = "\<lambda>(k, p). PutCF cfTxAddresses k (packTxAddresses (vlqOf D) (?h ! p))"
  have wb: "storeTxAddresses D (map (\<lambda>(k, p). (k, ?h ! p)) ?t) = map ?f ?t" by (auto simp: storeTxAddresses_def)
  from assms(4) obtain db where db: "kv_Write (kvOf D) (map ?f ?t) (d_db (bk_d b)) = Ok db" "d_db (bk_d b') = db"
      "bk_ps b' = ?st\<lparr>ps_txAddressesMap := without (ps_txAddressesMap ?st) ?t\<rparr>" "bk_bulkAddresses b' = bk_bulkAddresses b"
    by (auto simp: parallelStoreTxAddresses_def runWriter_def storeTxAddresses_bulk_def Let_def wb split: sum.splits)
  note val = kv_store.write_val [OF assms(1) db(1)]
  have wf: "wfMap (ps_txAddressesMap ?st)" using assms(3) by (simp add: wfCache_def)
  show "txView D val b' = txView D val b"
    using flush_view [OF wf pickTxAddresses_subset [OF assms(2,3)], where f = ?f and c = cfTxAddresses
        and eff = "\<lambda>p. Some (packTxAddresses (vlqOf D) (?h ! p))" and s = "val (d_db (bk_d b))"]
    unfolding txView_def db(2,3) val by (intro ext) (simp cong: option.case_cong)
  have "cfAddressBalance \<notin> (fst \<circ> opKey) ` set (map ?f ?t)" by auto
  from applyBatch_column [OF this] show "balanceView D val b' = balanceView D val b"
    unfolding balanceView_def db(2,3) val by (intro ext) (simp cong: option.case_cong)
  show "wfCache (bk_ps b')" using assms(3) by (auto simp: wfCache_def db wfMap_def without_def distinct_map_filter)
  show "ps_txAddressesMap (bk_ps b') = []" if all
    using that by (auto simp: db without_def pickTxAddresses_def filter_empty_conv)
  show "bk_bulkAddresses b' = bk_bulkAddresses b" by (rule db)
qed

lemma storeBalances_view:
  assumes "kv_store (kvOf D) val" "iterates ord" "wfCache (bk_ps b)" "parallelStoreBalances D ord all b = (b', Ok ())"
  shows "txView D val b' = txView D val b" "balanceView D val b' = balanceView D val b" "wfCache (bk_ps b')"
    "all \<Longrightarrow> ps_balances (bk_ps b') = []" "ps_txAddressesMap (bk_ps b') = ps_txAddressesMap (bk_ps b)"
    "bk_bulkAddresses b' = bk_bulkAddresses b"
proof -
  let ?st = "bk_ps b"
  let ?t = "pickBalances ord all ?st"
  let ?f = "\<lambda>(k, ab). if ab_Txs ab = 0 then DeleteCF cfAddressBalance k
      else PutCF cfAddressBalance k (packAddrBalance (vlqOf D) ab)"
  have wb: "storeBalances D (map (\<lambda>(k, b). (k, Some b)) ?t) = map ?f ?t" by (auto simp: storeBalances_def)
  from assms(4) obtain db where db: "kv_Write (kvOf D) (map ?f ?t) (d_db (bk_d b)) = Ok db" "d_db (bk_d b') = db"
      "bk_ps b' = ?st\<lparr>ps_balances := without (ps_balances ?st) ?t\<rparr>" "bk_bulkAddresses b' = bk_bulkAddresses b"
    by (auto simp: parallelStoreBalances_def runWriter_def storeBalances_bulk_def Let_def wb split: sum.splits)
  note val = kv_store.write_val [OF assms(1) db(1)]
  have wf: "wfMap (ps_balances ?st)" using assms(3) by (simp add: wfCache_def)
  show "balanceView D val b' = balanceView D val b"
    using flush_view [OF wf pickBalances_subset [OF assms(2,3)], where f = ?f and c = cfAddressBalance
        and eff = "balanceEntry D" and s = "val (d_db (bk_d b))"]
    unfolding balanceView_def db(2,3) val by (intro ext) (simp add: balanceEntry_def cong: option.case_cong)
  have "cfTxAddresses \<notin> (fst \<circ> opKey) ` set (map ?f ?t)" by (auto split: if_splits)
  from applyBatch_column [OF this] show "txView D val b' = txView D val b"
    unfolding txView_def db(2,3) val by (intro ext) (simp cong: option.case_cong)
  show "wfCache (bk_ps b')" using assms(3) by (auto simp: wfCache_def db wfMap_def without_def distinct_map_filter)
  show "ps_balances (bk_ps b') = []" if all
    using that by (auto simp: db without_def pickBalances_def filter_empty_conv)
  show "ps_txAddressesMap (bk_ps b') = ps_txAddressesMap (bk_ps b)" "bk_bulkAddresses b' = bk_bulkAddresses b" by (simp_all add: db)
qed

lemma firstError_Ok: "firstError r ra rb = Ok () \<longleftrightarrow> r = Ok () \<and> ra = Ok () \<and> rb = Ok ()"
  by (auto simp: firstError_def bindR_def split: sum.splits)

text \<open>
  C20: the cache of a bulk connect loses nothing. Whatever entries a partial store picks, and in
  whatever order the maps are iterated, the two columns seen through the cache stay the same;
  and after a \<open>Close\<close> without error the store itself holds exactly this view.
\<close>

theorem bulk_flush:
  assumes kv: "kv_store (kvOf D) val" and ord: "iterates ord" and wf: "wfCache (bk_ps b)"
  shows "(parallelStoreTxAddresses D ord all b = (b', Ok ()) \<or> parallelStoreBalances D ord all b = (b', Ok ())
        \<longrightarrow> txView D val b' = txView D val b \<and> balanceView D val b' = balanceView D val b)
    \<and> (Close_bulk D J ord now b = (b', Ok ())
        \<longrightarrow> val (d_db (bk_d b')) cfTxAddresses = txView D val b \<and> val (d_db (bk_d b')) cfAddressBalance = balanceView D val b)"
proof (intro conjI impI)
  assume "parallelStoreTxAddresses D ord all b = (b', Ok ()) \<or> parallelStoreBalances D ord all b = (b', Ok ())"
  then show "txView D val b' = txView D val b" "balanceView D val b' = balanceView D val b"
    using storeTx_view [OF kv ord wf, of all b'] storeBalances_view [OF kv ord wf, of all b'] by auto
next
  assume close: "Close_bulk D J ord now b = (b', Ok ())"
  obtain b1 ra b2 rb b3 r3 b4 r4 where c: "parallelStoreTxAddresses D ord True b = (b1, ra)"
      "parallelStoreBalances D ord True b1 = (b2, rb)" "storeBulkAddresses D now b2 = (b3, r3)"
      "(case r3 of Inl e \<Rightarrow> (b3, Err e) | Inr wb \<Rightarrow>
        (case kv_Write (kvOf D) wb (d_db (bk_d b3)) of Inl e \<Rightarrow> (b3, Err e)
         | Inr db \<Rightarrow> (b3\<lparr>bk_d := (bk_d b3)\<lparr>d_db := db\<rparr>\<rparr>, Ok ()))) = (b4, r4)"
      "(case firstError r4 ra rb of Inl e \<Rightarrow> (b4, Err e)
      | Inr _ \<Rightarrow> (let (d, r) = SetInconsistentState D J now False (bk_d b4) in (b4\<lparr>bk_d := d\<rparr>, r))) = (b', Ok ())"
    by (rule Close_bulk_split [OF close])
  from c(5) have "firstError r4 ra rb = Ok ()" by (auto split: sum.splits)
  then have ok: "ra = Ok ()" "rb = Ok ()" "r4 = Ok ()" by (simp_all add: firstError_Ok)
  note s1 = storeTx_view [OF kv ord wf c(1) [unfolded ok]]
  note s2 = storeBalances_view [OF kv ord s1(3) c(2) [unfolded ok]]
  have empty: "ps_txAddressesMap (bk_ps b2) = []" "ps_balances (bk_ps b2) = []" using s1(4) s2(4,5) by simp_all
  have col: "val (d_db (bk_d b')) x = val (d_db (bk_d b2)) x" if "x \<in> {cfTxAddresses, cfAddressBalance}" for x
  proof -
    from c(4) ok(3) obtain wb db where wb: "r3 = Ok wb" "kv_Write (kvOf D) wb (d_db (bk_d b3)) = Ok db" "d_db (bk_d b4) = db"
      by (auto split: sum.splits)
    obtain d5 where d5: "SetInconsistentState D J now False (bk_d b4) = (d5, Ok ())" "bk_d b' = d5"
      using c(5) ok by (auto simp: firstError_def split: prod.splits)
    then obtain buf where "kv_PutCF (kvOf D) cfDefault internalStateKey buf db = Ok (d_db d5)"
      using SetInconsistentState_put wb(3) by blast
    from kv_store.put_val [OF kv this] have "val (d_db d5) x = val db x" using that by auto
    moreover have "val db x = val (d_db (bk_d b3)) x"
      using write_column [OF kv wb(2)] storeBulkAddresses_columns(3) [OF c(3) wb(1)] that by auto
    ultimately show ?thesis using d5(2) storeBulkAddresses_columns(1) [OF c(3)] by simp
  qed
  have "txView D val b2 = val (d_db (bk_d b2)) cfTxAddresses" "balanceView D val b2 = val (d_db (bk_d b2)) cfAddressBalance"
    using empty by (simp_all add: txView_def balanceView_def fun_eq_iff)
  with col s1 s2 show "val (d_db (bk_d b')) cfTxAddresses = txView D val b" "val (d_db (bk_d b')) cfAddressBalance = balanceView D val b"
    by auto
qed

definition cachedBulk :: "alist_db BulkConnect" where
  "cachedBulk = \<lparr>bk_d = markRocks, bk_bulkAddresses = [], bk_bulkAddressesCount = 0,
     bk_ps = (emptyPs zeroStats)\<lparr>ps_balances := [([7], oneUtxoBalance\<lparr>ab_Txs := 1\<rparr>)]\<rparr>, bk_height = 3\<rparr>"

text \<open>C20 at a cache with one balance, which is written and read through the view and then through the store.\<close>

theorem bulk_flush_witness:
  "\<exists>b'. parallelStoreBalances sampleDeps sameOrder False cachedBulk = (b', Ok ())
     \<and> balanceView sampleDeps alistVal b' = balanceView sampleDeps alistVal cachedBulk
     \<and> ps_balances (bk_ps b') = [] \<and> balanceView sampleDeps alistVal cachedBulk [7] \<noteq> None"
proof -
  have kv: "kv_store (kvOf sampleDeps) alistVal" by (simp add: sampleDeps_def alist.kv_store_axioms)
  have ord: "iterates sameOrder" by (simp add: iterates_def sameOrder_def)
  have wf: "wfCache (bk_ps cachedBulk)" by (simp add: cachedBulk_def wfCache_def emptyPs_def wfMap_def)
  have pick: "pickBalances sameOrder False (bk_ps cachedBulk) = [([7], oneUtxoBalance\<lparr>ab_Txs := 1\<rparr>)]"
    by (simp add: pickBalances_def sameOrder_def cachedBulk_def partialStoreBalances_def maxBulkBalances_def)
  obtain b' where b': "parallelStoreBalances sampleDeps sameOrder False cachedBulk = (b', Ok ())" "ps_balances (bk_ps b') = []"
    by (simp add: parallelStoreBalances_def runWriter_def storeBalances_bulk_def pick Let_def)
      (simp add: sampleDeps_def alistStore_def cachedBulk_def without_def)
  moreover have "balanceView sampleDeps alistVal b' = balanceView sampleDeps alistVal cachedBulk"
    using bulk_flush [OF kv ord wf, of False b'] b'(1) by blast
  moreover have "balanceView sampleDeps alistVal cachedBulk [7] \<noteq> None"
    by (simp add: balanceView_def cachedBulk_def balanceEntry_def)
  ultimately show ?thesis by blast
qed

end
