(* ===== verification/Sync.thy ===== *)
theory Sync
  imports Disconnect Bulk
begin

text \<open>
  Following the chain (\<open>src/db/sync.go\<close>): \<open>ResyncIndex\<close> compares the best local block with the
  node, disconnects blocks of a fork, and connects what is missing, in bulk or block by block.
  The node is a snapshot, the record \<open>block_chain\<close>. An operating system signal, which only ends
  a run early, is left out.

  Loops and the recursion of \<open>resyncIndex\<close> run on fuel; \<open>OutOfFuel\<close> stands for a run that has
  not returned. A failed request of \<open>ConnectBlocksParallel\<close> is repeated for ever, which a
  snapshot that fails again answers by not returning.
\<close>

section \<open>The worker\<close>

record sync_config =
  sc_syncWorkers :: int
  sc_syncChunk :: int

record 'db SyncWorker =
  sw_d :: "'db RocksDB"
  sw_startHeight :: u32
  sw_startHash :: string
  sw_newBlocks :: "(string \<times> u32) list"

text \<open>
  The libraries of a run: the index, the codec of its state, the node, the iteration order of
  maps and the time.
\<close>

record 'db world =
  wd_deps :: "'db deps"
  wd_json :: is_json
  wd_chain :: block_chain
  wd_orders :: orders
  wd_now :: go_time

definition NewSyncWorker :: "'db RocksDB \<Rightarrow> int \<Rightarrow> 'db SyncWorker" where
  "NewSyncWorker d minStartHeight =
     \<lparr>sw_d = d, sw_startHeight = of_int (if minStartHeight < 0 then 0 else minStartHeight), sw_startHash = [], sw_newBlocks = []\<rparr>"

text \<open>\<open>if err != nil && err != bchain.ErrBlockNotFound { return err }\<close>\<close>

definition remoteHashOrEmpty :: "block_chain \<Rightarrow> u32 \<Rightarrow> string res" where
  "remoteHashOrEmpty B height =
     (case bc_GetBlockHash B height of Inr h \<Rightarrow> Ok h | Inl e \<Rightarrow> if e = ErrBlockNotFound then Ok [] else Err e)"

section \<open>Blocks one by one\<close>

text \<open>
  \<open>getBlockChain\<close> feeds the blocks from \<open>startHash\<close> on into a channel until the node has no more;
  it only reads from the node, so its blocks are taken here when they are connected. \<open>connect\<close> is
  the closure of \<open>connectBlocks\<close>.
\<close>

definition connect :: "'db world \<Rightarrow> Block \<Rightarrow> 'db SyncWorker \<Rightarrow> 'db SyncWorker \<times> unit res" where
  "connect W block w =
     (let (d, r) = ConnectBlock (wd_deps W) (wd_now W) block (sw_d w);
          w = w\<lparr>sw_d := d\<rparr>
      in case r of
           Inl e \<Rightarrow> (w, Err e)
         | Inr _ \<Rightarrow> (w\<lparr>sw_newBlocks := sw_newBlocks w @ [(bh_Hash block, bh_Height block)]\<rparr>, Ok ()))"

fun connectLoop :: "'db world \<Rightarrow> nat \<Rightarrow> string \<Rightarrow> u32 \<Rightarrow> 'db SyncWorker \<Rightarrow> 'db SyncWorker \<times> unit res" where
  "connectLoop W 0 hash height w = (w, Err OutOfFuel)"
| "connectLoop W (Suc fuel) hash height w =
     (case bc_GetBlock (wd_chain W) hash height of
        Inl e \<Rightarrow> (w, if e = ErrBlockNotFound then Ok () else Err e)
      | Inr block \<Rightarrow>
          (case connect W block w of
             (w, Inl e) \<Rightarrow> (w, Err e)
           | (w, Inr _) \<Rightarrow> connectLoop W fuel (bh_Next block) (height + 1) w))"

definition connectBlocks :: "'db world \<Rightarrow> nat \<Rightarrow> 'db SyncWorker \<Rightarrow> 'db SyncWorker \<times> unit res" where
  "connectBlocks W fuel w = connectLoop W fuel (sw_startHash w) (sw_startHeight w) w"

section \<open>Blocks in bulk\<close>

text \<open>
  \<open>ConnectBlocksParallel\<close> as its writer sees it: the blocks of the heights in order (the theory
  of parallel workers shows that the goroutines deliver them so). A block that fails ends the
  process (\<open>glog.Fatal\<close>), as does a bulk connect that could not be started (a nil pointer); an
  error of \<open>Close\<close> is only logged.
\<close>

fun writeBlockLoop :: "'db world \<Rightarrow> u32 \<Rightarrow> u32 list \<Rightarrow> 'db BulkConnect \<Rightarrow> 'db BulkConnect \<times> unit res" where
  "writeBlockLoop W higher [] b = (b, Ok ())"
| "writeBlockLoop W higher (h # hs) b =
     (case bindR (bc_GetBlockHash (wd_chain W) h) (\<lambda>hash. bc_GetBlock (wd_chain W) hash h) of
        Inl e \<Rightarrow> (b, Err OutOfFuel)
      | Inr block \<Rightarrow>
          if bh_Height block \<noteq> h then (b, Err (Panic ''writeBlockWorker skipped block''))
          else let keep = ucast (cp_KeepBlockAddresses (parserOf (wd_deps W))) :: u32
               in case ConnectBlock_bulk (wd_deps W) (wd_orders W) (wd_now W) block (bh_Height block + keep > higher) b of
                    (b, Inl e) \<Rightarrow> (b, Err (Panic ''writeBlockWorker''))
                  | (b, Inr _) \<Rightarrow> writeBlockLoop W higher hs b)"

definition ConnectBlocksParallel :: "'db world \<Rightarrow> u32 \<Rightarrow> u32 \<Rightarrow> 'db SyncWorker \<Rightarrow> 'db SyncWorker \<times> unit res" where
  "ConnectBlocksParallel W lower higher w =
     (case InitBulkConnect (wd_deps W) (wd_json W) (wd_now W) (sw_d w) of
        (d, Inl e) \<Rightarrow> (w\<lparr>sw_d := d\<rparr>, Err (Panic ''nil pointer dereference''))
      | (d, Inr b) \<Rightarrow>
          (case writeBlockLoop W higher (map of_nat [unat lower..<Suc (unat higher)]) b of
             (b, Inl e) \<Rightarrow> (w\<lparr>sw_d := bk_d b\<rparr>, Err e)
           | (b, Inr _) \<Rightarrow>
               let (b, r) = Close_bulk (wd_deps W) (wd_json W) (wd_orders W) (wd_now W) b
               in (w\<lparr>sw_d := bk_d b\<rparr>, Ok ())))"

section \<open>Forks\<close>

text \<open>
  The loop of \<open>handleFork\<close> goes down from the best block to the first height that the index does
  not have or where it agrees with the node. The condition \<open>height >= 0\<close> of an unsigned height
  always holds: below 0 the height is the largest number.
\<close>

fun forkLoop :: "'db world \<Rightarrow> 'db \<Rightarrow> nat \<Rightarrow> u32 \<Rightarrow> u32 res" where
  "forkLoop W db 0 height = Err OutOfFuel"
| "forkLoop W db (Suc fuel) height =
     bindR (GetBlockHash (wd_deps W) db height) (\<lambda>local.
     if local = [] then Ok height
     else bindR (remoteHashOrEmpty (wd_chain W) height) (\<lambda>remote.
          if local = remote then Ok height else forkLoop W db fuel (height - 1)))"

definition DisconnectBlocks :: "'db world \<Rightarrow> u32 \<Rightarrow> u32 \<Rightarrow> 'db SyncWorker \<Rightarrow> 'db SyncWorker \<times> unit res" where
  "DisconnectBlocks W lower higher w =
     (case DisconnectBlockRangeBitcoinType (wd_deps W) lower higher (d_db (sw_d w)) of
        Inl e \<Rightarrow> (w, Err e)
      | Inr db \<Rightarrow> (w\<lparr>sw_d := (sw_d w)\<lparr>d_db := db\<rparr>\<rparr>, Ok ()))"

text \<open>\<open>handleFork\<close> up to its last line, which synchronises again.\<close>

definition handleFork :: "'db world \<Rightarrow> u32 \<Rightarrow> 'db SyncWorker \<Rightarrow> 'db SyncWorker \<times> unit res" where
  "handleFork W localBestHeight w =
     (case forkLoop W (d_db (sw_d w)) (unat localBestHeight + 1) (localBestHeight - 1) of
        Inl e \<Rightarrow> (w, Err e)
      | Inr height \<Rightarrow> DisconnectBlocks W (height + 1) localBestHeight w)"

section \<open>Synchronising\<close>

text \<open>The result of \<open>resyncIndex\<close>: \<open>Synced\<close> is the flag \<open>errSynced\<close>, nothing had to be done.\<close>

datatype sync_result = Synced | Resynced

fun resyncIndex :: "'db world \<Rightarrow> sync_config \<Rightarrow> bool \<Rightarrow> nat \<Rightarrow> 'db SyncWorker \<Rightarrow> 'db SyncWorker \<times> sync_result res" where
  "resyncIndex W cfg initialSync 0 w = (w, Err OutOfFuel)"
| "resyncIndex W cfg initialSync (Suc fuel) w =
     (case bindR (bc_GetBestBlockHash (wd_chain W)) (\<lambda>remoteBestHash.
             bindR (GetBestBlock (wd_deps W) (d_db (sw_d w))) (\<lambda>(localBestHeight, localBestHash).
             bindR (if localBestHash = remoteBestHash \<or> localBestHash = [] then Ok []
                    else remoteHashOrEmpty (wd_chain W) localBestHeight) (\<lambda>remoteHash.
             Ok (remoteBestHash, localBestHeight, localBestHash, remoteHash)))) of
        Inl e \<Rightarrow> (w, Err e)
      | Inr (remoteBestHash, localBestHeight, localBestHash, remoteHash) \<Rightarrow>
          if localBestHash = remoteBestHash then (w, Ok Synced)
          else if localBestHash \<noteq> [] \<and> remoteHash \<noteq> localBestHash
          then (case handleFork W localBestHeight w of
                  (w, Inl e) \<Rightarrow> (w, Err e)
                | (w, Inr _) \<Rightarrow> resyncIndex W cfg initialSync fuel w)
          else let w = (if localBestHash \<noteq> [] then w\<lparr>sw_startHeight := localBestHeight + 1\<rparr> else w)
               in case bc_GetBlockHash (wd_chain W) (sw_startHeight w) of
                    Inl e \<Rightarrow> (w, Err e)
                  | Inr startHash \<Rightarrow>
                      let w = w\<lparr>sw_startHash := startHash\<rparr>
                      in case (if sc_syncWorkers cfg > 1 \<and> initialSync
                               then bindR (bc_GetBestBlockHeight (wd_chain W)) (\<lambda>remoteBestHeight.
                                    if remoteBestHeight < sw_startHeight w
                                    then Err (ErrMsg ''resync: remote best height error'')
                                    else if remoteBestHeight - sw_startHeight w > of_int (sc_syncChunk cfg)
                                    then Ok (Some remoteBestHeight) else Ok None)
                               else Ok None) of
                           Inl e \<Rightarrow> (w, Err e)
                         | Inr (Some remoteBestHeight) \<Rightarrow>
                             (case ConnectBlocksParallel W (sw_startHeight w) remoteBestHeight w of
                                (w, Inl e) \<Rightarrow> (w, Err e)
                              | (w, Inr _) \<Rightarrow> resyncIndex W cfg initialSync fuel w)
                         | Inr None \<Rightarrow>
                             (case connectBlocks W fuel w of
                                (w, Inl e) \<Rightarrow> (w, Err e)
                              | (w, Inr _) \<Rightarrow> (w, Ok Resynced)))"

text \<open>\<open>ResyncIndex\<close> keeps the shared state up to date; the best height is read from the index.\<close>

definition onState :: "(InternalState \<Rightarrow> InternalState) \<Rightarrow> 'db SyncWorker \<Rightarrow> 'db SyncWorker" where
  "onState f w = w\<lparr>sw_d := (sw_d w)\<lparr>d_is := map_option f (d_is (sw_d w))\<rparr>\<rparr>"

definition ResyncIndex :: "'db world \<Rightarrow> sync_config \<Rightarrow> bool \<Rightarrow> nat \<Rightarrow> 'db SyncWorker \<Rightarrow> 'db SyncWorker \<times> unit res" where
  "ResyncIndex W cfg initialSync fuel w =
     (case resyncIndex W cfg initialSync fuel (onState StartedSync w) of
        (w, Inl e) \<Rightarrow> (w, Err e)
      | (w, Inr Synced) \<Rightarrow> (onState FinishedSyncNoChange w, Ok ())
      | (w, Inr Resynced) \<Rightarrow>
          (case GetBestBlock (wd_deps W) (d_db (sw_d w)) of
             Inl e \<Rightarrow> (w, Err e)
           | Inr (bh, _) \<Rightarrow> (onState (FinishedSync (wd_now W) bh) w, Ok ())))"

section \<open>Finding the fork\<close>

text \<open>
  The loop ends at the highest block below the start that the index and the node share, when
  there is one.
\<close>

lemma forkLoop_common:
  assumes local: "\<And>h. h \<le> height \<Longrightarrow> GetBlockHash (wd_deps W) db h = Ok (loc h) \<and> loc h \<noteq> []"
    and remote: "\<And>h. h \<le> height \<Longrightarrow> remoteHashOrEmpty (wd_chain W) h = Ok (rem h)"
    and common: "\<exists>c \<le> height. loc c = rem c" and fuel: "unat height < fuel"
  shows "\<exists>k \<le> height. forkLoop W db fuel height = Ok k \<and> loc k = rem k \<and> (\<forall>h. k < h \<and> h \<le> height \<longrightarrow> loc h \<noteq> rem h)"
  using assms
proof (induction fuel arbitrary: height)
  case (Suc fuel)
  show ?case
  proof (cases "loc height = rem height")
    case True
    then show ?thesis using Suc.prems(1,2) [of height] by (intro exI [of _ height]) auto
  next
    case False
    then have "height \<noteq> 0" using Suc.prems(3) by auto
    then have pred: "unat (height - 1) = unat height - 1" and pos: "0 < unat height"
      by (simp_all add: unat_minus_one unat_gt_0)
    have below: "h \<le> height - 1 \<longleftrightarrow> h \<le> height \<and> h \<noteq> height" for h
      using pred pos by (auto simp: word_le_nat_alt word_unat_eq_iff)
    have "\<exists>k \<le> height - 1. forkLoop W db fuel (height - 1) = Ok k \<and> loc k = rem k
        \<and> (\<forall>h. k < h \<and> h \<le> height - 1 \<longrightarrow> loc h \<noteq> rem h)"
    proof (rule Suc.IH)
      show "\<exists>c \<le> height - 1. loc c = rem c" using Suc.prems(3) False below by blast
    qed (use Suc.prems below pred pos in auto)
    with False below Suc.prems(1,2) [of height] show ?thesis by fastforce
  qed
qed simp

lemma unat_Suc_lt: "k < best \<Longrightarrow> unat (k + 1 :: u32) = unat k + 1"
  using unsigned_less [of best, where ?'a = nat] by (simp add: word_less_nat_alt unat_word_ariths)

text \<open>The headers of the index: one for every height up to the best, and no other key.\<close>

definition headersUpTo :: "contents \<Rightarrow> u32 \<Rightarrow> bool" where
  "headersUpTo m best \<longleftrightarrow> (\<forall>k. m cfHeight k \<noteq> None \<longleftrightarrow> (\<exists>h \<le> best. k = packUint h))"

lemma packUint_le: "packUint i \<le> packUint j \<longleftrightarrow> i \<le> j"
  using packUint_less [of j i] by (simp add: not_less [symmetric])

lemma GetBestBlock_headers:
  assumes kv: "kv_reliable (kvOf D) val" and headers: "headersUpTo (val db) best"
    and hash: "GetBlockHash D db best = Ok h" "h \<noteq> []"
  shows "GetBestBlock D db = Ok (best, h)"
proof -
  have kvs: "kv_store (kvOf D) val" using kv by (simp add: kv_reliable_def)
  have some: "val db cfHeight (packUint best) \<noteq> None" using headers by (auto simp: headersUpTo_def)
  obtain k v where last: "kv_SeekToLast (kvOf D) db cfHeight = Some (k, v)"
    using kv_store.last_None [OF kvs, of db cfHeight] some by (cases "kv_SeekToLast (kvOf D) db cfHeight") auto
  from kv_store.last_Some [OF kvs last] have v: "val db cfHeight k = Some v" "packUint best \<le> k" using some by auto
  then obtain j where "j \<le> best" "k = packUint j" using headers by (auto simp: headersUpTo_def)
  with v(2) have k: "k = packUint best" by (auto simp: packUint_le)
  have get: "kv_GetCF (kvOf D) db cfHeight (packUint best) = Ok (Some v)"
    using kv_reliable.get_ok [OF kv] v k by simp
  with hash obtain bi where "unpackBlockInfo (vlqOf D) (parserOf D) v = Ok (Some bi)" "bi_Hash bi = h"
    by (auto simp: GetBlockHash_def dataOf_def split: option.splits)
  with last k show ?thesis by (simp add: GetBestBlock_def codec_simps)
qed

text \<open>
  C21: when the index has left the chain of the node, handling the fork takes back exactly the
  blocks above the last common one: the best block is then the highest block below the old
  best that index and node share, with its hash.
\<close>

theorem handleFork_common:
  assumes kv: "kv_reliable (kvOf (wd_deps W)) val" and headers: "headersUpTo (val (d_db (sw_d w))) best"
    and best: "0 < best"
    and local: "\<And>h. h < best \<Longrightarrow> GetBlockHash (wd_deps W) (d_db (sw_d w)) h = Ok (loc h) \<and> loc h \<noteq> []"
    and remote: "\<And>h. h < best \<Longrightarrow> remoteHashOrEmpty (wd_chain W) h = Ok (rem h)"
    and common: "\<exists>c < best. loc c = rem c"
    and run: "handleFork W best w = (w', Ok ())"
  shows "\<exists>k < best. loc k = rem k \<and> (\<forall>h. k < h \<and> h < best \<longrightarrow> loc h \<noteq> rem h)
    \<and> headersUpTo (val (d_db (sw_d w'))) k \<and> GetBestBlock (wd_deps W) (d_db (sw_d w')) = Ok (k, loc k)"
proof -
  let ?D = "wd_deps W" and ?db = "d_db (sw_d w)" and ?db' = "d_db (sw_d w')"
  have kvs: "kv_store (kvOf ?D) val" using kv by (simp add: kv_reliable_def)
  have pred: "unat (best - 1) = unat best - 1" "0 < unat best"
    using best by (simp_all add: unat_minus_one unat_gt_0 word_neq_0_conv)
  then have below: "h \<le> best - 1 \<longleftrightarrow> h < best" for h
    by (auto simp: word_le_nat_alt word_less_nat_alt)
  obtain k where k: "k \<le> best - 1" "forkLoop W ?db (unat best + 1) (best - 1) = Ok k" "loc k = rem k"
      "\<forall>h. k < h \<and> h \<le> best - 1 \<longrightarrow> loc h \<noteq> rem h"
  proof -
    have "\<exists>k \<le> best - 1. forkLoop W ?db (unat best + 1) (best - 1) = Ok k \<and> loc k = rem k
        \<and> (\<forall>h. k < h \<and> h \<le> best - 1 \<longrightarrow> loc h \<noteq> rem h)"
      by (rule forkLoop_common) (use local remote common pred in \<open>auto simp: below\<close>)
    with that show thesis by blast
  qed
  have kb: "k < best" using k(1) by (simp add: below)
  then have next_k: "h \<le> k \<longleftrightarrow> \<not> k + 1 \<le> h" for h
    using unat_Suc_lt [OF kb] by (auto simp: word_le_nat_alt)
  from run k(2) have dis: "DisconnectBlockRangeBitcoinType ?D (k + 1) best ?db = Ok ?db'"
    by (auto simp: handleFork_def DisconnectBlocks_def split: sum.splits)
  note col = DisconnectBlockRange_columns [OF kvs dis]
  have at: "val ?db' cfHeight (packUint h) = (if k + 1 \<le> h \<and> h \<le> best then None else val ?db cfHeight (packUint h))" for h
    by (rule col(1)) simp
  have "val ?db' cfHeight x \<noteq> None \<longleftrightarrow> (\<exists>h \<le> k. x = packUint h)" for x
  proof (cases "x \<in> range packUint")
    case True
    then obtain h where x: "x = packUint h" by auto
    have "val ?db cfHeight x \<noteq> None \<longleftrightarrow> h \<le> best" using headers by (auto simp: headersUpTo_def x)
    with at [of h] next_k [of h] kb show ?thesis by (auto simp: x)
  next
    case False
    then have "val ?db' cfHeight x = val ?db cfHeight x" by (intro col(4)) auto
    with False headers show ?thesis by (auto simp: headersUpTo_def)
  qed
  then have h': "headersUpTo (val ?db') k" by (simp add: headersUpTo_def)
  have "\<not> k + 1 \<le> k" using next_k [of k] by simp
  with at [of k] have "GetBlockHash ?D ?db' k = GetBlockHash ?D ?db k"
    by (simp add: GetBlockHash_def kv_reliable.get_ok [OF kv])
  with local [OF kb] have "GetBestBlock ?D ?db' = Ok (k, loc k)"
    by (intro GetBestBlock_headers [OF kv h']) auto
  with h' k kb show ?thesis by (auto simp: below)
qed

text \<open>
  A fork of one block: index and node share the block \<open>aa\<close> of height 0; at height 1 the index has
  \<open>bb\<close> and the node \<open>cc\<close>.
\<close>

definition forkDb :: alist_db where
  "forkDb =
     [((cfHeight, packUint 0), [0xaa, 0, 0, 0, 0, 1, 1]), ((cfHeight, packUint 1), [0xbb, 0, 0, 0, 0, 1, 1]),
      ((cfBlockTxs, packUint 1), [2, 0])]"

definition forkChain :: block_chain where
  "forkChain = cacheChain\<lparr>bc_GetBlockHash := \<lambda>h. if h = 0 then Ok ''aa'' else if h = 1 then Ok ''cc'' else Err ErrBlockNotFound\<rparr>"

definition forkWorld :: "alist_db world" where
  "forkWorld = \<lparr>wd_deps = sampleDeps, wd_json = markJson, wd_chain = forkChain, wd_orders = sameOrder, wd_now = 7\<rparr>"

definition forkWorker :: "alist_db SyncWorker" where
  "forkWorker = NewSyncWorker (markRocks\<lparr>d_db := forkDb\<rparr>) 0"

lemma forkDb_headers: "headersUpTo (alistVal forkDb) 1"
proof -
  have "(\<exists>h \<le> (1 :: u32). k = packUint h) \<longleftrightarrow> k = packUint 0 \<or> k = packUint 1" for k
  proof -
    have "h \<le> 1 \<longleftrightarrow> h = 0 \<or> h = 1" for h :: u32
      by (auto simp: word_le_nat_alt word_unat_eq_iff le_Suc_eq)
    then show ?thesis by auto
  qed
  then show ?thesis by (auto simp: headersUpTo_def alistVal_def forkDb_def)
qed

text \<open>C21 at that fork: the block \<open>bb\<close> is taken off and \<open>aa\<close> is the best block.\<close>

theorem handleFork_common_witness:
  "\<exists>w'. handleFork forkWorld 1 forkWorker = (w', Ok ())
    \<and> GetBestBlock sampleDeps (d_db (sw_d w')) = Ok (0, ''aa'')"
proof -
  have D: "wd_deps forkWorld = sampleDeps" "d_db (sw_d forkWorker) = forkDb"
    by (simp_all add: forkWorld_def forkWorker_def NewSyncWorker_def)
  have run: "snd (handleFork forkWorld 1 forkWorker) = Ok ()" by code_simp
  obtain w' where w': "handleFork forkWorld 1 forkWorker = (w', Ok ())"
    using run by (cases "handleFork forkWorld 1 forkWorker") auto
  have local: "GetBlockHash sampleDeps forkDb 0 = Ok ''aa''" by code_simp
  have remote: "remoteHashOrEmpty (wd_chain forkWorld) 0 = Ok ''aa''" by code_simp
  have small: "h < 1 \<longleftrightarrow> h = 0" for h :: u32 by (auto simp: word_less_nat_alt word_unat_eq_iff)
  have "\<exists>k < (1 :: u32). ''aa'' = ''aa'' \<and> (\<forall>h. k < h \<and> h < 1 \<longrightarrow> ''aa'' \<noteq> ''aa'')
      \<and> headersUpTo (alistVal (d_db (sw_d w'))) k \<and> GetBestBlock (wd_deps forkWorld) (d_db (sw_d w')) = Ok (k, ''aa'')"
    by (rule handleFork_common [OF _ _ _ _ _ _ w', where val = alistVal and loc = "\<lambda>_. ''aa''" and rem = "\<lambda>_. ''aa''"])
      (use D sample_deps(2) forkDb_headers local remote in \<open>auto simp: small\<close>)
  with w' show ?thesis by (auto simp: small D)
qed

end
