(* ===== verification/ParallelSync.thy ===== *)
theory ParallelSync
  imports Sync "HOL-Library.Multiset"
begin

text \<open>
  The goroutines of \<open>ConnectBlocksParallel\<close> (\<open>src/db/sync.go\<close>): the main routine sends heights into
  the buffered channel \<open>hch\<close>; \<open>W\<close> workers take them, fetch the blocks, each at its own pace, and
  offer a block of height \<open>h\<close> on the unbuffered channel \<open>bch[h % W]\<close>; the writer receives from
  \<open>bch[(lastBlock+1) % W]\<close> and ends the process when the block is not the next one. Heights are
  natural numbers: the loop over them stays below \<open>2^32\<close>.
\<close>

record parallel =
  pr_h :: nat
  pr_hch :: "nat list"
  pr_busy :: "(nat \<times> bool) list"
  pr_next :: nat
  pr_written :: "nat list"
  pr_fatal :: bool
  pr_quit :: nat

definition parallelStart :: "nat \<Rightarrow> parallel" where
  "parallelStart lower = \<lparr>pr_h = lower, pr_hch = [], pr_busy = [], pr_next = lower, pr_written = [], pr_fatal = False, pr_quit = 0\<rparr>"

text \<open>
  A worker in the list \<open>busy\<close> has a height and, with \<open>True\<close>, its block. Receiving is one step of
  worker and writer, as the channel has no buffer. A failed fetch is repeated and is no step, unless
  \<open>hch\<close> has been closed: then the worker ends. The flag \<open>fails\<close> says whether such late failures
  happen.
\<close>

inductive parallel_step :: "bool \<Rightarrow> nat \<Rightarrow> nat \<Rightarrow> parallel \<Rightarrow> parallel \<Rightarrow> bool" for fails :: bool and W higher :: nat where
  dispatch: "pr_h s \<le> higher \<Longrightarrow> length (pr_hch s) < W
    \<Longrightarrow> parallel_step fails W higher s (s\<lparr>pr_hch := pr_hch s @ [pr_h s], pr_h := pr_h s + 1\<rparr>)"
| take: "pr_hch s = h # q \<Longrightarrow> length (pr_busy s) + pr_quit s < W
    \<Longrightarrow> parallel_step fails W higher s (s\<lparr>pr_hch := q, pr_busy := (h, False) # pr_busy s\<rparr>)"
| fetched: "pr_busy s = us @ (h, False) # vs
    \<Longrightarrow> parallel_step fails W higher s (s\<lparr>pr_busy := us @ (h, True) # vs\<rparr>)"
| receive: "pr_busy s = us @ (h, True) # vs \<Longrightarrow> h mod W = pr_next s mod W \<Longrightarrow> \<not> pr_fatal s
    \<Longrightarrow> parallel_step fails W higher s
          (if h = pr_next s
           then s\<lparr>pr_busy := us @ vs, pr_written := pr_written s @ [h], pr_next := h + 1\<rparr>
           else s\<lparr>pr_busy := us @ vs, pr_fatal := True\<rparr>)"
| giveUp: "fails \<Longrightarrow> pr_h s > higher \<Longrightarrow> pr_busy s = us @ (h, False) # vs
    \<Longrightarrow> parallel_step fails W higher s (s\<lparr>pr_busy := us @ vs, pr_quit := pr_quit s + 1\<rparr>)"

inductive_cases parallel_stepE [elim]: "parallel_step fails W higher s s'"

definition allWritten :: "nat \<Rightarrow> parallel \<Rightarrow> bool" where
  "allWritten higher s \<longleftrightarrow> pr_next s > higher"

section \<open>The window of heights\<close>

text \<open>
  The workers hold the next heights, as many as there are busy workers, and the channel the ones
  after them: heights in flight never lie \<open>W\<close> apart.
\<close>

definition parInv :: "nat \<Rightarrow> nat \<Rightarrow> nat \<Rightarrow> parallel \<Rightarrow> bool" where
  "parInv W lower higher s \<longleftrightarrow>
     \<not> pr_fatal s \<and> pr_quit s = 0 \<and> lower \<le> pr_next s \<and> pr_written s = [lower..<pr_next s] \<and> length (pr_busy s) \<le> W
     \<and> mset (map fst (pr_busy s)) = mset [pr_next s..<pr_next s + length (pr_busy s)]
     \<and> pr_hch s = [pr_next s + length (pr_busy s)..<pr_h s] \<and> pr_next s + length (pr_busy s) \<le> pr_h s
     \<and> pr_h s \<le> max lower (higher + 1)"

lemma parInv_start: "parInv W lower higher (parallelStart lower)"
  by (simp add: parInv_def parallelStart_def)

lemma parInv_busy: "parInv W lower higher s \<Longrightarrow> fst ` set (pr_busy s) = {pr_next s..<pr_next s + length (pr_busy s)}"
proof -
  assume "parInv W lower higher s"
  then have "set_mset (mset (map fst (pr_busy s))) = set_mset (mset [pr_next s..<pr_next s + length (pr_busy s)])"
    by (simp add: parInv_def)
  then show ?thesis by simp
qed

lemma window_mod: "(a :: nat) \<le> x \<Longrightarrow> x < a + W \<Longrightarrow> x mod W = a mod W \<Longrightarrow> x = a"
proof -
  assume x: "a \<le> x" "x < a + W" "x mod W = a mod W"
  then have "W dvd x - a" by (metis mod_eq_dvd_iff_nat)
  with x show "x = a" by (auto dest!: dvd_imp_le)
qed

lemma parInv_step:
  assumes "parallel_step False W higher s s'" "parInv W lower higher s"
  shows "parInv W lower higher s'"
  using assms(1)
proof cases
  case dispatch
  with assms(2) show ?thesis by (auto simp: parInv_def)
next
  case (take h q)
  with assms(2) have "[pr_next s + length (pr_busy s)..<pr_h s] = h # q" by (simp add: parInv_def)
  then have "h = pr_next s + length (pr_busy s)" "q = [pr_next s + length (pr_busy s) + 1..<pr_h s]"
      "pr_next s + length (pr_busy s) < pr_h s"
    by (auto simp: upt_eq_Cons_conv)
  with take assms(2) show ?thesis by (auto simp: parInv_def)
next
  case (fetched us h vs)
  with assms(2) show ?thesis by (auto simp: parInv_def)
next
  case (receive us h vs)
  have "h \<in> fst ` set (pr_busy s)" using receive by force
  then have "pr_next s \<le> h" "h < pr_next s + W"
    using parInv_busy [OF assms(2)] assms(2) by (auto simp: parInv_def)
  then have h: "h = pr_next s" using receive(3) by (rule window_mod)
  have len: "length (pr_busy s) = length (us @ vs) + 1" using receive by simp
  have "add_mset h (mset (map fst (us @ vs))) = mset (map fst (pr_busy s))" using receive(2) by simp
  also have "\<dots> = mset [h..<h + length (pr_busy s)]" using assms(2) unfolding parInv_def h by blast
  also have "\<dots> = add_mset h (mset [h + 1..<h + 1 + length (us @ vs)])"
    using len by (simp add: upt_conv_Cons del: upt_Suc mset_upt)
  finally have "mset (map fst (us @ vs)) = mset [h + 1..<h + 1 + length (us @ vs)]"
    by (simp only: add_mset_add_mset_same_iff)
  with receive assms(2) h len show ?thesis
    by (auto simp: parInv_def)
next
  case giveUp
  then show ?thesis by simp
qed

lemma parInv_reach: "(parallel_step False W higher)\<^sup>*\<^sup>* s s' \<Longrightarrow> parInv W lower higher s \<Longrightarrow> parInv W lower higher s'"
  by (induction rule: rtranclp_induct) (auto intro: parInv_step)

lemma parallel_progress:
  assumes "parInv W lower higher s" "0 < W" "\<not> allWritten higher s"
  shows "\<exists>s'. parallel_step False W higher s s'"
proof (cases "pr_busy s")
  case Nil
  show ?thesis
  proof (cases "pr_hch s")
    case Nil
    then have "[pr_next s..<pr_h s] = []" "pr_next s \<le> pr_h s"
      using assms(1) \<open>pr_busy s = []\<close> by (simp_all add: parInv_def)
    then have "pr_h s = pr_next s" by auto
    then show ?thesis
      using assms(2,3) Nil dispatch [where fails = False, of s higher W] by (auto simp: allWritten_def)
  next
    case (Cons h q)
    moreover have "pr_quit s = 0" using assms(1) by (simp add: parInv_def)
    ultimately show ?thesis using take [where fails = False, of s h q W higher] \<open>pr_busy s = []\<close> assms(2) by auto
  qed
next
  case (Cons b bs)
  then have "pr_next s \<in> fst ` set (pr_busy s)" using parInv_busy [OF assms(1)] by simp
  then obtain f where "(pr_next s, f) \<in> set (pr_busy s)" by auto
  then obtain us vs where busy: "pr_busy s = us @ (pr_next s, f) # vs" by (auto simp: in_set_conv_decomp)
  have "\<not> pr_fatal s" using assms(1) by (simp add: parInv_def)
  then show ?thesis
    using fetched [where fails = False, of s us "pr_next s" vs W higher] receive [where fails = False, of s us "pr_next s" vs W higher] busy
    by (cases f) auto
qed

definition parRemaining :: "nat \<Rightarrow> parallel \<Rightarrow> nat" where
  "parRemaining higher s = 4 * (higher + 1 - pr_h s) + 3 * length (pr_hch s) + (\<Sum>(h, f)\<leftarrow>pr_busy s. if f then 1 else 2)"

lemma parallel_step_remaining: "parallel_step False W higher s s' \<Longrightarrow> parRemaining higher s' < parRemaining higher s"
  by (induction rule: parallel_step.induct) (auto simp: parRemaining_def)

text \<open>
  When the last requests fail late the guarantee is lost: a worker that has a later block waits for
  a writer that waits for the block nobody fetches, and \<open>wg.Wait\<close> never returns.
\<close>

lemma ConnectBlocksParallel_stuck:
  "\<exists>s. (parallel_step True 2 4)\<^sup>*\<^sup>* (parallelStart 3) s \<and> \<not> allWritten 4 s \<and> pr_busy s \<noteq> [] \<and> (\<nexists>s'. parallel_step True 2 4 s s')"
proof -
  let ?p = "\<lambda>h hch busy q. \<lparr>pr_h = h, pr_hch = hch, pr_busy = busy, pr_next = 3, pr_written = [], pr_fatal = False, pr_quit = q\<rparr>"
  have "parallel_step True 2 4 (parallelStart 3) (?p 4 [3] [] 0)"
    using dispatch [where fails = True, of "parallelStart 3" 4 2] by (simp add: parallelStart_def)
  moreover have "parallel_step True 2 4 (?p 4 [3] [] 0) (?p 5 [3, 4] [] 0)"
    using dispatch [where fails = True, of "?p 4 [3] [] 0" 4 2] by simp
  moreover have "parallel_step True 2 4 (?p 5 [3, 4] [] 0) (?p 5 [4] [(3, False)] 0)"
    using take [where fails = True, of "?p 5 [3, 4] [] 0" 3 "[4]" 2 4] by simp
  moreover have "parallel_step True 2 4 (?p 5 [4] [(3, False)] 0) (?p 5 [] [(4, False), (3, False)] 0)"
    using take [where fails = True, of "?p 5 [4] [(3, False)] 0" 4 "[]" 2 4] by simp
  moreover have "parallel_step True 2 4 (?p 5 [] [(4, False), (3, False)] 0) (?p 5 [] [(4, True), (3, False)] 0)"
    using fetched [where fails = True, of "?p 5 [] [(4, False), (3, False)] 0" "[]" 4 "[(3, False)]" 2 4] by simp
  moreover have "parallel_step True 2 4 (?p 5 [] [(4, True), (3, False)] 0) (?p 5 [] [(4, True)] 1)"
    using giveUp [of True 4 "?p 5 [] [(4, True), (3, False)] 0" "[(4, True)]" 3 "[]" 2] by simp
  ultimately have reach: "(parallel_step True 2 4)\<^sup>*\<^sup>* (parallelStart 3) (?p 5 [] [(4, True)] 1)"
    by (meson converse_rtranclp_into_rtranclp r_into_rtranclp)
  moreover have "\<not> parallel_step True 2 4 (?p 5 [] [(4, True)] 1) s'" for s'
    by (auto simp: Cons_eq_append_conv)
  ultimately show ?thesis by (intro exI [of _ "?p 5 [] [(4, True)] 1"]) (simp add: allWritten_def)
qed



end
