(* ===== verification/BitcoinParser.thy ===== *)
theory BitcoinParser
  imports Codec BaseParser
begin

text \<open>
  The parser of Bitcoin-like coins (\<open>src/bchain/coins/btc/bitcoinparser.go\<close>). The packages
  \<open>wire\<close>, \<open>blockchain\<close>, \<open>txscript\<close>, \<open>btcutil\<close> and \<open>hdkeychain\<close> are the parameter
  \<open>btc_lib\<close>, over its own types of addresses and extended keys.
\<close>

section \<open>The libraries\<close>

record TxIn =
  in_Hash :: bytes
  in_Index :: u32
  in_SignatureScript :: bytes
  in_Sequence :: u32

record TxOut =
  out_Value :: int64
  out_PkScript :: bytes

record MsgTx =
  msg_Version :: int32
  msg_LockTime :: u32
  msg_TxIn :: "TxIn list"
  msg_TxOut :: "TxOut list"

record MsgBlock =
  mb_Timestamp :: int64
  mb_Transactions :: "MsgTx list"

datatype script_class = PubKeyHashTy | WitnessV0PubKeyHashTy | ScriptHashTy | WitnessV0ScriptHashTy | OtherTy

record ('a, 'k) btc_lib =
  bl_Deserialize :: "bytes \<Rightarrow> MsgTx res"
  bl_DeserializeBlock :: "bytes \<Rightarrow> MsgBlock res"
  bl_TxHash :: "MsgTx \<Rightarrow> bytes"
  bl_hashString :: "bytes \<Rightarrow> string"
  bl_DoubleHashH :: "bytes \<Rightarrow> bytes"
  bl_IsCoinBaseTx :: "MsgTx \<Rightarrow> bool"
  bl_ConvertP2PKtoP2PKH :: "bytes \<Rightarrow> bytes res"
  bl_ExtractPkScriptAddrs :: "bytes \<Rightarrow> (script_class \<times> 'a list) res"
  bl_DecodeAddress :: "string \<Rightarrow> 'a res"
  bl_EncodeAddress :: "'a \<Rightarrow> string"
  bl_PayToAddrScript :: "'a \<Rightarrow> bytes res"
  bl_NewKeyFromString :: "string \<Rightarrow> 'k res"
  bl_Child :: "'k \<Rightarrow> u32 \<Rightarrow> 'k res"
  bl_keyVersion :: "'k \<Rightarrow> u32"
  bl_ChildNum :: "'k \<Rightarrow> u32"
  bl_Depth :: "'k \<Rightarrow> byte"
  bl_PubKeyBytes :: "'k \<Rightarrow> bytes"
  bl_keyAddress :: "'k \<Rightarrow> 'a res"
  bl_Hash160 :: "bytes \<Rightarrow> bytes"
  bl_NewAddressScriptHashFromHash :: "bytes \<Rightarrow> 'a res"
  bl_NewAddressWitnessPubKeyHash :: "bytes \<Rightarrow> 'a res"
  bl_NewAddressPubKeyHash :: "byte \<Rightarrow> bytes \<Rightarrow> 'a res"
  bl_vlq :: vlq_lib

section \<open>The parser\<close>

record BitcoinParser =
  btc_Base :: BaseParser
  btc_XPubMagic :: u32
  btc_XPubMagicSegwitP2sh :: u32
  btc_XPubMagicSegwitNative :: u32
  btc_Slip44 :: u32

record btc_configuration =
  cfg_BlockAddressesToKeep :: int64
  cfg_XPubMagic :: u32
  cfg_XPubMagicSegwitP2sh :: u32
  cfg_XPubMagicSegwitNative :: u32
  cfg_Slip44 :: u32

definition NewBitcoinParser :: "btc_configuration \<Rightarrow> BitcoinParser" where
  "NewBitcoinParser c =
     \<lparr>btc_Base = \<lparr>bp_BlockAddressesToKeep = cfg_BlockAddressesToKeep c, bp_AmountDecimalPoint = 8\<rparr>,
      btc_XPubMagic = cfg_XPubMagic c, btc_XPubMagicSegwitP2sh = cfg_XPubMagicSegwitP2sh c,
      btc_XPubMagicSegwitNative = cfg_XPubMagicSegwitNative c, btc_Slip44 = cfg_Slip44 c\<rparr>"

definition GetAddrDescFromVout :: "('a, 'k) btc_lib \<Rightarrow> Vout \<Rightarrow> AddressDescriptor res" where
  "GetAddrDescFromVout L output =
     bindR (hexDecodeString (vout_ScriptPubKeyHex output)) (bl_ConvertP2PKtoP2PKH L)"

definition addressToOutputScript :: "('a, 'k) btc_lib \<Rightarrow> string \<Rightarrow> bytes res" where
  "addressToOutputScript L address = bindR (bl_DecodeAddress L address) (bl_PayToAddrScript L)"

definition GetAddrDescFromAddress_btc :: "('a, 'k) btc_lib \<Rightarrow> string \<Rightarrow> AddressDescriptor res" where
  "GetAddrDescFromAddress_btc L address =
     bindR (ValidateAddressLength address) (\<lambda>_. addressToOutputScript L address)"

definition OP_RETURN :: byte where "OP_RETURN = 0x6a"
definition OP_PUSHDATA1 :: byte where "OP_PUSHDATA1 = 0x4c"

definition GetScriptFromAddrDesc :: "AddressDescriptor \<Rightarrow> bytes res" where
  "GetScriptFromAddrDesc addrDesc = Ok addrDesc"

definition IsAddrDescIndexable_btc :: "AddressDescriptor \<Rightarrow> bool" where
  "IsAddrDescIndexable_btc addrDesc \<longleftrightarrow> \<not> (length addrDesc = 0 \<or> addrDesc ! 0 = OP_RETURN)"

section \<open>Return scripts\<close>

definition textOfBytes :: "bytes \<Rightarrow> string" where
  "textOfBytes bs = map (\<lambda>b. char_of (unat b)) bs"

definition omniCurrencyMap :: "(u32, string) gomap" where
  "omniCurrencyMap = [(1, ''Omni''), (2, ''Test Omni''), (31, ''TetherUS'')]"

definition omniHeader :: bytes where
  "omniHeader = [0x6f, 0x6d, 0x6e, 0x69, 0, 0, 0, 0]"

definition tryParseOmni :: "BitcoinParser \<Rightarrow> bytes \<Rightarrow> string res" where
  "tryParseOmni p data =
     (if length data \<noteq> 20 \<or> data ! 0 \<noteq> 0x6f then Ok []
      else if take 8 data \<noteq> omniHeader then Ok []
      else let currencyID = of_nat (natOfBytes (take 4 (drop 8 data))) :: u32
           in case mapGet omniCurrencyMap currencyID of
                None \<Rightarrow> Ok []
              | Some currency \<Rightarrow>
                  bindR (AmountToDecimalString (Some (int (natOfBytes (drop 12 data)))) (AmountDecimals (btc_Base p))) (\<lambda>amountStr.
                  Ok (''OMNI Simple Send: '' @ amountStr @ '' '' @ currency @ '' (#'' @ bigString (uint currencyID) @ '')'')))"

text \<open>The length byte and the data behind it, after either form of the push.\<close>

definition opReturnData :: "bytes \<Rightarrow> nat \<times> bytes" where
  "opReturnData script =
     (if script ! 1 = OP_PUSHDATA1 \<and> length script > 2
      then let l = unat (script ! 2); data = drop 3 script
           in if l \<noteq> length data then (unat (script ! 1), drop 2 script) else (l, data)
      else (unat (script ! 1), drop 2 script))"

definition isASCII :: "bytes \<Rightarrow> bool" where
  "isASCII data = list_all (\<lambda>c. \<not> (c < 32 \<or> c > 127)) data"

definition TryParseOPReturn :: "BitcoinParser \<Rightarrow> bytes \<Rightarrow> string res" where
  "TryParseOPReturn p script =
     (if length script > 1 \<and> script ! 0 = OP_RETURN
      then let (l, data) = opReturnData script
           in if l = length data
              then bindR (tryParseOmni p data) (\<lambda>ed.
                   if ed \<noteq> [] then Ok ed
                   else Ok (''OP_RETURN '' @ (if isASCII data then ''('' @ textOfBytes data @ '')'' else hexEncodeToString data)))
              else Ok []
      else Ok [])"

definition outputScriptToAddresses_btc :: "('a, 'k) btc_lib \<Rightarrow> BitcoinParser \<Rightarrow> bytes \<Rightarrow> (string list \<times> bool) res" where
  "outputScriptToAddresses_btc L p script =
     bindR (bl_ExtractPkScriptAddrs L script) (\<lambda>(sc, addresses).
     let rv = map (bl_EncodeAddress L) addresses
     in if sc = PubKeyHashTy \<or> sc = WitnessV0PubKeyHashTy \<or> sc = ScriptHashTy \<or> sc = WitnessV0ScriptHashTy
        then Ok (rv, True)
        else if length rv = 0
        then bindR (TryParseOPReturn p script) (\<lambda>or. Ok (if or \<noteq> [] then [or] else rv, False))
        else Ok (rv, False))"

section \<open>Transactions and blocks\<close>

definition emptyVin :: Vin where
  "emptyVin = \<lparr>vin_Coinbase = [], vin_Txid = [], vin_Vout = 0, vin_ScriptSigHex = [], vin_Sequence = 0, vin_Addresses = []\<rparr>"

definition coinbaseVin :: "TxIn \<Rightarrow> Vin" where
  "coinbaseVin i = emptyVin\<lparr>vin_Coinbase := hexEncodeToString (in_SignatureScript i), vin_Sequence := in_Sequence i\<rparr>"

definition spendVin :: "('a, 'k) btc_lib \<Rightarrow> TxIn \<Rightarrow> Vin" where
  "spendVin L i = emptyVin\<lparr>vin_Txid := bl_hashString L (in_Hash i), vin_Vout := in_Index i, vin_Sequence := in_Sequence i,
     vin_ScriptSigHex := hexEncodeToString (in_SignatureScript i)\<rparr>"

text \<open>
  The loop over the inputs. At a coinbase input it ends (\<open>break\<close>), which leaves the inputs after
  it empty.
\<close>

fun vinLoop :: "('a, 'k) btc_lib \<Rightarrow> (TxIn \<Rightarrow> bool) \<Rightarrow> TxIn list \<Rightarrow> Vin list" where
  "vinLoop L coinbase [] = []"
| "vinLoop L coinbase (i # is) =
     (if coinbase i then coinbaseVin i # map (\<lambda>_. emptyVin) is else spendVin L i # vinLoop L coinbase is)"

text \<open>\<open>addrs, _, _ = p.OutputScriptToAddressesFunc(out.PkScript)\<close>: an error leaves no address.\<close>

definition scriptAddrs :: "(string list \<times> bool) res \<Rightarrow> string list res" where
  "scriptAddrs r = catchR r (\<lambda>_. Ok []) (\<lambda>(addrs, _). Ok addrs)"

definition voutOf :: "(bytes \<Rightarrow> (string list \<times> bool) res) \<Rightarrow> bool \<Rightarrow> nat \<times> TxOut \<Rightarrow> Vout res" where
  "voutOf toAddresses parseAddresses = (\<lambda>(i, out).
     bindR (if parseAddresses then scriptAddrs (toAddresses (out_PkScript out)) else Ok []) (\<lambda>addrs.
     Ok \<lparr>vout_ValueSat = sint (out_Value out), vout_JsonValue = [], vout_N = of_nat i,
         vout_ScriptPubKeyHex = hexEncodeToString (out_PkScript out), vout_Addresses = addrs\<rparr>))"

definition txOf :: "('a, 'k) btc_lib \<Rightarrow> MsgTx \<Rightarrow> Vin list \<Rightarrow> Vout list \<Rightarrow> Tx" where
  "txOf L t vin vout =
     \<lparr>tx_Hex = [], tx_Txid = bl_hashString L (bl_TxHash L t), tx_Version = msg_Version t, tx_LockTime = msg_LockTime t,
      tx_Vin = vin, tx_Vout = vout, tx_Confirmations = 0, tx_Time = 0, tx_Blocktime = 0, tx_VShieldIn = [],
      tx_VShieldOut = [], tx_ShieldValBal = 0, tx_CoinSpecificData = None\<rparr>"

definition TxFromMsgTx_btc :: "('a, 'k) btc_lib \<Rightarrow> BitcoinParser \<Rightarrow> MsgTx \<Rightarrow> bool \<Rightarrow> Tx res" where
  "TxFromMsgTx_btc L p t parseAddresses =
     bindR (mapR (voutOf (outputScriptToAddresses_btc L p) parseAddresses) (indexed (msg_TxOut t))) (\<lambda>vout.
     Ok (txOf L t (vinLoop L (\<lambda>_. bl_IsCoinBaseTx L t) (msg_TxIn t)) vout))"

definition ParseTx_btc :: "('a, 'k) btc_lib \<Rightarrow> BitcoinParser \<Rightarrow> bytes \<Rightarrow> Tx res" where
  "ParseTx_btc L p b =
     bindR (bl_Deserialize L b) (\<lambda>t.
     bindR (TxFromMsgTx_btc L p t True) (\<lambda>tx. Ok (tx\<lparr>tx_Hex := hexEncodeToString b\<rparr>)))"

definition ParseBlock :: "('a, 'k) btc_lib \<Rightarrow> BitcoinParser \<Rightarrow> bytes \<Rightarrow> Block res" where
  "ParseBlock L p b =
     bindR (bl_DeserializeBlock L b) (\<lambda>w.
     bindR (mapR (\<lambda>t. TxFromMsgTx_btc L p t False) (mb_Transactions w)) (\<lambda>txs.
     Ok \<lparr>bh_Hash = [], bh_Prev = [], bh_Next = [], bh_Height = 0, bh_Confirmations = 0,
         bh_Size = of_nat (length b), bh_Time = mb_Timestamp w, blk_Txs = txs\<rparr>))"

text \<open>
  The buffer of \<open>PackTx\<close> has room for the height, the longest encoding of the block time and the
  transaction; an odd or invalid hexadecimal string is an error.
\<close>

definition PackTx_btc :: "('a, 'k) btc_lib \<Rightarrow> Tx \<Rightarrow> u32 \<Rightarrow> int64 \<Rightarrow> bytes res" where
  "PackTx_btc L tx height blockTime =
     bindR (hexDecodeString (tx_Hex tx)) (\<lambda>raw. Ok (packUint height @ packVarint (bl_vlq L) blockTime @ raw))"

definition UnpackTx_btc :: "('a, 'k) btc_lib \<Rightarrow> BitcoinParser \<Rightarrow> bytes \<Rightarrow> (Tx \<times> u32) res" where
  "UnpackTx_btc L p buf =
     bindR (unpackUint buf) (\<lambda>height.
     let (bt, l) = unpackVarint (bl_vlq L) (drop 4 buf)
     in bindR (sliceFromR buf (4 + int l)) (\<lambda>raw.
        bindR (ParseTx_btc L p raw) (\<lambda>tx. Ok (tx\<lparr>tx_Blocktime := bt\<rparr>, height))))"

section \<open>Extended public keys\<close>

definition addrDescFromExtKey :: "('a, 'k) btc_lib \<Rightarrow> BitcoinParser \<Rightarrow> 'k \<Rightarrow> AddressDescriptor res" where
  "addrDescFromExtKey L p extKey =
     bindR (if bl_keyVersion L extKey = btc_XPubMagicSegwitP2sh p
            then let pubKeyHash = bl_Hash160 L (bl_PubKeyBytes L extKey);
                     redeemScript = [0, of_nat (length pubKeyHash)] @ pubKeyHash
                 in bl_NewAddressScriptHashFromHash L (bl_Hash160 L redeemScript)
            else if bl_keyVersion L extKey = btc_XPubMagicSegwitNative p
            then bl_NewAddressWitnessPubKeyHash L (bl_Hash160 L (bl_PubKeyBytes L extKey))
            else bl_keyAddress L extKey) (bl_PayToAddrScript L)"

definition deriveIndex :: "('a, 'k) btc_lib \<Rightarrow> BitcoinParser \<Rightarrow> 'k \<Rightarrow> u32 \<Rightarrow> AddressDescriptor res" where
  "deriveIndex L p changeExtKey index = bindR (bl_Child L changeExtKey index) (addrDescFromExtKey L p)"

definition DeriveAddressDescriptors :: "('a, 'k) btc_lib \<Rightarrow> BitcoinParser \<Rightarrow> string \<Rightarrow> u32 \<Rightarrow> u32 list \<Rightarrow> AddressDescriptor list res" where
  "DeriveAddressDescriptors L p xpub change indexes =
     bindR (bl_NewKeyFromString L xpub) (\<lambda>extKey.
     bindR (bl_Child L extKey change) (\<lambda>changeExtKey.
     mapR (deriveIndex L p changeExtKey) indexes))"

text \<open>The loop of \<open>DeriveAddressDescriptorsFromTo\<close>, over 32-bit indexes.\<close>

function deriveLoop :: "('a, 'k) btc_lib \<Rightarrow> BitcoinParser \<Rightarrow> 'k \<Rightarrow> u32 \<Rightarrow> u32 \<Rightarrow> AddressDescriptor list res" where
  "deriveLoop L p changeExtKey index toIndex =
     (if index < toIndex
      then bindR (deriveIndex L p changeExtKey index) (\<lambda>d.
           bindR (deriveLoop L p changeExtKey (index + 1) toIndex) (\<lambda>ds. Ok (d # ds)))
      else Ok [])"
  by pat_completeness auto
termination
proof (relation "measure (\<lambda>(L, p, k, index, toIndex). unat (toIndex - index))")
  show "((L, p, changeExtKey, index + 1, toIndex), L, p, changeExtKey, index, toIndex)
      \<in> measure (\<lambda>(L, p, k, index, toIndex). unat (toIndex - index))"
    if "index < toIndex" for L :: "('a, 'k) btc_lib" and p and changeExtKey :: 'k and index toIndex :: u32
  proof -
    have "toIndex - index \<noteq> 0" using that by simp
    then have "unat (toIndex - index - 1) < unat (toIndex - index)" by (simp add: unat_minus_one unat_gt_0)
    then show ?thesis by (simp add: diff_diff_eq)
  qed
qed simp

declare deriveLoop.simps [simp del]

definition DeriveAddressDescriptorsFromTo :: "('a, 'k) btc_lib \<Rightarrow> BitcoinParser \<Rightarrow> string \<Rightarrow> u32 \<Rightarrow> u32 \<Rightarrow> u32 \<Rightarrow> AddressDescriptor list res" where
  "DeriveAddressDescriptorsFromTo L p xpub change fromIndex toIndex =
     (if toIndex \<le> fromIndex then Err (ErrMsg ''toIndex<=fromIndex'')
      else bindR (bl_NewKeyFromString L xpub) (\<lambda>extKey.
           bindR (bl_Child L extKey change) (\<lambda>changeExtKey.
           deriveLoop L p changeExtKey fromIndex toIndex)))"

definition DerivationBasePath :: "('a, 'k) btc_lib \<Rightarrow> BitcoinParser \<Rightarrow> string \<Rightarrow> string res" where
  "DerivationBasePath L p xpub =
     bindR (bl_NewKeyFromString L xpub) (\<lambda>extKey.
     let cn = bl_ChildNum L extKey;
         c = (if cn \<ge> 0x80000000 then bigString (uint (cn - 0x80000000)) @ [CHR 0x27] else bigString (uint cn))
     in if bl_Depth L extKey \<noteq> 3 then Ok (''unknown/'' @ c)
        else let bip = (if bl_keyVersion L extKey = btc_XPubMagicSegwitP2sh p then ''49''
                        else if bl_keyVersion L extKey = btc_XPubMagicSegwitNative p then ''84'' else ''44'')
             in Ok (''m/'' @ bip @ [CHR 0x27] @ ''/'' @ bigString (uint (btc_Slip44 p)) @ [CHR 0x27] @ ''/'' @ c))"

section \<open>Stored transactions\<close>

lemma ParseTx_btc_hex: "ParseTx_btc L p raw = Ok tx \<Longrightarrow> tx_Hex tx = hexEncodeToString raw"
  by (auto simp: ParseTx_btc_def)

text \<open>
  A parsed transaction that is packed with a height and a block time unpacks to itself, with
  that height and that block time, when the integers of the library read back.
\<close>

theorem UnpackTx_PackTx_btc:
  assumes vlq: "vlq_documented (bl_vlq L)" and parsed: "ParseTx_btc L p raw = Ok tx"
  shows "bindR (PackTx_btc L tx height blockTime) (UnpackTx_btc L p) = Ok (tx\<lparr>tx_Blocktime := blockTime\<rparr>, height)"
proof -
  let ?t = "packVarint (bl_vlq L) blockTime"
  have "unpackVarint (bl_vlq L) (?t @ raw) = (blockTime, length ?t)"
    by (rule vlq_documented.unpackVarint_pack [OF vlq])
  moreover have "sliceFromR (packUint height @ ?t @ raw) (4 + int (length ?t)) = Ok raw"
    using sliceFromR_append [of "packUint height @ ?t" raw] by simp
  moreover have "hexDecodeString (tx_Hex tx) = Ok raw" using parsed by (simp add: ParseTx_btc_hex)
  ultimately show ?thesis
    using parsed by (simp add: PackTx_btc_def UnpackTx_btc_def unpackUint_packUint)
qed

text \<open>A library for examples: a transaction is its lock time in one byte, without inputs and outputs.\<close>

definition sampleLib :: "(bytes, u32) btc_lib" where
  "sampleLib =
     \<lparr>bl_Deserialize = (\<lambda>b. if length b = 1 then Ok \<lparr>msg_Version = 1, msg_LockTime = ucast (hd b), msg_TxIn = [], msg_TxOut = []\<rparr>
                            else Err (ErrMsg ''EOF'')),
      bl_DeserializeBlock = (\<lambda>b. Err (ErrMsg ''EOF'')), bl_TxHash = (\<lambda>t. replicate 32 (ucast (msg_LockTime t))),
      bl_hashString = hexEncodeToString, bl_DoubleHashH = (\<lambda>b. replicate 32 (hd b)), bl_IsCoinBaseTx = (\<lambda>t. False), bl_ConvertP2PKtoP2PKH = Ok,
      bl_ExtractPkScriptAddrs = (\<lambda>b. Ok (OtherTy, [])), bl_DecodeAddress = (\<lambda>s. Err (ErrMsg ''address'')),
      bl_EncodeAddress = hexEncodeToString, bl_PayToAddrScript = Ok, bl_NewKeyFromString = (\<lambda>s. Ok 0),
      bl_Child = (\<lambda>k i. Ok (10 * k + i)), bl_keyVersion = (\<lambda>k. 1), bl_ChildNum = id, bl_Depth = (\<lambda>k. 3),
      bl_PubKeyBytes = packUint, bl_keyAddress = (\<lambda>k. Ok (packUint k)), bl_Hash160 = id,
      bl_NewAddressScriptHashFromHash = Ok, bl_NewAddressWitnessPubKeyHash = Ok, bl_NewAddressPubKeyHash = (\<lambda>v b. Ok (v # b)),
      bl_vlq = vlq128\<rparr>"

definition sampleBtc :: BitcoinParser where
  "sampleBtc = NewBitcoinParser \<lparr>cfg_BlockAddressesToKeep = 300, cfg_XPubMagic = 1, cfg_XPubMagicSegwitP2sh = 2,
     cfg_XPubMagicSegwitNative = 3, cfg_Slip44 = 119\<rparr>"

text \<open>Packing at a transaction of one byte.\<close>

theorem UnpackTx_PackTx_btc_witness:
  "\<exists>tx. ParseTx_btc sampleLib sampleBtc [9] = Ok tx
     \<and> bindR (PackTx_btc sampleLib tx 70 5) (UnpackTx_btc sampleLib sampleBtc) = Ok (tx\<lparr>tx_Blocktime := 5\<rparr>, 70)"
proof -
  have "vlq_documented (bl_vlq sampleLib)" using vlq128.vlq_documented_axioms by (simp add: sampleLib_def)
  moreover have "isOk (ParseTx_btc sampleLib sampleBtc [9])"
    by (simp add: ParseTx_btc_def TxFromMsgTx_btc_def sampleLib_def isOk_def)
  then obtain tx where "ParseTx_btc sampleLib sampleBtc [9] = Ok tx" by (auto simp: isOk_iff)
  ultimately show ?thesis using UnpackTx_PackTx_btc [of sampleLib sampleBtc "[9]" tx 70 5] by (intro exI [of _ tx] conjI)
qed

section \<open>Ranges of derived addresses\<close>

lemma deriveLoop_upt: "deriveLoop L p k index toIndex = mapR (deriveIndex L p k) (map of_nat [unat index..<unat toIndex])"
proof (induction L p k index toIndex rule: deriveLoop.induct)
  case (1 L p k index toIndex)
  show ?case
  proof (cases "index < toIndex")
    case True
    then have less: "unat index < unat toIndex" by (simp add: word_less_nat_alt)
    then have "unat (index + 1) = unat index + 1"
      using unsigned_less [of toIndex, where ?'a = nat] by (simp add: unat_word_ariths)
    with 1 True less show ?thesis
      by (cases "deriveIndex L p k index") (simp_all add: deriveLoop.simps [of L p k index] upt_conv_Cons)
  next
    case False
    then show ?thesis by (simp add: deriveLoop.simps [of L p k index] word_less_nat_alt)
  qed
qed

text \<open>
  Deriving a range of addresses is deriving the list of its indexes, of which there are
  \<open>toIndex - fromIndex\<close>, and an empty or reversed range is refused before the key is looked at.
\<close>

theorem DeriveAddressDescriptorsFromTo_list:
  "DeriveAddressDescriptorsFromTo L p xpub change fromIndex toIndex =
     (if toIndex \<le> fromIndex then Err (ErrMsg ''toIndex<=fromIndex'')
      else DeriveAddressDescriptors L p xpub change (map of_nat [unat fromIndex..<unat toIndex]))"
  by (simp add: DeriveAddressDescriptorsFromTo_def DeriveAddressDescriptors_def deriveLoop_upt)

section \<open>Return scripts are read or ignored\<close>

text \<open>Data behind the return opcode, pushed with a length byte or with \<open>OP_PUSHDATA1\<close>.\<close>

definition returnsData :: "bytes \<Rightarrow> bool" where
  "returnsData script \<longleftrightarrow> (\<exists>n data. unat n = length data
     \<and> (script = OP_RETURN # n # data \<or> script = OP_RETURN # OP_PUSHDATA1 # n # data))"

lemma opReturnData_length:
  assumes "script = OP_RETURN # x # rest"
  shows "fst (opReturnData script) = length (snd (opReturnData script)) \<longleftrightarrow> returnsData script"
proof -
  have "returnsData script \<longleftrightarrow> unat x = length rest \<or> x = OP_PUSHDATA1 \<and> rest \<noteq> [] \<and> unat (hd rest) = length (tl rest)"
    unfolding returnsData_def assms list.inject by (metis list.distinct(1) list.exhaust_sel list.sel(1,3))
  then show ?thesis using assms by (cases rest) (auto simp: opReturnData_def Let_def)
qed

lemma tryParseOmni_Ok: "\<exists>r. tryParseOmni (NewBitcoinParser c) data = Ok r"
proof -
  have "AmountDecimals (btc_Base (NewBitcoinParser c)) = 8"
    by (simp add: AmountDecimals_def NewBitcoinParser_def)
  moreover obtain r where "AmountToDecimalString (Some (int (natOfBytes (drop 12 data)))) 8 = Ok r"
    by (rule AmountToDecimalString_shape [of 8 "int (natOfBytes (drop 12 data))"]) auto
  ultimately show ?thesis
    by (cases "mapGet omniCurrencyMap (of_nat (natOfBytes (take 4 (drop 8 data))))") (simp_all add: tryParseOmni_def Let_def)
qed

text \<open>
  Reading a return script never panics, whatever its bytes are, and gives a text exactly when
  the script is the return opcode followed by data with its right length, in either form.
\<close>

theorem TryParseOPReturn_total:
  "\<exists>r. TryParseOPReturn (NewBitcoinParser c) script = Ok r \<and> (r \<noteq> [] \<longleftrightarrow> returnsData script)"
proof (cases "length script > 1 \<and> script ! 0 = OP_RETURN")
  case True
  then obtain x rest where script: "script = OP_RETURN # x # rest"
    by (cases script; cases "tl script") auto
  obtain l data where d: "opReturnData script = (l, data)" by fastforce
  obtain ed where "tryParseOmni (NewBitcoinParser c) data = Ok ed" using tryParseOmni_Ok by blast
  with True d opReturnData_length [OF script] show ?thesis by (auto simp: TryParseOPReturn_def)
next
  case False
  then have "TryParseOPReturn (NewBitcoinParser c) script = Ok []" unfolding TryParseOPReturn_def by (rule if_not_P)
  moreover have "\<not> returnsData script" using False by (auto simp: returnsData_def)
  ultimately show ?thesis by blast
qed

end
