(* ===== verification/PqAddress.thy ===== *)
theory PqAddress
  imports BaseParser
begin

text \<open>
  The Bech32m addresses of post-quantum outputs (\<open>src/bchain/coins/pivx/pqaddress.go\<close>): the
  checksum \<open>pqPolymod\<close>, the conversion between bytes and groups of five bits, and the two
  directions between a script and its address. A Go string is its bytes; human readable parts are
  ASCII, so that ranging over one visits each byte.
\<close>

section \<open>The encoding\<close>

definition pqBech32mConstant :: u32 where
  "pqBech32mConstant = 0x2bc830a3"

definition pqCharset :: string where
  "pqCharset = ''qpzry9x8gf2tvdw0s3jn54khce6mua7l''"

definition TestnetMagic :: u32 where
  "TestnetMagic = 0xe65ff2a9"

definition pqHRP :: "u32 \<Rightarrow> string" where
  "pqHRP net = (if net = TestnetMagic then ''olcpqtest'' else ''olcpq'')"

definition isPQScript :: "bytes \<Rightarrow> bool" where
  "isPQScript script \<longleftrightarrow> length script = 35 \<and> script ! 0 = 0xff \<and> script ! 1 = 0x51 \<and> script ! 2 = 0x20"

definition pqGenerator :: "u32 list" where
  "pqGenerator = [0x3b6a57b2, 0x26508e6d, 0x1ea119fa, 0x3d4233dd, 0x2a1462b3]"

definition pqPolymodStep :: "u32 \<Rightarrow> byte \<Rightarrow> u32" where
  "pqPolymodStep checksum value =
     (let top = drop_bit 25 checksum;
          checksum = push_bit 5 (checksum AND 0x1ffffff) XOR ucast value
      in fold (\<lambda>i c. if drop_bit i top AND 1 \<noteq> 0 then c XOR pqGenerator ! i else c) [0..<5] checksum)"

definition pqPolymod :: "bytes \<Rightarrow> u32" where
  "pqPolymod values = foldl pqPolymodStep 1 values"

definition charByte :: "char \<Rightarrow> byte" where
  "charByte c = of_nat (of_char c)"

definition pqHRPExpand :: "string \<Rightarrow> bytes" where
  "pqHRPExpand hrp = map (\<lambda>c. drop_bit 5 (charByte c)) hrp @ 0 # map (\<lambda>c. charByte c AND 31) hrp"

text \<open>
  The inner loop of \<open>pqConvertBits\<close>. The group sizes are 5 and 8; a size of 0 would not end.
\<close>

function emitBits :: "u32 \<Rightarrow> nat \<Rightarrow> nat \<Rightarrow> bytes \<times> nat" where
  "emitBits accumulator toBits bits =
     (if bits < toBits \<or> toBits = 0 then ([], bits)
      else let (out, rest) = emitBits accumulator toBits (bits - toBits)
           in (ucast (drop_bit (bits - toBits) accumulator AND (push_bit toBits 1 - 1)) # out, rest))"
  by pat_completeness auto
termination by (relation "measure (\<lambda>(_, _, bits). bits)") auto

declare emitBits.simps [simp del]

fun convertLoop :: "nat \<Rightarrow> nat \<Rightarrow> bytes \<Rightarrow> u32 \<Rightarrow> nat \<Rightarrow> (bytes \<times> u32 \<times> nat) res" where
  "convertLoop fromBits toBits [] accumulator bits = Ok ([], accumulator, bits)"
| "convertLoop fromBits toBits (value # data) accumulator bits =
     (if drop_bit fromBits (ucast value :: u32) \<noteq> 0 then Err (ErrMsg ''invalid PQ address data'')
      else let accumulator = (push_bit fromBits accumulator OR ucast value) AND (push_bit (fromBits + toBits - 1) 1 - 1);
               (out, bits) = emitBits accumulator toBits (bits + fromBits)
           in bindR (convertLoop fromBits toBits data accumulator bits) (\<lambda>(more, accumulator, bits).
              Ok (out @ more, accumulator, bits)))"

definition pqConvertBits :: "bytes \<Rightarrow> nat \<Rightarrow> nat \<Rightarrow> bool \<Rightarrow> bytes res" where
  "pqConvertBits data fromBits toBits pad =
     bindR (convertLoop fromBits toBits data 0 0) (\<lambda>(result, accumulator, bits).
     let maxValue = push_bit toBits 1 - 1;
         padding = push_bit (toBits - bits) accumulator AND maxValue
     in if pad then Ok (if bits > 0 then result @ [ucast padding] else result)
        else if bits \<ge> fromBits \<or> padding \<noteq> 0 then Err (ErrMsg ''invalid PQ address padding'')
        else Ok result)"

section \<open>Scripts and addresses\<close>

definition pqAddressFromScript :: "bytes \<Rightarrow> string \<Rightarrow> string option" where
  "pqAddressFromScript script hrp =
     (if \<not> isPQScript script then None
      else case pqConvertBits (drop 3 script) 8 5 True of
             Inl e \<Rightarrow> None
           | Inr converted \<Rightarrow>
               let data = 1 # converted;
                   values = pqHRPExpand hrp @ data @ replicate 6 0;
                   polymod = pqPolymod values XOR pqBech32mConstant
               in Some (hrp @ CHR ''1'' # map (\<lambda>value. pqCharset ! unat value) data
                        @ map (\<lambda>i. pqCharset ! unat (drop_bit (5 * (5 - i)) polymod AND 31)) [0..<6]))"

text \<open>
  \<open>strings.ToLower\<close> on ASCII letters: an address with other bytes fails the test of the alphabet
  in any case.
\<close>

definition lowerChar :: "char \<Rightarrow> char" where
  "lowerChar c = (if 65 \<le> (of_char c :: nat) \<and> (of_char c :: nat) \<le> 90 then char_of (of_char c + 32 :: nat) else c)"

definition toLower :: "string \<Rightarrow> string" where
  "toLower s = map lowerChar s"

definition charsetIndex :: "char \<Rightarrow> byte res" where
  "charsetIndex c =
     (let index = indexByte pqCharset c
      in if index < 0 then Err (ErrMsg ''invalid PQ address'') else Ok (of_int index))"

definition pqScriptFromAddress :: "string \<Rightarrow> string \<Rightarrow> bytes res" where
  "pqScriptFromAddress address hrp =
     (if address \<noteq> toLower address \<or> length address \<noteq> length hrp + 1 + 53 + 6
         \<or> take (length hrp + 1) address \<noteq> hrp @ ''1''
      then Err (ErrMsg ''invalid PQ address'')
      else bindR (mapR charsetIndex (drop (length hrp + 1) address)) (\<lambda>values.
        if pqPolymod (pqHRPExpand hrp @ values) \<noteq> pqBech32mConstant
        then Err (ErrMsg ''invalid PQ address checksum'')
        else let payload = take (length values - 6) values
             in if length payload \<noteq> 53 \<or> payload ! 0 \<noteq> 1 then Err (ErrMsg ''invalid PQ address payload'')
                else catchR (pqConvertBits (drop 1 payload) 5 8 False)
                       (\<lambda>e. Err (ErrMsg ''invalid PQ address payload'')) (\<lambda>id.
                     if length id \<noteq> 32 then Err (ErrMsg ''invalid PQ address payload'')
                     else let script = [0xff, 0x51, 0x20] @ id
                          in case pqAddressFromScript script hrp of
                               None \<Rightarrow> Err (ErrMsg ''invalid PQ address'')
                             | Some canonical \<Rightarrow>
                                 if canonical \<noteq> address then Err (ErrMsg ''invalid PQ address'') else Ok script)))"

section \<open>The checksum is linear\<close>

lemma pick_bit: "drop_bit i t AND 1 \<noteq> (0 :: u32) \<longleftrightarrow> bit t i"
proof -
  have "drop_bit i t AND 1 \<noteq> 0 \<longleftrightarrow> odd (drop_bit i t)"
    by (simp only: and_one_eq odd_iff_mod_2_eq_one not_mod_2_eq_0_eq_1)
  then show ?thesis by (simp only: bit_iff_odd_drop_bit)
qed

definition pqMix :: "u32 \<Rightarrow> u32" where
  "pqMix s = push_bit 5 (s AND mask 25)
     XOR (if bit s 25 then pqGenerator ! 0 else 0) XOR (if bit s 26 then pqGenerator ! 1 else 0)
     XOR (if bit s 27 then pqGenerator ! 2 else 0) XOR (if bit s 28 then pqGenerator ! 3 else 0)
     XOR (if bit s 29 then pqGenerator ! 4 else 0)"

lemma if_then_xor: "(if p then c XOR g else c) = c XOR (if p then g else (0 :: u32))"
  by simp

lemma pqPolymodStep_mix: "pqPolymodStep s v = pqMix s XOR ucast v"
proof -
  have range: "[0..<5] = [0, 1, 2, 3, 4 :: nat]" by code_simp
  have index: "25 + 0 = (25 :: nat)" "25 + 1 = (26 :: nat)" "25 + 2 = (27 :: nat)" "25 + 3 = (28 :: nat)" "25 + 4 = (29 :: nat)"
    by simp_all
  have mask: "(0x1ffffff :: u32) = mask 25" by (simp add: mask_eq_exp_minus_1)
  show ?thesis
    unfolding pqPolymodStep_def pqMix_def Let_def range pick_bit mask if_then_xor
    by (simp only: fold_simps pick_bit bit_drop_bit_eq comp_apply index xor.assoc xor.commute xor.left_commute)
qed

lemma if_xor: "(if p \<noteq> q then g else (0 :: u32)) = (if p then g else 0) XOR (if q then g else 0)"
  by simp

lemma pqMix_xor: "pqMix (a XOR b) = pqMix a XOR pqMix b"
proof -
  have "push_bit 5 ((a XOR b) AND mask 25) = push_bit 5 (a AND mask 25) XOR push_bit 5 (b AND mask 25)"
    by (simp add: bit_eq_iff bit_simps) blast
  then show ?thesis
    unfolding pqMix_def by (simp only: bit_xor_iff if_xor xor.assoc xor.commute xor.left_commute)
qed

lemma pqMix_small: "take_bit 25 d = d \<Longrightarrow> pqMix d = push_bit 5 d"
proof -
  assume d: "take_bit 25 d = d"
  then have "\<not> bit d n" if "25 \<le> n" for n using that by (metis bit_take_bit_iff not_less)
  with d show ?thesis by (simp add: pqMix_def take_bit_eq_mask)
qed

lemma pqMix_bound: "take_bit 30 (pqMix s) = pqMix s"
proof -
  have "take_bit 30 (push_bit 5 (s AND mask 25)) = push_bit 5 (s AND mask 25)"
    by (simp add: bit_eq_iff bit_simps) linarith
  moreover have "take_bit 30 (if p then pqGenerator ! i else 0) = (if p then pqGenerator ! i else (0 :: u32))" if "i \<in> set [0..<5]" for p i
    using that unfolding pqGenerator_def by (cases p) (auto simp: upt_rec)
  ultimately show ?thesis by (simp add: pqMix_def take_bit_xor)
qed

section \<open>Appending the checksum\<close>

definition pqCombine :: "u32 \<Rightarrow> bytes \<Rightarrow> u32" where
  "pqCombine d cs = foldl (\<lambda>d c. push_bit 5 d XOR ucast c) d cs"

lemma take_bit_trans: "take_bit n d = d \<Longrightarrow> n \<le> m \<Longrightarrow> take_bit m d = (d :: u32)"
  by (metis min.absorb2 take_bit_take_bit)

lemma push_xor_bound:
  assumes "take_bit n d = (d :: u32)" "take_bit 5 c = (c :: byte)"
  shows "take_bit (n + 5) (push_bit 5 d XOR ucast c) = push_bit 5 d XOR ucast c"
proof -
  have d: "k < n" if "bit d k" for k using assms(1) that by (metis bit_take_bit_iff)
  have "k < 5" if "bit c k" for k using assms(2) that by (metis bit_take_bit_iff)
  with d [of "_ - 5"] show ?thesis by (fastforce simp: bit_eq_iff bit_simps)
qed

lemma foldl_polymod_split:
  "list_all (\<lambda>c. take_bit 5 c = c) cs \<Longrightarrow> take_bit n d = d \<Longrightarrow> n + 5 * length cs \<le> 30
    \<Longrightarrow> foldl pqPolymodStep (s XOR d) cs = foldl pqPolymodStep s (replicate (length cs) 0) XOR pqCombine d cs"
proof (induction cs arbitrary: s d n)
  case Nil
  then show ?case by (simp add: pqCombine_def)
next
  case (Cons c cs)
  have "take_bit 25 d = d" by (rule take_bit_trans [OF Cons.prems(2)]) (use Cons.prems(3) in simp)
  then have "pqPolymodStep (s XOR d) c = pqPolymodStep s 0 XOR (push_bit 5 d XOR ucast c)"
    by (simp add: pqPolymodStep_mix pqMix_xor pqMix_small xor.assoc)
  then show ?case
    using Cons.IH [of "n + 5" "push_bit 5 d XOR ucast c" "pqPolymodStep s 0"] Cons.prems push_xor_bound [of n d c]
    by (simp add: pqCombine_def)
qed

lemma push_drop_low: "push_bit 5 (drop_bit 5 x) XOR (x AND mask 5) = (x :: u32)"
  by (auto simp: bit_eq_iff bit_simps)

lemma low_digit: "(ucast (ucast (x AND 31 :: u32) :: byte) :: u32) = x AND mask 5" "take_bit 5 (ucast (x AND 31 :: u32) :: byte) = ucast (x AND 31)"
proof -
  have "(31 :: u32) = mask 5" by (simp add: mask_eq_exp_minus_1)
  then show "(ucast (ucast (x AND 31 :: u32) :: byte) :: u32) = x AND mask 5" "take_bit 5 (ucast (x AND 31 :: u32) :: byte) = ucast (x AND 31)"
    by (auto simp: bit_eq_iff bit_simps)
qed

text \<open>The six groups of the checksum put together give the checksum again.\<close>

lemma pqCombine_digits:
  assumes "take_bit 30 P = P"
  shows "pqCombine 0 (map (\<lambda>i. ucast (drop_bit (5 * (5 - i)) P AND 31)) [0..<6]) = P"
proof -
  have range: "[0..<6] = [0, 1, 2, 3, 4, 5 :: nat]" by code_simp
  have step: "push_bit 5 (drop_bit (n + 5) P) XOR (drop_bit n P AND mask 5) = drop_bit n P" for n
    using push_drop_low [of "drop_bit n P"] by (simp add: drop_bit_drop_bit add.commute)
  have "drop_bit 30 P = 0" using assms by (metis drop_bit_take_bit diff_self_eq_0 take_bit_0)
  then have "push_bit 5 0 XOR (drop_bit 25 P AND mask 5) = drop_bit 25 P" using step [of 25] by simp
  then show ?thesis
    unfolding pqCombine_def range using step [of 20] step [of 15] step [of 10] step [of 5] step [of 0]
    by (simp add: low_digit)
qed

lemma pqPolymod_bound:
  "take_bit 30 (pqPolymod vs) = pqPolymod vs"
proof (cases vs rule: rev_cases)
  case Nil
  then show ?thesis by (simp add: pqPolymod_def)
next
  case (snoc us v)
  have "take_bit 30 (ucast v :: u32) = ucast v"
    by (auto simp: bit_eq_iff bit_simps dest: bit_imp_le_length)
  with snoc show ?thesis by (simp add: pqPolymod_def pqPolymodStep_mix take_bit_xor pqMix_bound)
qed

lemma pqPolymod_checksum:
  fixes vs :: bytes
  defines "polymod \<equiv> pqPolymod (vs @ replicate 6 0) XOR pqBech32mConstant"
  shows "pqPolymod (vs @ map (\<lambda>i. ucast (drop_bit (5 * (5 - i)) polymod AND 31)) [0..<6]) = pqBech32mConstant"
proof -
  let ?cs = "map (\<lambda>i. ucast (drop_bit (5 * (5 - i)) polymod AND 31)) [0..<6] :: bytes"
  have "take_bit 30 pqBech32mConstant = pqBech32mConstant" by (simp add: pqBech32mConstant_def)
  then have "take_bit 30 polymod = polymod" by (simp add: polymod_def take_bit_xor pqPolymod_bound)
  then have "pqCombine 0 ?cs = polymod" by (rule pqCombine_digits)
  moreover have "foldl pqPolymodStep (pqPolymod vs XOR 0) ?cs = foldl pqPolymodStep (pqPolymod vs) (replicate (length ?cs) 0) XOR pqCombine 0 ?cs"
    by (rule foldl_polymod_split [of _ 0]) (simp_all add: list_all_iff low_digit)
  ultimately have "pqPolymod (vs @ ?cs) = pqPolymod (vs @ replicate 6 0) XOR polymod"
    by (simp add: pqPolymod_def)
  then show ?thesis by (simp add: polymod_def flip: xor.assoc)
qed

section \<open>Groups of bits as digits\<close>

text \<open>The number a list of groups of \<open>k\<close> bits stands for, the most significant group first.\<close>

definition groupsVal :: "nat \<Rightarrow> bytes \<Rightarrow> nat" where
  "groupsVal k gs = foldl (\<lambda>n g. n * 2 ^ k + unat g) 0 gs"

lemma groupsVal_Nil [simp]: "groupsVal k [] = 0"
  by (simp add: groupsVal_def)

lemma groupsVal_snoc [simp]: "groupsVal k (gs @ [g]) = groupsVal k gs * 2 ^ k + unat g"
  by (simp add: groupsVal_def)

lemma groupsVal_append: "groupsVal k (as @ bs) = groupsVal k as * 2 ^ (k * length bs) + groupsVal k bs"
  by (induction bs rule: rev_induct) (simp_all add: power_add algebra_simps flip: append_assoc)

lemma groupsVal_Cons: "groupsVal k (g # gs) = unat g * 2 ^ (k * length gs) + groupsVal k gs"
  using groupsVal_append [of k "[g]" gs] groupsVal_snoc [of k "[]" g] by simp

lemma groupsVal_8: "groupsVal 8 bs = natOfBytes bs"
  by (induction bs rule: rev_induct) simp_all

lemma push_bit_minus_1: "push_bit t 1 - 1 = (mask t :: u32)"
  by (simp add: mask_eq_exp_minus_1 push_bit_eq_mult)

lemma div_mod_pow: "b \<le> c \<Longrightarrow> ((N :: nat) mod 2 ^ c) div 2 ^ b = (N div 2 ^ b) mod 2 ^ (c - b)"
  by (simp flip: take_bit_eq_mod drop_bit_eq_div add: drop_bit_take_bit)

lemma take_bit_unat32 [simp]: "take_bit 32 (unat (w :: u32)) = unat w"
  by (rule take_bit_nat_eq_self) (use unsigned_less [of w, where ?'a = nat] in simp)

lemma unat_ucast_byte [simp]: "unat (ucast (b :: byte) :: u32) = unat b"
proof -
  have "unat b < 2 ^ 32" by (rule less_trans [OF unat_byte_less]) simp
  then show ?thesis unfolding unsigned_ucast_eq by (simp add: take_bit_nat_eq_self)
qed

lemma take_bit_unat_byte [simp]: "take_bit 32 (unat (b :: byte)) = unat b"
  by (metis take_bit_unat32 unat_ucast_byte)

lemma emitted_group:
  assumes "unat acc = N mod 2 ^ m" "b + t \<le> m" "t \<le> 8"
  shows "unat (ucast (drop_bit b acc AND (push_bit t 1 - 1) :: u32) :: byte) = (N div 2 ^ b) mod 2 ^ t"
proof -
  have "unat (take_bit t (drop_bit b acc)) = take_bit t (drop_bit b (unat acc))"
    by (simp add: unsigned_take_bit_eq unsigned_drop_bit_eq)
  then have "unat (drop_bit b acc AND (push_bit t 1 - 1)) = unat acc div 2 ^ b mod 2 ^ t"
    unfolding push_bit_minus_1 by (simp only: take_bit_eq_mask [symmetric]) (simp only: take_bit_eq_mod drop_bit_eq_div)
  also have "\<dots> = (N div 2 ^ b) mod 2 ^ (m - b) mod 2 ^ t"
    using assms(1,2) by (simp add: div_mod_pow)
  also have "\<dots> = (N div 2 ^ b) mod 2 ^ t"
    using assms(2) by (simp flip: take_bit_eq_mod add: min_def)
  finally show ?thesis
    using assms(3) by (simp add: unsigned_ucast_eq flip: take_bit_eq_mod)
qed

lemma emitBits_groups:
  assumes "unat acc = N mod 2 ^ m" "bits \<le> m" "0 < t" "t \<le> 8" "emitBits acc t bits = (out, rest)"
  shows "rest < t \<and> bits = t * length out + rest \<and> (\<forall>g \<in> set out. unat g < 2 ^ t)
    \<and> N div 2 ^ bits * 2 ^ (t * length out) + groupsVal t out = N div 2 ^ rest"
  using assms
proof (induction acc t bits arbitrary: out rest rule: emitBits.induct)
  case (1 acc t bits)
  show ?case
  proof (cases "bits < t")
    case True
    with "1.prems" show ?thesis by (simp add: emitBits.simps)
  next
    case False
    let ?g = "ucast (drop_bit (bits - t) acc AND (push_bit t 1 - 1)) :: byte"
    obtain out' where out: "emitBits acc t (bits - t) = (out', rest)" "out = ?g # out'"
      using "1.prems"(5) False "1.prems"(3) by (auto simp: emitBits.simps [of acc t bits] split: prod.splits)
    have IH: "rest < t \<and> bits - t = t * length out' + rest \<and> (\<forall>g \<in> set out'. unat g < 2 ^ t)
        \<and> N div 2 ^ (bits - t) * 2 ^ (t * length out') + groupsVal t out' = N div 2 ^ rest"
      by (rule "1.IH") (use False "1.prems" out in auto)
    have g: "unat ?g = (N div 2 ^ (bits - t)) mod 2 ^ t"
      by (rule emitted_group) (use "1.prems" False in auto)
    have "N div 2 ^ bits = N div 2 ^ (bits - t) div 2 ^ t"
      using False by (simp add: div_mult2_eq [symmetric] power_add [symmetric])
    then have "N div 2 ^ bits * 2 ^ t + unat ?g = N div 2 ^ (bits - t)"
      by (simp only: g div_mult_mod_eq)
    moreover have "N div 2 ^ bits * 2 ^ (t * length out) + groupsVal t out
        = (N div 2 ^ bits * 2 ^ t + unat ?g) * 2 ^ (t * length out') + groupsVal t out'"
      by (simp add: out(2) groupsVal_Cons power_add algebra_simps)
    moreover have "unat ?g < 2 ^ t" unfolding g by simp
    moreover have "bits = t + (t * length out' + rest)" using IH False by linarith
    then have "bits = t * length out + rest" by (simp add: out(2))
    ultimately show ?thesis using IH by (metis out(2) set_ConsD)
  qed
qed

lemma next_accumulator:
  assumes "unat acc = N mod 2 ^ m" "unat v < 2 ^ f" "m + f \<le> 32" "f \<le> m"
  shows "unat ((push_bit f acc OR ucast (v :: byte)) AND (push_bit m 1 - 1) :: u32) = (N * 2 ^ f + unat v) mod 2 ^ m"
proof -
  have lo: "k < f" if "bit v k" for k
  proof (rule ccontr)
    assume "\<not> k < f"
    then have "unat v < 2 ^ k" using assms(2) by (meson not_less order_less_le_trans power_increasing one_le_numeral)
    then have "take_bit k (unat v) = unat v" by (simp add: take_bit_nat_eq_self)
    then have "take_bit k v = v" by (metis unsigned_take_bit_eq unsigned_word_eqI)
    with that show False by (metis bit_take_bit_iff less_irrefl)
  qed
  have "push_bit f acc AND ucast v = 0" by (auto simp: bit_eq_iff bit_simps dest: lo)
  then have or: "push_bit f acc OR ucast v = push_bit f acc + ucast v" by (simp add: disjunctive_add_eq_or)
  have acc: "unat acc < 2 ^ m" using assms(1) by simp
  then have "unat acc * 2 ^ f < 2 ^ (m + f)" by (simp add: power_add)
  also have "(2 :: nat) ^ (m + f) \<le> 2 ^ 32" by (rule power_increasing) (use assms(3) in auto)
  finally have less: "unat acc * 2 ^ f < 2 ^ 32" .
  then have push: "unat (push_bit f acc) = unat acc * 2 ^ f"
    unfolding unsigned_push_bit_eq by (simp add: push_bit_eq_mult take_bit_nat_eq_self)
  have "Suc (unat acc) * 2 ^ f \<le> 2 ^ m * 2 ^ f" by (rule mult_le_mono1) (use acc in simp)
  also have "\<dots> = 2 ^ (m + f)" by (simp add: power_add)
  also have "(2 :: nat) ^ (m + f) \<le> 2 ^ 32" by (rule power_increasing) (use assms(3) in auto)
  finally have "unat acc * 2 ^ f + unat v < 2 ^ 32" using assms(2) by simp
  then have "unat (push_bit f acc + ucast v) = unat acc * 2 ^ f + unat v"
    by (simp add: unat_word_ariths push)
  then have "unat (take_bit m (push_bit f acc OR ucast v)) = (N mod 2 ^ m * 2 ^ f + unat v) mod 2 ^ m"
    unfolding or unsigned_take_bit_eq by (simp only: take_bit_eq_mod assms(1))
  then show ?thesis
    unfolding push_bit_minus_1 by (simp only: take_bit_eq_mask [symmetric]) (metis mod_add_left_eq mod_mult_left_eq)
qed

lemma convertLoop_groups:
  assumes "list_all (\<lambda>v. unat v < 2 ^ f) data" "unat acc = N mod 2 ^ (f + t - 1)" "bits < t" "t \<le> 8" "f \<le> 8" "0 < f"
  shows "\<exists>out acc' bits'. convertLoop f t data acc bits = Ok (out, acc', bits')
    \<and> bits' < t \<and> bits + f * length data = t * length out + bits' \<and> (\<forall>g \<in> set out. unat g < 2 ^ t)
    \<and> unat acc' = (N * 2 ^ (f * length data) + groupsVal f data) mod 2 ^ (f + t - 1)
    \<and> N div 2 ^ bits * 2 ^ (t * length out) + groupsVal t out = (N * 2 ^ (f * length data) + groupsVal f data) div 2 ^ bits'"
  using assms
proof (induction data arbitrary: acc N bits)
  case Nil
  then show ?case by simp
next
  case (Cons v data)
  let ?acc = "(push_bit f acc OR ucast v) AND (push_bit (f + t - 1) 1 - 1) :: u32"
  let ?N = "N * 2 ^ f + unat v"
  have v: "unat v < 2 ^ f" "list_all (\<lambda>v. unat v < 2 ^ f) data" using Cons.prems(1) by simp_all
  have acc: "unat ?acc = ?N mod 2 ^ (f + t - 1)"
    by (rule next_accumulator) (use Cons.prems v in auto)
  obtain out rest where emit: "emitBits ?acc t (bits + f) = (out, rest)" by fastforce
  have e: "rest < t \<and> bits + f = t * length out + rest \<and> (\<forall>g \<in> set out. unat g < 2 ^ t)
      \<and> ?N div 2 ^ (bits + f) * 2 ^ (t * length out) + groupsVal t out = ?N div 2 ^ rest"
    by (rule emitBits_groups [OF acc _ _ _ emit]) (use Cons.prems in auto)
  have "?N div 2 ^ (bits + f) = ?N div 2 ^ f div 2 ^ bits"
    by (simp only: add.commute [of bits f] power_add div_mult2_eq)
  then have N: "?N div 2 ^ (bits + f) = N div 2 ^ bits" using v(1) by simp
  obtain more acc' bits' where loop: "convertLoop f t data ?acc rest = Ok (more, acc', bits')"
      "bits' < t" "rest + f * length data = t * length more + bits'" "\<forall>g \<in> set more. unat g < 2 ^ t"
      "unat acc' = (?N * 2 ^ (f * length data) + groupsVal f data) mod 2 ^ (f + t - 1)"
      "?N div 2 ^ rest * 2 ^ (t * length more) + groupsVal t more = (?N * 2 ^ (f * length data) + groupsVal f data) div 2 ^ bits'"
    using Cons.IH [OF v(2) acc _ Cons.prems(4-6)] e by blast
  have total: "N * 2 ^ (f * length (v # data)) + groupsVal f (v # data) = ?N * 2 ^ (f * length data) + groupsVal f data"
    by (simp add: groupsVal_Cons power_add algebra_simps)
  have "drop_bit f (ucast v :: u32) = 0"
    unfolding word_unat_eq_iff unsigned_drop_bit_eq using v(1) by (simp add: drop_bit_eq_div)
  then have run: "convertLoop f t (v # data) acc bits = Ok (out @ more, acc', bits')"
    using loop(1) emit by simp
  have "N div 2 ^ bits * 2 ^ (t * length (out @ more)) + groupsVal t (out @ more)
      = (N div 2 ^ bits * 2 ^ (t * length out) + groupsVal t out) * 2 ^ (t * length more) + groupsVal t more"
    by (simp add: groupsVal_append power_add algebra_simps)
  also have "\<dots> = (?N * 2 ^ (f * length data) + groupsVal f data) div 2 ^ bits'"
    using loop(6) e N by simp
  finally have "N div 2 ^ bits * 2 ^ (t * length (out @ more)) + groupsVal t (out @ more)
      = (?N * 2 ^ (f * length data) + groupsVal f data) div 2 ^ bits'" .
  moreover have "bits + f * length (v # data) = t * length (out @ more) + bits'"
    using e loop(3) by (simp add: algebra_simps)
  ultimately show ?case
    unfolding total using run loop(2,4,5) e by (intro exI [of _ "out @ more"] exI [of _ acc'] exI [of _ bits']) auto
qed

lemma padding_value:
  assumes "unat acc = N mod 2 ^ 12"
  shows "unat (push_bit 4 acc AND (push_bit t 1 - 1) :: u32) = N mod 2 ^ 12 * 16 mod 2 ^ t"
proof -
  have "unat (push_bit 4 acc) = take_bit 32 (unat acc * 16)"
    unfolding unsigned_push_bit_eq by (simp add: push_bit_eq_mult)
  also have "\<dots> = unat acc * 16" by (rule take_bit_nat_eq_self) (use assms in simp)
  finally have "unat (take_bit t (push_bit 4 acc)) = N mod 2 ^ 12 * 16 mod 2 ^ t"
    unfolding unsigned_take_bit_eq by (simp only: take_bit_eq_mod assms)
  then show ?thesis unfolding push_bit_minus_1 by (simp only: take_bit_eq_mask [symmetric])
qed

lemma pqConvertBits_5:
  assumes "length key = 32"
  shows "\<exists>gs. pqConvertBits key 8 5 True = Ok gs \<and> length gs = 52 \<and> (\<forall>g \<in> set gs. unat g < 32)
    \<and> groupsVal 5 gs = natOfBytes key * 16"
proof -
  have "list_all (\<lambda>v. unat v < 2 ^ 8) key" by (simp add: list_all_iff)
  then obtain out acc bits where loop: "convertLoop 8 5 key 0 0 = Ok (out, acc, bits)" "bits < 5"
      "8 * length key = 5 * length out + bits" "\<forall>g \<in> set out. unat g < 2 ^ 5"
      "unat acc = groupsVal 8 key mod 2 ^ 12" "groupsVal 5 out = groupsVal 8 key div 2 ^ bits"
    using convertLoop_groups [of 8 key 0 0 5 0] by auto
  have bits: "length out = 51" "bits = 1" using loop(2,3) assms by arith+
  let ?N = "natOfBytes key"
  have acc: "unat acc = ?N mod 2 ^ 12" using loop(5) by (simp only: groupsVal_8)
  have pad: "unat (push_bit 4 acc AND (push_bit 5 1 - 1)) = ?N mod 2 * 16"
    unfolding padding_value [OF acc] using mult_mod_left [of "?N mod 4096" 2 16] by (simp add: mod_mod_cancel)
  then have pad8: "unat (ucast (push_bit 4 acc AND (push_bit 5 1 - 1)) :: byte) = ?N mod 2 * 16"
    unfolding unsigned_ucast_eq by (simp only:) (rule take_bit_nat_eq_self, simp)
  have "pqConvertBits key 8 5 True = Ok (out @ [ucast (push_bit 4 acc AND (push_bit 5 1 - 1))])"
    by (simp add: pqConvertBits_def loop(1) bits)
  moreover have "groupsVal 5 (out @ [ucast (push_bit 4 acc AND (push_bit 5 1 - 1))]) = ?N * 16"
    unfolding groupsVal_snoc pad8 using loop(6) by (simp add: groupsVal_8 bits) presburger
  moreover have "\<forall>g \<in> set (out @ [ucast (push_bit 4 acc AND (push_bit 5 1 - 1))]). unat g < 32"
    using loop(4) unfolding set_append by (auto simp: pad8 simp del: push_bit_of_1)
  ultimately show ?thesis using bits(1) by (intro exI [of _ "out @ [ucast (push_bit 4 acc AND (push_bit 5 1 - 1))]"]) simp
qed

lemma pqConvertBits_8:
  assumes "length gs = 52" "\<forall>g \<in> set gs. unat g < 32" "groupsVal 5 gs = natOfBytes key * 16" "length key = 32"
  shows "pqConvertBits gs 5 8 False = Ok key"
proof -
  have "list_all (\<lambda>v. unat v < 2 ^ 5) gs" using assms(2) by (simp add: list_all_iff)
  then obtain out acc bits where loop: "convertLoop 5 8 gs 0 0 = Ok (out, acc, bits)" "bits < 8"
      "5 * length gs = 8 * length out + bits"
      "unat acc = groupsVal 5 gs mod 2 ^ 12" "groupsVal 8 out = groupsVal 5 gs div 2 ^ bits"
    using convertLoop_groups [of 5 gs 0 0 8 0] by auto
  have bits: "length out = 32" "bits = 4" using loop(2,3) assms(1) by arith+
  have "natOfBytes out = natOfBytes key" using loop(5) by (simp add: groupsVal_8 bits assms(3))
  then have out: "out = key" using natOfBytes_inject [of out key] bits(1) assms(4) by simp
  have acc: "unat acc = natOfBytes key * 16 mod 2 ^ 12" using loop(4) by (simp only: assms(3))
  have "unat (push_bit 4 acc AND (push_bit 8 1 - 1)) = 0"
    unfolding padding_value [OF acc] using mult_mod_left [of "natOfBytes key * 16 mod 4096" 16 16] by (simp add: mod_mod_cancel)
  then have "push_bit 4 acc AND (push_bit 8 1 - 1) = 0" by (simp only: unat_eq_0)
  then show ?thesis by (simp add: pqConvertBits_def loop(1) bits out)
qed

section \<open>An address is its script\<close>

lemma charset_chars: "distinct pqCharset" "length pqCharset = 32"
    "list_all (\<lambda>c. \<not> (65 \<le> (of_char c :: nat) \<and> (of_char c :: nat) \<le> 90)) pqCharset"
  by (simp_all add: pqCharset_def)

lemma charsetIndex_charset: "n < 32 \<Longrightarrow> charsetIndex (pqCharset ! n) = Ok (of_nat n)"
proof -
  assume n: "n < 32"
  have "pqCharset ! i \<noteq> pqCharset ! n" if "i < n" for i
    using that n charset_chars(1,2) by (simp add: nth_eq_iff_index_eq)
  then have "takeWhile (\<lambda>x. x \<noteq> pqCharset ! n) pqCharset = take n pqCharset"
    by (intro takeWhile_eq_take_P_nth) simp_all
  moreover have "pqCharset ! n \<in> set pqCharset" using n charset_chars(2) by simp
  ultimately show ?thesis
    using n charset_chars(2) by (simp add: charsetIndex_def indexByte_def min_def)
qed

lemma lowerChar_charset: "n < 32 \<Longrightarrow> lowerChar (pqCharset ! n) = pqCharset ! n"
  using charset_chars(2,3) by (auto simp: list_all_length lowerChar_def)

lemma decode_charset:
  assumes "\<forall>g \<in> set gs. unat (g :: byte) < 32"
  shows "mapR charsetIndex (map (\<lambda>g. pqCharset ! unat g) gs) = Ok gs"
  using assms by (induction gs) (simp_all add: charsetIndex_charset)

text \<open>The groups an address spells: the version, the key and the checksum.\<close>

definition addressGroups :: "bytes \<Rightarrow> string \<Rightarrow> bytes" where
  "addressGroups data hrp =
     (let polymod = pqPolymod (pqHRPExpand hrp @ data @ replicate 6 0) XOR pqBech32mConstant
      in data @ map (\<lambda>i. ucast (drop_bit (5 * (5 - i)) polymod AND 31)) [0..<6])"

lemma unat_low_digit: "unat (ucast (x AND 31 :: u32) :: byte) = unat (x AND 31)" "unat (x AND 31 :: u32) < 32"
proof -
  have mask: "(31 :: u32) = mask 5" by (simp add: mask_eq_exp_minus_1)
  have "unat (take_bit 5 x) < 2 ^ 5" unfolding unsigned_take_bit_eq by (rule take_bit_nat_less_exp)
  then show less: "unat (x AND 31 :: u32) < 32" unfolding mask by (simp only: take_bit_eq_mask [symmetric]) simp
  show "unat (ucast (x AND 31 :: u32) :: byte) = unat (x AND 31)"
    unfolding unsigned_ucast_eq by (rule take_bit_nat_eq_self) (use less in simp)
qed

lemma pqAddress_shape:
  assumes "pqConvertBits (drop 3 script) 8 5 True = Ok gs" "isPQScript script"
  shows "pqAddressFromScript script hrp = Some (hrp @ CHR ''1'' # map (\<lambda>g. pqCharset ! unat g) (addressGroups (1 # gs) hrp))"
  using assms by (simp add: pqAddressFromScript_def addressGroups_def Let_def unat_low_digit(1) comp_def del: upt_Suc)

lemma addressGroups_checksum: "pqPolymod (pqHRPExpand hrp @ addressGroups data hrp) = pqBech32mConstant"
  using pqPolymod_checksum [of "pqHRPExpand hrp @ data"] by (simp add: addressGroups_def Let_def)

lemma addressGroups_range: "\<forall>g \<in> set data. unat g < 32 \<Longrightarrow> \<forall>g \<in> set (addressGroups data hrp). unat g < 32"
  by (auto simp: addressGroups_def Let_def unat_low_digit)

lemma pqScriptFromAddress_canonical:
  assumes pq: "pqAddressFromScript script hrp = Some address" and hrp: "toLower hrp = hrp"
  shows "pqScriptFromAddress address hrp = Ok script"
proof -
  have script: "isPQScript script" using pq by (auto simp: pqAddressFromScript_def split: if_splits)
  then have len: "length (drop 3 script) = 32" by (simp add: isPQScript_def)
  have "take 3 script = [0xff, 0x51, 0x20]"
    using script by (simp add: isPQScript_def numeral_3_eq_3 take_Suc_conv_app_nth numeral_2_eq_2)
  then have parts: "script = [0xff, 0x51, 0x20] @ drop 3 script" by (metis append_take_drop_id)
  obtain gs where gs: "pqConvertBits (drop 3 script) 8 5 True = Ok gs" "length gs = 52" "\<forall>g \<in> set gs. unat g < 32"
      "groupsVal 5 gs = natOfBytes (drop 3 script) * 16"
    using pqConvertBits_5 [OF len] by blast
  let ?all = "addressGroups (1 # gs) hrp"
  have address: "address = hrp @ CHR ''1'' # map (\<lambda>g. pqCharset ! unat g) ?all"
    using pqAddress_shape [OF gs(1) script, of hrp] pq by simp
  have range: "\<forall>g \<in> set ?all. unat g < 32" by (rule addressGroups_range) (use gs(3) in simp)
  then have "map (lowerChar \<circ> (\<lambda>g. pqCharset ! unat g)) ?all = map (\<lambda>g. pqCharset ! unat g) ?all"
    by (simp add: lowerChar_charset)
  moreover have "lowerChar (CHR ''1'') = CHR ''1''" by (simp add: lowerChar_def)
  ultimately have lower: "toLower address = address" using hrp by (simp add: address toLower_def)
  have shape: "length ?all = 59" "take 53 ?all = 1 # gs" using gs(2) by (simp_all add: addressGroups_def Let_def)
  have "pqConvertBits (drop 1 (1 # gs)) 5 8 False = Ok (drop 3 script)"
    using pqConvertBits_8 [OF gs(2,3,4) len] by simp
  moreover have "drop (length hrp + 1) address = map (\<lambda>g. pqCharset ! unat g) ?all" "take (length hrp + 1) address = hrp @ ''1''"
      "length address = length hrp + 1 + 53 + 6"
    using shape(1) by (simp_all add: address)
  ultimately show ?thesis
    using lower pq parts gs(2) len
    by (simp add: pqScriptFromAddress_def decode_charset [OF range] addressGroups_checksum shape)
qed

text \<open>
  C23: on either network an address denotes a script exactly when it is the address printed for
  that script. So printing and parsing are inverse to each other, every post-quantum script has
  an address that is accepted, and no second spelling of an address is.
\<close>

theorem pqAddress_exact:
  "(pqScriptFromAddress address (pqHRP net) = Ok script \<longleftrightarrow> pqAddressFromScript script (pqHRP net) = Some address)
   \<and> (isPQScript script \<longleftrightarrow> pqAddressFromScript script (pqHRP net) \<noteq> None)"
proof
  show "pqScriptFromAddress address (pqHRP net) = Ok script \<longleftrightarrow> pqAddressFromScript script (pqHRP net) = Some address"
  proof
    assume "pqScriptFromAddress address (pqHRP net) = Ok script"
    then show "pqAddressFromScript script (pqHRP net) = Some address"
      by (auto simp: pqScriptFromAddress_def catchR_def Let_def split: if_splits option.splits sum.splits go_error.splits)
  next
    assume "pqAddressFromScript script (pqHRP net) = Some address"
    moreover have "toLower ''olcpqtest'' = ''olcpqtest''" "toLower ''olcpq'' = ''olcpq''" by code_simp+
    then have "toLower (pqHRP net) = pqHRP net" by (simp add: pqHRP_def)
    ultimately show "pqScriptFromAddress address (pqHRP net) = Ok script" by (rule pqScriptFromAddress_canonical)
  qed
  show "isPQScript script \<longleftrightarrow> pqAddressFromScript script (pqHRP net) \<noteq> None"
    using pqConvertBits_5 [of "drop 3 script"] pqAddress_shape by (auto simp: pqAddressFromScript_def isPQScript_def Let_def)
qed

end
