(* ===== verification/PqTransaction.thy ===== *)
theory PqTransaction
  imports BaseParser
begin

text \<open>
  Raw post-quantum transactions (\<open>src/bchain/coins/pivx/pqtransaction.go\<close>): the bounded
  reader, its CompactSize numbers and \<open>parsePQTransaction\<close>. A \<open>bytes.Reader\<close> is the list of
  bytes that are left. The hash functions of \<open>chainhash\<close> and the decoding of an output script
  into addresses are parameters.
\<close>

section \<open>The reader\<close>

definition pqTransactionVersion :: u16 where "pqTransactionVersion = 3"
definition pqTransactionType :: u16 where "pqTransactionType = 8"
definition pqMaxTransactionSize :: nat where "pqMaxTransactionSize = 24000"
definition pqMaxInputs :: u64 where "pqMaxInputs = 2"
definition pqMaxOutputs :: u64 where "pqMaxOutputs = 3"

text \<open>Little-endian numbers, and \<open>io.ReadFull\<close> of a number of bytes.\<close>

definition leNat :: "bytes \<Rightarrow> nat" where
  "leNat bs = natOfBytes (rev bs)"

definition leBytes :: "nat \<Rightarrow> nat \<Rightarrow> bytes" where
  "leBytes k n = rev (bytesOfNat k n)"

definition readFull :: "nat \<Rightarrow> bytes \<Rightarrow> (bytes \<times> bytes) option" where
  "readFull n b = (if length b < n then None else Some (take n b, drop n b))"

definition truncated :: go_error where
  "truncated = ErrMsg ''truncated PQ transaction''"

definition orTruncated :: "'a option \<Rightarrow> 'a res" where
  "orTruncated r = (case r of None \<Rightarrow> Err truncated | Some x \<Rightarrow> Ok x)"

definition pqReader_byte :: "bytes \<Rightarrow> (byte \<times> bytes) res" where
  "pqReader_byte b = bindR (orTruncated (readFull 1 b)) (\<lambda>(x, b). Ok (hd x, b))"

definition pqReader_uint32 :: "bytes \<Rightarrow> (u32 \<times> bytes) res" where
  "pqReader_uint32 b = bindR (orTruncated (readFull 4 b)) (\<lambda>(x, b). Ok (of_nat (leNat x), b))"

definition pqReader_int64 :: "bytes \<Rightarrow> (int64 \<times> bytes) res" where
  "pqReader_int64 b = bindR (orTruncated (readFull 8 b)) (\<lambda>(x, b). Ok (of_nat (leNat x), b))"

text \<open>\<open>binary.Read\<close> of the two 16-bit numbers that open a transaction.\<close>

definition pqReader_uint16 :: "bytes \<Rightarrow> (u16 \<times> bytes) res" where
  "pqReader_uint16 b = bindR (orTruncated (readFull 2 b)) (\<lambda>(x, b). Ok (of_nat (leNat x), b))"

text \<open>A number of \<open>k\<close> bytes that must not be smaller than \<open>least\<close>.\<close>

definition compactPart :: "nat \<Rightarrow> nat \<Rightarrow> bytes \<Rightarrow> (u64 \<times> bytes) res" where
  "compactPart k least b =
     (case readFull k b of
        None \<Rightarrow> Err (ErrMsg ''invalid PQ CompactSize'')
      | Some (x, b) \<Rightarrow>
          if leNat x < least then Err (ErrMsg ''invalid PQ CompactSize'') else Ok (of_nat (leNat x), b))"

definition compactSize :: "u64 \<Rightarrow> bytes \<Rightarrow> (u64 \<times> bytes) res" where
  "compactSize limit b =
     bindR (pqReader_byte b) (\<lambda>(first, b).
     bindR (if first = 0xfd then compactPart 2 0xfd b
            else if first = 0xfe then compactPart 4 0x10000 b
            else if first = 0xff then compactPart 8 0x100000000 b
            else Ok (ucast first, b)) (\<lambda>(value, b).
     if value > limit then Err (ErrMsg ''PQ CompactSize exceeds limit'') else Ok (value, b)))"

definition pqReader_bytes :: "u64 \<Rightarrow> bytes \<Rightarrow> (bytes \<times> bytes) res" where
  "pqReader_bytes limit b =
     bindR (compactSize limit b) (\<lambda>(len, b). orTruncated (readFull (unat len) b))"

definition isNullHash :: "bytes \<Rightarrow> bool" where
  "isNullHash hash = list_all (\<lambda>value. value = 0) hash"

section \<open>Transactions\<close>

record parsedInput =
  pi_hash :: bytes
  pi_vout :: u32
  pi_script :: bytes
  pi_sequence :: u32

definition readInput :: "bytes \<Rightarrow> (parsedInput \<times> bytes) res" where
  "readInput b =
     bindR (orTruncated (readFull 32 b)) (\<lambda>(hash, b).
     bindR (pqReader_uint32 b) (\<lambda>(vout, b).
     bindR (pqReader_bytes (of_nat pqMaxTransactionSize) b) (\<lambda>(script, b).
     bindR (pqReader_uint32 b) (\<lambda>(sequence, b).
     Ok (\<lparr>pi_hash = hash, pi_vout = vout, pi_script = script, pi_sequence = sequence\<rparr>, b)))))"

definition readOutput :: "bytes \<Rightarrow> ((int64 \<times> bytes) \<times> bytes) res" where
  "readOutput b =
     bindR (pqReader_int64 b) (\<lambda>(value, b).
     bindR (pqReader_bytes (of_nat pqMaxTransactionSize) b) (\<lambda>(script, b). Ok ((value, script), b)))"

fun readN :: "(bytes \<Rightarrow> ('a \<times> bytes) res) \<Rightarrow> nat \<Rightarrow> bytes \<Rightarrow> ('a list \<times> bytes) res" where
  "readN rd 0 b = Ok ([], b)"
| "readN rd (Suc n) b = bindR (rd b) (\<lambda>(x, b). bindR (readN rd n b) (\<lambda>(xs, b). Ok (x # xs, b)))"

text \<open>
  What the transaction takes from other packages: the hash of a transaction, the text of a hash
  and the addresses of a script (\<open>OutputScriptToAddressesFunc\<close>, whose errors are ignored).
\<close>

record pq_env =
  pe_DoubleHashH :: "bytes \<Rightarrow> bytes"
  pe_hashString :: "bytes \<Rightarrow> string"
  pe_addresses :: "bytes \<Rightarrow> string list"

definition pqVout :: "pq_env \<Rightarrow> nat \<times> (int64 \<times> bytes) \<Rightarrow> Vout" where
  "pqVout E = (\<lambda>(i, value, script).
     \<lparr>vout_ValueSat = sint value, vout_JsonValue = [], vout_N = of_nat i,
      vout_ScriptPubKeyHex = hexEncodeToString script, vout_Addresses = pe_addresses E script\<rparr>)"

definition pqCoinbase :: "parsedInput list \<Rightarrow> bool" where
  "pqCoinbase inputs \<longleftrightarrow> length inputs = 1 \<and> isNullHash (pi_hash (inputs ! 0)) \<and> pi_vout (inputs ! 0) = 0xffffffff"

definition pqVin :: "pq_env \<Rightarrow> bool \<Rightarrow> parsedInput \<Rightarrow> Vin" where
  "pqVin E coinbase input =
     (if coinbase
      then \<lparr>vin_Coinbase = hexEncodeToString (pi_script input), vin_Txid = [], vin_Vout = 0, vin_ScriptSigHex = [],
            vin_Sequence = pi_sequence input, vin_Addresses = []\<rparr>
      else \<lparr>vin_Coinbase = [], vin_Txid = pe_hashString E (pi_hash input), vin_Vout = pi_vout input,
            vin_ScriptSigHex = hexEncodeToString (pi_script input), vin_Sequence = pi_sequence input, vin_Addresses = []\<rparr>)"

definition pqTx :: "pq_env \<Rightarrow> bytes \<Rightarrow> parsedInput list \<Rightarrow> (int64 \<times> bytes) list \<Rightarrow> u32 \<Rightarrow> Tx" where
  "pqTx E raw inputs outputs lockTime =
     \<lparr>tx_Hex = hexEncodeToString raw, tx_Txid = pe_hashString E (pe_DoubleHashH E raw),
      tx_Version = ucast pqTransactionVersion, tx_LockTime = lockTime,
      tx_Vin = map (pqVin E (pqCoinbase inputs)) inputs, tx_Vout = map (pqVout E) (indexed outputs),
      tx_Confirmations = 0, tx_Time = 0, tx_Blocktime = 0, tx_VShieldIn = [], tx_VShieldOut = [],
      tx_ShieldValBal = 0, tx_CoinSpecificData = None\<rparr>"

definition readMarker :: "byte \<Rightarrow> string \<Rightarrow> bytes \<Rightarrow> bytes res" where
  "readMarker expected message b =
     (case pqReader_byte b of
        Inl e \<Rightarrow> Err (ErrMsg message)
      | Inr (marker, b) \<Rightarrow> if marker \<noteq> expected then Err (ErrMsg message) else Ok b)"

definition parsePQTransaction :: "pq_env \<Rightarrow> bytes \<Rightarrow> Tx res" where
  "parsePQTransaction E raw =
     (if length raw > pqMaxTransactionSize then Err (ErrMsg ''PQ transaction exceeds size limit'')
      else bindR (pqReader_uint16 raw) (\<lambda>(version, r).
        bindR (pqReader_uint16 r) (\<lambda>(transactionType, r).
        if version \<noteq> pqTransactionVersion \<or> transactionType \<noteq> pqTransactionType
        then Err (ErrMsg ''not an OLC PQ transaction'')
        else bindR (compactSize pqMaxInputs r) (\<lambda>(inputCount, r).
        bindR (readN readInput (unat inputCount) r) (\<lambda>(inputs, r).
        bindR (compactSize pqMaxOutputs r) (\<lambda>(outputCount, r).
        bindR (readN readOutput (unat outputCount) r) (\<lambda>(outputs, r).
        bindR (pqReader_uint32 r) (\<lambda>(lockTime, r).
        bindR (readMarker 0 ''invalid PQ Sapling marker'' r) (\<lambda>r.
        bindR (readMarker 1 ''missing PQ extra payload'' r) (\<lambda>r.
        bindR (pqReader_bytes (of_nat pqMaxTransactionSize) r) (\<lambda>(payload, r).
        if length payload < 3 \<or> payload ! 0 \<noteq> 1 \<or> ucast (payload ! 2) > pqMaxInputs \<or> r \<noteq> []
        then Err (ErrMsg ''invalid PQ extra payload'')
        else Ok (pqTx E raw inputs outputs lockTime))))))))))))"

definition isPQTransaction :: "bytes \<Rightarrow> bool" where
  "isPQTransaction raw \<longleftrightarrow> length raw \<ge> 4 \<and> of_nat (leNat (take 2 raw)) = pqTransactionVersion
     \<and> of_nat (leNat (take 2 (drop 2 raw))) = pqTransactionType"

section \<open>Exact readers\<close>

text \<open>
  A reader is exact for an encoding when it accepts the encodings of valid values, with anything
  behind them, and nothing else. Readers that follow each other and repeated readers are exact
  again.
\<close>

locale exact_reader =
  fixes rd :: "bytes \<Rightarrow> ('a \<times> bytes) res" and wr :: "'a \<Rightarrow> bytes" and valid :: "'a \<Rightarrow> bool"
  assumes exact: "rd b = Ok (x, r) \<longleftrightarrow> valid x \<and> b = wr x @ r"
begin

lemma readN_exact:
  "readN rd n b = Ok (xs, r) \<longleftrightarrow> length xs = n \<and> list_all valid xs \<and> b = concat (map wr xs) @ r"
proof (induction n arbitrary: b xs)
  case (Suc n)
  have "readN rd (Suc n) b = Ok (xs, r) \<longleftrightarrow> (\<exists>y ys b'. rd b = Ok (y, b') \<and> readN rd n b' = Ok (ys, r) \<and> xs = y # ys)"
    by (auto simp: bindR_eq_Ok)
  also have "\<dots> \<longleftrightarrow> (\<exists>y ys. valid y \<and> length ys = n \<and> list_all valid ys \<and> b = wr y @ concat (map wr ys) @ r \<and> xs = y # ys)"
    by (auto simp: exact Suc.IH)
  also have "\<dots> \<longleftrightarrow> length xs = Suc n \<and> list_all valid xs \<and> b = concat (map wr xs) @ r"
    by (cases xs) auto
  finally show ?case .
qed auto

lemma reads: "valid x \<Longrightarrow> rd (wr x @ r) = Ok (x, r)"
  by (simp add: exact)

lemma readN_reads: "list_all valid xs \<Longrightarrow> readN rd (length xs) (concat (map wr xs) @ r) = Ok (xs, r)"
  by (simp add: readN_exact)

lemma uniquely_read: "valid x \<Longrightarrow> valid y \<Longrightarrow> wr x @ r = wr y @ s \<Longrightarrow> x = y \<and> r = s"
  using exact [of "wr x @ r" x r] exact [of "wr x @ r" y s] by simp

end

lemma readFull_exact: "readFull n b = Some (x, r) \<longleftrightarrow> length x = n \<and> b = x @ r"
  by (auto simp: readFull_def append_eq_conv_conj)

lemma orTruncated_Ok [simp]: "orTruncated m = Ok x \<longleftrightarrow> m = Some x"
  by (simp add: orTruncated_def split: option.splits)

lemma length_leBytes [simp]: "length (leBytes k n) = k"
  by (simp add: leBytes_def)

lemma leNat_leBytes: "leNat (leBytes k n) = n mod 256 ^ k"
  by (simp add: leNat_def leBytes_def natOfBytes_bytesOfNat)

lemma leBytes_leNat: "leBytes (length bs) (leNat bs) = bs"
  using bytesOfNat_natOfBytes [of "rev bs"] by (simp add: leNat_def leBytes_def)

lemma leNat_bound: "leNat bs < 256 ^ length bs"
  using natOfBytes_bound [of "rev bs"] by (simp add: leNat_def)

interpretation rd_byte: exact_reader pqReader_byte "\<lambda>b. [b]" "\<lambda>_. True"
proof
  show "pqReader_byte b = Ok (x, r) \<longleftrightarrow> True \<and> b = [x] @ r" for b x r
    by (auto simp: pqReader_byte_def bindR_eq_Ok readFull_exact length_Suc_conv)
qed

text \<open>A fixed number of bytes read as a word of that width.\<close>

lemma word_reader_exact:
  assumes "256 ^ k = (2 :: nat) ^ LENGTH('w::len)"
  shows "(\<exists>x. readFull k b = Some (x, r) \<and> of_nat (leNat x) = (w :: 'w word)) \<longleftrightarrow> b = leBytes k (unat w) @ r"
proof
  assume "\<exists>x. readFull k b = Some (x, r) \<and> of_nat (leNat x) = w"
  then obtain x where x: "length x = k" "b = x @ r" "of_nat (leNat x) = w" by (auto simp: readFull_exact)
  then have "unat w = leNat x" using leNat_bound [of x] assms by (simp add: unat_of_nat x(1) flip: x(3))
  then show "b = leBytes k (unat w) @ r" using leBytes_leNat [of x] x by simp
next
  assume "b = leBytes k (unat w) @ r"
  moreover have "of_nat (leNat (leBytes k (unat w))) = w"
    unfolding leNat_leBytes assms by (simp add: take_bit_eq_mod [symmetric] flip: unsigned_take_bit_eq)
  ultimately show "\<exists>x. readFull k b = Some (x, r) \<and> of_nat (leNat x) = w" by (auto simp: readFull_exact)
qed

interpretation rd_uint16: exact_reader pqReader_uint16 "\<lambda>w. leBytes 2 (unat w)" "\<lambda>_. True"
proof
  show "pqReader_uint16 b = Ok (x, r) \<longleftrightarrow> True \<and> b = leBytes 2 (unat x) @ r" for b x r
    using word_reader_exact [of 2 b r x] by (auto simp: pqReader_uint16_def bindR_eq_Ok)
qed

interpretation rd_uint32: exact_reader pqReader_uint32 "\<lambda>w. leBytes 4 (unat w)" "\<lambda>_. True"
proof
  show "pqReader_uint32 b = Ok (x, r) \<longleftrightarrow> True \<and> b = leBytes 4 (unat x) @ r" for b x r
    using word_reader_exact [of 4 b r x] by (auto simp: pqReader_uint32_def bindR_eq_Ok)
qed

interpretation rd_int64: exact_reader pqReader_int64 "\<lambda>w. leBytes 8 (unat w)" "\<lambda>_. True"
proof
  show "pqReader_int64 b = Ok (x, r) \<longleftrightarrow> True \<and> b = leBytes 8 (unat x) @ r" for b x r
    using word_reader_exact [of 8 b r x] by (auto simp: pqReader_int64_def bindR_eq_Ok)
qed

section \<open>CompactSize numbers\<close>

text \<open>The reference: the shortest of the four forms.\<close>

definition compactSizeEnc :: "u64 \<Rightarrow> bytes" where
  "compactSizeEnc v =
     (let n = unat v
      in if n < 0xfd then [of_nat n]
         else if n < 0x10000 then 0xfd # leBytes 2 n
         else if n < 0x100000000 then 0xfe # leBytes 4 n
         else 0xff # leBytes 8 n)"

lemma compactPart_exact:
  assumes "k \<le> 8"
  shows "compactPart k least b = Ok (v, r) \<longleftrightarrow> least \<le> unat v \<and> unat v < 256 ^ k \<and> b = leBytes k (unat v) @ r"
proof
  assume "compactPart k least b = Ok (v, r)"
  then obtain x where x: "length x = k" "b = x @ r" "least \<le> leNat x" "v = of_nat (leNat x)"
    by (auto simp: compactPart_def readFull_exact split: option.splits if_splits)
  have "leNat x < 256 ^ k" using leNat_bound [of x] x(1) by simp
  also have "(256 :: nat) ^ k \<le> 256 ^ 8" by (rule power_increasing) (use assms in auto)
  finally have "unat v = leNat x" by (simp add: x(4) unat_of_nat)
  then show "least \<le> unat v \<and> unat v < 256 ^ k \<and> b = leBytes k (unat v) @ r"
    using x leNat_bound [of x] leBytes_leNat [of x] by simp
next
  assume v: "least \<le> unat v \<and> unat v < 256 ^ k \<and> b = leBytes k (unat v) @ r"
  then have "readFull k b = Some (leBytes k (unat v), r)" by (simp add: readFull_exact)
  with v show "compactPart k least b = Ok (v, r)" by (simp add: compactPart_def leNat_leBytes)
qed

lemma u64_bound: "unat (v :: u64) < 256 ^ 8"
  using unsigned_less [of v, where ?'a = nat] by simp

text \<open>The body of the switch, before the limit is tested.\<close>

definition compactValue :: "byte \<Rightarrow> bytes \<Rightarrow> (u64 \<times> bytes) res" where
  "compactValue first b =
     (if first = 0xfd then compactPart 2 0xfd b
      else if first = 0xfe then compactPart 4 0x10000 b
      else if first = 0xff then compactPart 8 0x100000000 b
      else Ok (ucast first, b))"

lemma pqReader_byte_Cons [simp]: "pqReader_byte (x # b) = Ok (x, b)"
  by (simp add: rd_byte.exact)

lemma compactSize_Cons:
  "compactSize limit (first # b) = Ok (v, r) \<longleftrightarrow> v \<le> limit \<and> compactValue first b = Ok (v, r)"
  unfolding compactSize_def by (cases "compactValue first b") (auto simp: compactValue_def [symmetric] split: if_splits)

lemma compactSize_Nil: "compactSize limit [] = Err truncated"
  by (simp add: compactSize_def pqReader_byte_def readFull_def orTruncated_def)

lemma compact_single: "unat (ucast (first :: byte) :: u64) = unat first"
proof -
  have "unat first < 2 ^ 64" by (rule less_trans [OF unat_byte_less]) simp
  then show ?thesis unfolding unsigned_ucast_eq by (simp add: take_bit_nat_eq_self)
qed

lemma unat_to_byte: "unat (v :: u64) < 0xfd \<Longrightarrow> unat (ucast v :: byte) = unat v"
  unfolding unsigned_ucast_eq by (rule take_bit_nat_eq_self) simp

lemma compactValue_exact: "compactValue first b = Ok (v, r) \<longleftrightarrow> first # b = compactSizeEnc v @ r"
proof -
  consider "first = 0xfd" | "first = 0xfe" | "first = 0xff" | "unat first < 0xfd"
  proof -
    have "unat first < 0xfd \<or> unat first = 0xfd \<or> unat first = 0xfe \<or> unat first = 0xff"
      using unat_byte_less [of first] by arith
    with that show ?thesis by (auto simp: word_unat_eq_iff)
  qed
  then show ?thesis
  proof cases
    case 1
    then show ?thesis
      by (simp add: compactValue_def compactPart_exact) (auto simp: compactSizeEnc_def Let_def word_unat_eq_iff unat_to_byte)
  next
    case 2
    then show ?thesis
      by (simp add: compactValue_def compactPart_exact) (auto simp: compactSizeEnc_def Let_def word_unat_eq_iff unat_to_byte)
  next
    case 3
    then show ?thesis
      by (simp add: compactValue_def compactPart_exact) (use u64_bound [of v] in \<open>auto simp: compactSizeEnc_def Let_def word_unat_eq_iff unat_to_byte\<close>)
  next
    case 4
    then have "compactValue first b = Ok (v, r) \<longleftrightarrow> ucast first = v \<and> b = r"
      by (auto simp: compactValue_def)
    also have "\<dots> \<longleftrightarrow> unat first = unat v \<and> b = r" by (auto simp: word_unat_eq_iff compact_single)
    also have "\<dots> \<longleftrightarrow> first # b = compactSizeEnc v @ r"
      using 4 by (auto simp: compactSizeEnc_def Let_def word_unat_eq_iff unat_to_byte)
    finally show ?thesis .
  qed
qed

lemma compactSize_exact: "compactSize limit b = Ok (v, r) \<longleftrightarrow> v \<le> limit \<and> b = compactSizeEnc v @ r"
proof (cases b)
  case Nil
  then show ?thesis by (auto simp: compactSize_Nil compactSizeEnc_def Let_def)
next
  case (Cons first b')
  then show ?thesis by (simp add: compactSize_Cons compactValue_exact)
qed

interpretation rd_compact: exact_reader "compactSize limit" compactSizeEnc "\<lambda>v. v \<le> limit" for limit
  by unfold_locales (rule compactSize_exact)

section \<open>Scripts, inputs and outputs\<close>

definition bytesEnc :: "bytes \<Rightarrow> bytes" where
  "bytesEnc x = compactSizeEnc (of_nat (length x)) @ x"

definition maxBytes :: "bytes \<Rightarrow> bool" where
  "maxBytes x \<longleftrightarrow> length x \<le> pqMaxTransactionSize"

lemma unat_small_length: "length x \<le> pqMaxTransactionSize \<Longrightarrow> unat (of_nat (length x) :: u64) = length x"
  by (simp add: pqMaxTransactionSize_def unat_of_nat)

lemma unat_max_size: "unat (of_nat pqMaxTransactionSize :: u64) = pqMaxTransactionSize"
  by (simp add: pqMaxTransactionSize_def)

interpretation rd_bytes: exact_reader "pqReader_bytes (of_nat pqMaxTransactionSize)" bytesEnc maxBytes
proof
  fix b x r
  have "pqReader_bytes (of_nat pqMaxTransactionSize) b = Ok (x, r)
      \<longleftrightarrow> (\<exists>len :: u64. unat len \<le> pqMaxTransactionSize \<and> length x = unat len \<and> b = compactSizeEnc len @ x @ r)"
    by (auto simp: pqReader_bytes_def bindR_eq_Ok compactSize_exact readFull_exact word_le_nat_alt unat_max_size)
  also have "\<dots> \<longleftrightarrow> maxBytes x \<and> b = bytesEnc x @ r"
  proof
    assume "\<exists>len :: u64. unat len \<le> pqMaxTransactionSize \<and> length x = unat len \<and> b = compactSizeEnc len @ x @ r"
    then show "maxBytes x \<and> b = bytesEnc x @ r" by (auto simp: maxBytes_def bytesEnc_def)
  next
    assume "maxBytes x \<and> b = bytesEnc x @ r"
    then show "\<exists>len :: u64. unat len \<le> pqMaxTransactionSize \<and> length x = unat len \<and> b = compactSizeEnc len @ x @ r"
      using unat_small_length [of x] by (intro exI [of _ "of_nat (length x)"]) (simp add: maxBytes_def bytesEnc_def)
  qed
  finally show "pqReader_bytes (of_nat pqMaxTransactionSize) b = Ok (x, r) \<longleftrightarrow> maxBytes x \<and> b = bytesEnc x @ r" .
qed

definition inputEnc :: "parsedInput \<Rightarrow> bytes" where
  "inputEnc i = pi_hash i @ leBytes 4 (unat (pi_vout i)) @ bytesEnc (pi_script i) @ leBytes 4 (unat (pi_sequence i))"

definition okInput :: "parsedInput \<Rightarrow> bool" where
  "okInput i \<longleftrightarrow> length (pi_hash i) = 32 \<and> maxBytes (pi_script i)"

interpretation rd_input: exact_reader readInput inputEnc okInput
proof
  show "readInput b = Ok (x, r) \<longleftrightarrow> okInput x \<and> b = inputEnc x @ r" for b x r
    by (cases x) (auto simp: readInput_def bindR_eq_Ok readFull_exact rd_uint32.exact rd_bytes.exact okInput_def inputEnc_def)
qed

definition outputEnc :: "int64 \<times> bytes \<Rightarrow> bytes" where
  "outputEnc = (\<lambda>(value, script). leBytes 8 (unat value) @ bytesEnc script)"

interpretation rd_output: exact_reader readOutput outputEnc "\<lambda>(value, script). maxBytes script"
proof
  show "readOutput b = Ok (x, r) \<longleftrightarrow> (case x of (value, script) \<Rightarrow> maxBytes script) \<and> b = outputEnc x @ r" for b x r
    by (cases x) (auto simp: readOutput_def bindR_eq_Ok rd_int64.exact rd_bytes.exact outputEnc_def)
qed

lemma readMarker_exact: "readMarker m message b = Ok r \<longleftrightarrow> b = m # r"
  by (auto simp: readMarker_def rd_byte.exact split: sum.splits if_splits)

section \<open>Accepted transactions\<close>

record pq_raw =
  pq_inputs :: "parsedInput list"
  pq_outputs :: "(int64 \<times> bytes) list"
  pq_lockTime :: u32
  pq_payload :: bytes

text \<open>The reference encoding of a transaction and the limits it keeps.\<close>

definition pqEncode :: "pq_raw \<Rightarrow> bytes" where
  "pqEncode t =
     leBytes 2 3 @ leBytes 2 8
     @ compactSizeEnc (of_nat (length (pq_inputs t))) @ concat (map inputEnc (pq_inputs t))
     @ compactSizeEnc (of_nat (length (pq_outputs t))) @ concat (map outputEnc (pq_outputs t))
     @ leBytes 4 (unat (pq_lockTime t)) @ [0, 1] @ bytesEnc (pq_payload t)"

definition okPQ :: "pq_raw \<Rightarrow> bool" where
  "okPQ t \<longleftrightarrow> length (pqEncode t) \<le> pqMaxTransactionSize \<and> length (pq_inputs t) \<le> 2 \<and> length (pq_outputs t) \<le> 3
     \<and> list_all okInput (pq_inputs t) \<and> list_all (\<lambda>(value, script). maxBytes script) (pq_outputs t)
     \<and> maxBytes (pq_payload t) \<and> 3 \<le> length (pq_payload t) \<and> pq_payload t ! 0 = 1 \<and> unat (pq_payload t ! 2) \<le> 2"

lemma count_exact:
  assumes "m < 2 ^ 64"
  shows "(\<exists>v :: u64. v \<le> of_nat m \<and> length xs = unat v \<and> b = compactSizeEnc v @ r) \<longleftrightarrow> length xs \<le> m \<and> b = compactSizeEnc (of_nat (length xs)) @ r"
proof
  assume "\<exists>v :: u64. v \<le> of_nat m \<and> length xs = unat v \<and> b = compactSizeEnc v @ r"
  then show "length xs \<le> m \<and> b = compactSizeEnc (of_nat (length xs)) @ r"
    using assms by (auto simp: word_le_nat_alt unat_of_nat)
next
  assume "length xs \<le> m \<and> b = compactSizeEnc (of_nat (length xs)) @ r"
  then show "\<exists>v :: u64. v \<le> of_nat m \<and> length xs = unat v \<and> b = compactSizeEnc v @ r"
    using assms by (intro exI [of _ "of_nat (length xs)"]) (auto simp: word_le_nat_alt unat_of_nat)
qed

lemma payload_limit: "ucast (b :: byte) > pqMaxInputs \<longleftrightarrow> \<not> unat b \<le> 2"
  by (simp add: pqMaxInputs_def word_less_nat_alt compact_single not_le)

lemma limits: "pqMaxInputs = of_nat 2" "pqMaxOutputs = of_nat 3"
  by (simp_all add: pqMaxInputs_def pqMaxOutputs_def)

lemma version_words: "unat pqTransactionVersion = 3" "unat pqTransactionType = 8"
  by (simp_all add: pqTransactionVersion_def pqTransactionType_def)

lemma parsePQTransaction_decodes:
  assumes "parsePQTransaction E raw = Ok tx"
  shows "\<exists>t. okPQ t \<and> raw = pqEncode t \<and> tx = pqTx E raw (pq_inputs t) (pq_outputs t) (pq_lockTime t)"
proof -
  obtain inputCount inputs outputCount outputs lockTime payload r1 r2 r3 r4 r5 where
    size: "length raw \<le> pqMaxTransactionSize"
    and raw: "raw = leBytes 2 3 @ leBytes 2 8 @ r1"
    and ins: "compactSize pqMaxInputs r1 = Ok (inputCount, r2)" "readN readInput (unat inputCount) r2 = Ok (inputs, r3)"
    and outs: "compactSize pqMaxOutputs r3 = Ok (outputCount, r4)" "readN readOutput (unat outputCount) r4 = Ok (outputs, r5)"
    and rest: "r5 = leBytes 4 (unat lockTime) @ 0 # 1 # bytesEnc payload" "maxBytes payload"
    and payload: "3 \<le> length payload" "payload ! 0 = 1" "unat (payload ! 2) \<le> 2"
    and tx: "tx = pqTx E raw inputs outputs lockTime"
    using assms
    by (auto simp: parsePQTransaction_def bindR_eq_Ok rd_uint16.exact rd_uint32.exact rd_bytes.exact readMarker_exact
        payload_limit version_words not_less split: if_splits)
  let ?t = "\<lparr>pq_inputs = inputs, pq_outputs = outputs, pq_lockTime = lockTime, pq_payload = payload\<rparr>"
  have i: "length inputs \<le> 2" "r1 = compactSizeEnc (of_nat (length inputs)) @ r2"
    using ins count_exact [of 2 inputs r1 r2] by (auto simp: compactSize_exact rd_input.readN_exact limits)
  have o: "length outputs \<le> 3" "r3 = compactSizeEnc (of_nat (length outputs)) @ r4"
    using outs count_exact [of 3 outputs r3 r4] by (auto simp: compactSize_exact rd_output.readN_exact limits)
  have "raw = pqEncode ?t"
    using raw ins(2) outs(2) i o rest by (simp add: pqEncode_def rd_input.readN_exact rd_output.readN_exact)
  moreover have "okPQ ?t"
    using size payload rest(2) i(1) o(1) ins(2) outs(2) \<open>raw = pqEncode ?t\<close>
    by (simp add: okPQ_def rd_input.readN_exact rd_output.readN_exact)
  ultimately show ?thesis using tx by (intro exI [of _ ?t]) simp
qed

lemma compactSize_count: "length xs \<le> m \<Longrightarrow> m < 2 ^ 64 \<Longrightarrow> compactSize (of_nat m) (compactSizeEnc (of_nat (length xs)) @ r) = Ok (of_nat (length xs), r)"
  by (simp add: compactSize_exact word_le_nat_alt unat_of_nat)

lemma parsePQTransaction_encodes:
  assumes ok: "okPQ t"
  shows "parsePQTransaction E (pqEncode t) = Ok (pqTx E (pqEncode t) (pq_inputs t) (pq_outputs t) (pq_lockTime t))"
proof -
  let ?tail = "leBytes 4 (unat (pq_lockTime t)) @ [0, 1] @ bytesEnc (pq_payload t)"
  let ?outs = "compactSizeEnc (of_nat (length (pq_outputs t))) @ concat (map outputEnc (pq_outputs t)) @ ?tail"
  let ?ins = "compactSizeEnc (of_nat (length (pq_inputs t))) @ concat (map inputEnc (pq_inputs t)) @ ?outs"
  have two: "unat (of_nat (length (pq_inputs t)) :: u64) = length (pq_inputs t)" and three: "unat (of_nat (length (pq_outputs t)) :: u64) = length (pq_outputs t)"
    using ok by (auto simp: okPQ_def unat_of_nat)
  have "pqReader_uint16 (pqEncode t) = Ok (pqTransactionVersion, leBytes 2 8 @ ?ins)"
      "pqReader_uint16 (leBytes 2 8 @ ?ins) = Ok (pqTransactionType, ?ins)"
    by (simp_all add: rd_uint16.exact version_words pqEncode_def)
  moreover have "compactSize pqMaxInputs ?ins = Ok (of_nat (length (pq_inputs t)), concat (map inputEnc (pq_inputs t)) @ ?outs)"
    unfolding limits by (rule compactSize_count) (use ok in \<open>auto simp: okPQ_def\<close>)
  moreover have "readN readInput (length (pq_inputs t)) (concat (map inputEnc (pq_inputs t)) @ ?outs) = Ok (pq_inputs t, ?outs)"
    by (rule rd_input.readN_reads) (use ok in \<open>simp add: okPQ_def\<close>)
  moreover have "compactSize pqMaxOutputs ?outs = Ok (of_nat (length (pq_outputs t)), concat (map outputEnc (pq_outputs t)) @ ?tail)"
    unfolding limits by (rule compactSize_count) (use ok in \<open>auto simp: okPQ_def\<close>)
  moreover have "readN readOutput (length (pq_outputs t)) (concat (map outputEnc (pq_outputs t)) @ ?tail) = Ok (pq_outputs t, ?tail)"
    by (rule rd_output.readN_reads) (use ok in \<open>simp add: okPQ_def\<close>)
  moreover have "pqReader_uint32 ?tail = Ok (pq_lockTime t, [0, 1] @ bytesEnc (pq_payload t))"
    by (simp add: rd_uint32.exact)
  moreover have "readMarker 0 m ([0, 1] @ bytesEnc (pq_payload t)) = Ok (1 # bytesEnc (pq_payload t))"
      "readMarker 1 m' (1 # bytesEnc (pq_payload t)) = Ok (bytesEnc (pq_payload t))" for m m'
    by (simp_all add: readMarker_exact)
  moreover have "pqReader_bytes (of_nat pqMaxTransactionSize) (bytesEnc (pq_payload t)) = Ok (pq_payload t, [])"
    using rd_bytes.reads [of "pq_payload t" "[]"] ok by (simp add: okPQ_def)
  moreover have "length (pqEncode t) \<le> pqMaxTransactionSize" "\<not> length (pq_payload t) < 3" "pq_payload t ! 0 = 1"
      "\<not> pqMaxInputs < ucast (pq_payload t ! 2)"
    using ok by (simp_all add: okPQ_def payload_limit)
  ultimately show ?thesis
    unfolding parsePQTransaction_def by (simp only: bindR_Ok prod.case two three) simp
qed

text \<open>
  C24: a raw transaction is accepted exactly when it is the one encoding, with the shortest
  counts and no byte left over, of at most two inputs, at most three outputs, a lock time and a
  payload of version 1; the parsed transaction is then made of these parts. Nothing else is
  accepted and no transaction has a second encoding.
\<close>

theorem parsePQTransaction_exact:
  "parsePQTransaction E raw = Ok tx \<longleftrightarrow>
     (\<exists>t. okPQ t \<and> raw = pqEncode t \<and> tx = pqTx E raw (pq_inputs t) (pq_outputs t) (pq_lockTime t))"
  using parsePQTransaction_decodes parsePQTransaction_encodes by metis

text \<open>
  Every accepted transaction keeps the limits: its bytes, inputs and outputs, the numbering
  of the outputs, 64-bit amounts, and its id is the hash of exactly these bytes.
\<close>

theorem parsePQTransaction_bounds:
  assumes "parsePQTransaction E raw = Ok tx"
  shows "length raw \<le> 24000 \<and> isPQTransaction raw \<and> length (tx_Vin tx) \<le> 2 \<and> length (tx_Vout tx) \<le> 3
    \<and> (\<forall>i < length (tx_Vout tx). vout_N (tx_Vout tx ! i) = of_nat i
         \<and> - (2 ^ 63) \<le> vout_ValueSat (tx_Vout tx ! i) \<and> vout_ValueSat (tx_Vout tx ! i) < 2 ^ 63)
    \<and> hexDecodeString (tx_Hex tx) = Ok raw \<and> tx_Txid tx = pe_hashString E (pe_DoubleHashH E raw)"
proof -
  obtain t where t: "okPQ t" "raw = pqEncode t" "tx = pqTx E raw (pq_inputs t) (pq_outputs t) (pq_lockTime t)"
    using parsePQTransaction_decodes [OF assms] by blast
  have "isPQTransaction raw"
    by (simp add: t(2) isPQTransaction_def pqEncode_def leNat_leBytes pqTransactionVersion_def pqTransactionType_def)
  moreover have "- (2 ^ 63) \<le> sint v \<and> sint v < 2 ^ 63" for v :: int64
    using sint_range_size [of v] by (simp add: word_size)
  ultimately show ?thesis
    using t by (simp add: okPQ_def pqTx_def pqVout_def pqMaxTransactionSize_def split_beta)
qed

text \<open>Applied at a transaction without inputs and with one output of value 5.\<close>

definition samplePqEnv :: pq_env where
  "samplePqEnv = \<lparr>pe_DoubleHashH = take 32, pe_hashString = hexEncodeToString \<circ> rev, pe_addresses = \<lambda>s. []\<rparr>"

definition samplePqRaw :: bytes where
  "samplePqRaw = [3, 0, 8, 0, 0, 1, 5, 0, 0, 0, 0, 0, 0, 0, 1, 0x51, 7, 0, 0, 0, 0, 1, 3, 1, 0, 2]"

theorem parsePQTransaction_bounds_witness:
  "\<exists>tx. parsePQTransaction samplePqEnv samplePqRaw = Ok tx \<and> length (tx_Vout tx) \<le> 3 \<and> tx_LockTime tx = 7
     \<and> hexDecodeString (tx_Hex tx) = Ok samplePqRaw"
proof -
  have "parsePQTransaction samplePqEnv samplePqRaw = Ok (pqTx samplePqEnv samplePqRaw [] [(5, [0x51])] 7)"
    by code_simp
  from this parsePQTransaction_bounds [OF this] show ?thesis by (auto simp: pqTx_def)
qed

end
