(* ===== verification/PivxParser.thy ===== *)
theory PivxParser
  imports RocksDb BitcoinParser PqAddress PqTransaction
begin

text \<open>
  The parser of the coin (\<open>src/bchain/coins/pivx/pivxparser.go\<close> and \<open>pivxdecode.go\<close>): the
  Bitcoin parser with post-quantum and cold-staking scripts, the scripts of zerocoins, and the
  internal descriptors of outputs that have no script. \<open>json.Unmarshal\<close> is a parameter.
\<close>

section \<open>Reading numbers\<close>

datatype ByteOrder = LittleEndian | BigEndian

definition orderNat :: "ByteOrder \<Rightarrow> bytes \<Rightarrow> nat" where
  "orderNat byteOrder buf = (case byteOrder of LittleEndian \<Rightarrow> leNat buf | BigEndian \<Rightarrow> natOfBytes buf)"

text \<open>\<open>io.ReadFull\<close> into a buffer of \<open>n\<close> bytes, with its two errors.\<close>

definition readBuf :: "nat \<Rightarrow> bytes \<Rightarrow> (bytes \<times> bytes) res" where
  "readBuf n r =
     (case readFull n r of
        None \<Rightarrow> Err (ErrMsg (if r = [] then ''EOF'' else ''unexpected EOF''))
      | Some (buf, r) \<Rightarrow> Ok (buf, r))"

definition Uint8 :: "bytes \<Rightarrow> (byte \<times> bytes) res" where
  "Uint8 r = bindR (readBuf 1 r) (\<lambda>(buf, r). Ok (buf ! 0, r))"

definition Uint16 :: "ByteOrder \<Rightarrow> bytes \<Rightarrow> (u16 \<times> bytes) res" where
  "Uint16 byteOrder r = bindR (readBuf 2 r) (\<lambda>(buf, r). Ok (of_nat (orderNat byteOrder buf), r))"

definition Uint32 :: "ByteOrder \<Rightarrow> bytes \<Rightarrow> (u32 \<times> bytes) res" where
  "Uint32 byteOrder r = bindR (readBuf 4 r) (\<lambda>(buf, r). Ok (of_nat (orderNat byteOrder buf), r))"

definition Uint64 :: "ByteOrder \<Rightarrow> bytes \<Rightarrow> (u64 \<times> bytes) res" where
  "Uint64 byteOrder r = bindR (readBuf 8 r) (\<lambda>(buf, r). Ok (of_nat (orderNat byteOrder buf), r))"

section \<open>Scripts\<close>

definition OP_IF :: byte where "OP_IF = 0x63"
definition OP_ELSE :: byte where "OP_ELSE = 0x67"
definition OP_ENDIF :: byte where "OP_ENDIF = 0x68"
definition OP_DUP :: byte where "OP_DUP = 0x76"
definition OP_ROT :: byte where "OP_ROT = 0x7b"
definition OP_EQUALVERIFY :: byte where "OP_EQUALVERIFY = 0x88"
definition OP_HASH160 :: byte where "OP_HASH160 = 0xa9"
definition OP_CHECKSIG :: byte where "OP_CHECKSIG = 0xac"
definition OP_ZEROCOINMINT :: byte where "OP_ZEROCOINMINT = 0xc1"
definition OP_ZEROCOINSPEND :: byte where "OP_ZEROCOINSPEND = 0xc2"
definition ZCMINT_LABEL :: string where "ZCMINT_LABEL = ''Zerocoin Mint''"
definition ZCSPEND_LABEL :: string where "ZCSPEND_LABEL = ''Zerocoin Spend''"
definition CBASE_LABEL :: string where "CBASE_LABEL = ''CoinBase TX''"
definition CSTAKE_LABEL :: string where "CSTAKE_LABEL = ''CoinStake TX''"
definition CBASE_ADDR_INT :: byte where "CBASE_ADDR_INT = 0xf7"
definition CSTAKE_ADDR_INT :: byte where "CSTAKE_ADDR_INT = 0xf8"
definition STAKING_ADDR_MAIN :: byte where "STAKING_ADDR_MAIN = 95"
definition STAKING_ADDR_TEST :: byte where "STAKING_ADDR_TEST = 138"
definition MainnetMagic :: u32 where "MainnetMagic = 0x8a012ff6"

definition isZeroCoinMintScript :: "bytes \<Rightarrow> bool" where
  "isZeroCoinMintScript s \<longleftrightarrow> length s > 1 \<and> s ! 0 = OP_ZEROCOINMINT"

definition isZeroCoinSpendScript :: "bytes \<Rightarrow> bool" where
  "isZeroCoinSpendScript s \<longleftrightarrow> length s \<ge> 100 \<and> s ! 0 = OP_ZEROCOINSPEND"

definition IsP2CSScript :: "bytes \<Rightarrow> bool" where
  "IsP2CSScript s \<longleftrightarrow> length s = 51 \<and> s ! 0 = OP_DUP \<and> s ! 1 = OP_HASH160 \<and> s ! 2 = OP_ROT \<and> s ! 3 = OP_IF
     \<and> (s ! 4 = OP_CHECKCOLDSTAKEVERIFY \<or> s ! 4 = OP_CHECKCOLDSTAKEVERIFY_LOF) \<and> s ! 5 = 0x14
     \<and> s ! 26 = OP_ELSE \<and> s ! 27 = 0x14 \<and> s ! 48 = OP_ENDIF \<and> s ! 49 = OP_EQUALVERIFY \<and> s ! 50 = OP_CHECKSIG"

definition isCoinBaseFakeAddr :: "bytes \<Rightarrow> bool" where
  "isCoinBaseFakeAddr s \<longleftrightarrow> length s = 1 \<and> s ! 0 = CBASE_ADDR_INT"

definition isCoinStakeFakeAddr :: "bytes \<Rightarrow> bool" where
  "isCoinStakeFakeAddr s \<longleftrightarrow> length s = 1 \<and> s ! 0 = CSTAKE_ADDR_INT"

definition isCoinbaseTx :: "Tx \<Rightarrow> bool" where
  "isCoinbaseTx tx \<longleftrightarrow> length (tx_Vin tx) = 1 \<and> vin_Coinbase (tx_Vin tx ! 0) \<noteq> [] \<and> vin_Sequence (tx_Vin tx ! 0) = 0xffffffff"

section \<open>The parser\<close>

record chain_params =
  net_Net :: u32
  net_PubKeyHashAddrID :: byte
  net_ScriptHashAddrID :: byte
  net_PrivateKeyID :: byte

definition MainNetParams :: chain_params where
  "MainNetParams = \<lparr>net_Net = MainnetMagic, net_PubKeyHashAddrID = 115, net_ScriptHashAddrID = 98, net_PrivateKeyID = 45\<rparr>"

definition TestNetParams :: chain_params where
  "TestNetParams = \<lparr>net_Net = TestnetMagic, net_PubKeyHashAddrID = 127, net_ScriptHashAddrID = 196, net_PrivateKeyID = 239\<rparr>"

text \<open>The registration of the networks in the library, which may panic, is left out.\<close>

definition GetChainParams :: "string \<Rightarrow> chain_params" where
  "GetChainParams chain = (if chain = ''test'' then TestNetParams else MainNetParams)"

record PivXParser =
  pv_Bitcoin :: BitcoinParser
  pv_Params :: chain_params

definition NewPivXParser :: "chain_params \<Rightarrow> btc_configuration \<Rightarrow> PivXParser" where
  "NewPivXParser params c = \<lparr>pv_Bitcoin = NewBitcoinParser c, pv_Params = params\<rparr>"

text \<open>The first 20 of the 21 bytes that are copied.\<close>

definition P2CSScriptToAddress :: "('a, 'k) btc_lib \<Rightarrow> PivXParser \<Rightarrow> bytes \<Rightarrow> (string list \<times> bool) res" where
  "P2CSScriptToAddress L p script =
     (if length script < 50 then Err (ErrMsg ''Invalid P2CS script'')
      else let stakeID = (if net_Net (pv_Params p) = TestnetMagic then STAKING_ADDR_TEST else STAKING_ADDR_MAIN)
           in bindR (bl_NewAddressPubKeyHash L stakeID (take 20 (drop 6 script))) (\<lambda>StakerAddr.
              bindR (bl_NewAddressPubKeyHash L (net_PubKeyHashAddrID (pv_Params p)) (take 20 (drop 28 script))) (\<lambda>OwnerAddr.
              Ok ([bl_EncodeAddress L StakerAddr, bl_EncodeAddress L OwnerAddr], True))))"

definition outputScriptToAddresses :: "('a, 'k) btc_lib \<Rightarrow> PivXParser \<Rightarrow> bytes \<Rightarrow> (string list \<times> bool) res" where
  "outputScriptToAddresses L p script =
     (case pqAddressFromScript script (pqHRP (net_Net (pv_Params p))) of
        Some address \<Rightarrow> Ok ([address], True)
      | None \<Rightarrow>
          if isZeroCoinSpendScript script then Ok ([ZCSPEND_LABEL], False)
          else if isZeroCoinMintScript script then Ok ([ZCMINT_LABEL], False)
          else if isCoinBaseFakeAddr script then Ok ([CBASE_LABEL], False)
          else if isCoinStakeFakeAddr script then Ok ([CSTAKE_LABEL], False)
          else if IsP2CSScript script then P2CSScriptToAddress L p script
          else catchR (outputScriptToAddresses_btc L (pv_Bitcoin p) script) (\<lambda>_. Ok ([], False)) Ok)"

definition GetAddrDescFromAddress :: "('a, 'k) btc_lib \<Rightarrow> PivXParser \<Rightarrow> string \<Rightarrow> AddressDescriptor res" where
  "GetAddrDescFromAddress L p address =
     bindR (ValidateAddressLength address) (\<lambda>_.
     catchR (pqScriptFromAddress address (pqHRP (net_Net (pv_Params p))))
       (\<lambda>_. GetAddrDescFromAddress_btc L address) Ok)"

definition GetAddressesFromAddrDesc :: "('a, 'k) btc_lib \<Rightarrow> PivXParser \<Rightarrow> AddressDescriptor \<Rightarrow> (string list \<times> bool) res" where
  "GetAddressesFromAddrDesc L p addrDesc = outputScriptToAddresses L p addrDesc"

definition IsAddrDescIndexable_pivx :: "AddressDescriptor \<Rightarrow> bool" where
  "IsAddrDescIndexable_pivx addrDesc \<longleftrightarrow>
     \<not> (length addrDesc = 0 \<or> addrDesc ! 0 = OP_RETURN \<or> isCoinBaseFakeAddr addrDesc \<or> isCoinStakeFakeAddr addrDesc
        \<or> isZeroCoinSpendScript addrDesc \<or> isZeroCoinMintScript addrDesc)"

section \<open>Transactions\<close>

text \<open>The extra test keeps a transaction that spends a single zerocoin from being taken for a coinbase.\<close>

definition coinbaseInput :: "('a, 'k) btc_lib \<Rightarrow> MsgTx \<Rightarrow> TxIn \<Rightarrow> bool" where
  "coinbaseInput L t i \<longleftrightarrow> \<not> isZeroCoinSpendScript (in_SignatureScript i) \<and> bl_IsCoinBaseTx L t"

text \<open>The descriptor of an output without script: the bytes \<open>f7\<close> and \<open>f8\<close> in hexadecimal.\<close>

definition fakeHex :: "('a, 'k) btc_lib \<Rightarrow> MsgTx \<Rightarrow> string res" where
  "fakeHex L t =
     (if bl_IsCoinBaseTx L t
      then bindR (indexR (msg_TxIn t) 0) (\<lambda>i.
           Ok (hexEncodeToString [if \<not> isZeroCoinSpendScript (in_SignatureScript i) then CBASE_ADDR_INT else CSTAKE_ADDR_INT]))
      else Ok (hexEncodeToString [CSTAKE_ADDR_INT]))"

definition voutOf_pivx :: "('a, 'k) btc_lib \<Rightarrow> PivXParser \<Rightarrow> MsgTx \<Rightarrow> bool \<Rightarrow> nat \<times> TxOut \<Rightarrow> Vout res" where
  "voutOf_pivx L p t parseAddresses out =
     bindR (voutOf (outputScriptToAddresses L p) parseAddresses out) (\<lambda>vo.
     if vout_ScriptPubKeyHex vo = [] then bindR (fakeHex L t) (\<lambda>h. Ok (vo\<lparr>vout_ScriptPubKeyHex := h\<rparr>)) else Ok vo)"

definition TxFromMsgTx :: "('a, 'k) btc_lib \<Rightarrow> PivXParser \<Rightarrow> MsgTx \<Rightarrow> bool \<Rightarrow> Tx res" where
  "TxFromMsgTx L p t parseAddresses =
     bindR (mapR (voutOf_pivx L p t parseAddresses) (indexed (msg_TxOut t))) (\<lambda>vout.
     Ok (txOf L t (vinLoop L (coinbaseInput L t) (msg_TxIn t)) vout))"

definition pqEnv :: "('a, 'k) btc_lib \<Rightarrow> PivXParser \<Rightarrow> pq_env" where
  "pqEnv L p = \<lparr>pe_DoubleHashH = bl_DoubleHashH L, pe_hashString = bl_hashString L,
     pe_addresses = (\<lambda>s. case scriptAddrs (outputScriptToAddresses L p s) of Inl _ \<Rightarrow> [] | Inr addrs \<Rightarrow> addrs)\<rparr>"

definition ParseTx :: "('a, 'k) btc_lib \<Rightarrow> PivXParser \<Rightarrow> bytes \<Rightarrow> Tx res" where
  "ParseTx L p b =
     (if isPQTransaction b then parsePQTransaction (pqEnv L p) b
      else bindR (bl_Deserialize L b) (\<lambda>t.
           bindR (TxFromMsgTx L p t True) (\<lambda>tx. Ok (tx\<lparr>tx_Hex := hexEncodeToString b\<rparr>))))"

definition jsonVout :: "('a, 'k) btc_lib \<Rightarrow> PivXParser \<Rightarrow> Tx \<Rightarrow> Vout \<Rightarrow> Vout res" where
  "jsonVout L p tx vout =
     bindR (AmountToBigInt (AmountDecimals (btc_Base (pv_Bitcoin p))) (vout_JsonValue vout)) (\<lambda>valueSat.
     let vout = vout\<lparr>vout_ValueSat := valueSat, vout_JsonValue := []\<rparr>
     in bindR (if vout_Addresses vout = [] \<and> vout_ScriptPubKeyHex vout \<noteq> []
               then catchR (hexDecodeString (vout_ScriptPubKeyHex vout)) (\<lambda>_. Ok vout) (\<lambda>script.
                    catchR (outputScriptToAddresses L p script) (\<lambda>_. Ok vout) (\<lambda>(addresses, _).
                    Ok (if addresses \<noteq> [] then vout\<lparr>vout_Addresses := addresses\<rparr> else vout)))
               else Ok vout) (\<lambda>vout.
        Ok (if vout_ScriptPubKeyHex vout = []
            then vout\<lparr>vout_ScriptPubKeyHex := hexEncodeToString [if isCoinbaseTx tx then CBASE_ADDR_INT else CSTAKE_ADDR_INT]\<rparr>
            else vout)))"

definition ParseTxFromJson :: "(bytes \<Rightarrow> Tx res) \<Rightarrow> ('a, 'k) btc_lib \<Rightarrow> PivXParser \<Rightarrow> bytes \<Rightarrow> Tx res" where
  "ParseTxFromJson unmarshal L p msg =
     bindR (unmarshal msg) (\<lambda>tx.
     bindR (mapR (jsonVout L p tx) (tx_Vout tx)) (\<lambda>vouts. Ok (tx\<lparr>tx_Vout := vouts\<rparr>)))"

section \<open>Inputs that are not in the index\<close>

text \<open>\<open>script, _ := hex.DecodeString(s)\<close>: the bytes before the first error.\<close>

fun hexDecoded :: "string \<Rightarrow> bytes" where
  "hexDecoded (c # d # cs) =
     (case (fromHexChar c, fromHexChar d) of (Some h, Some l) \<Rightarrow> of_nat (h * 16 + l) # hexDecoded cs | _ \<Rightarrow> [])"
| "hexDecoded _ = []"

definition GetAddrDescForUnknownInput_pivx :: "Tx \<Rightarrow> nat \<Rightarrow> AddressDescriptor" where
  "GetAddrDescForUnknownInput_pivx tx input =
     (if length (tx_Vin tx) > input \<and> vin_ScriptSigHex (tx_Vin tx ! input) \<noteq> []
      then hexDecoded (vin_ScriptSigHex (tx_Vin tx ! input)) else replicate 10 0)"

definition GetValueSatFromZerocoinSpend :: "bytes \<Rightarrow> int res" where
  "GetValueSatFromZerocoinSpend signatureScript =
     bindR (Uint8 (drop 1 signatureScript)) (\<lambda>(len, r).
     bindR (Uint32 LittleEndian (drop (unat len) r)) (\<lambda>(denom, r).
     Ok (sint (ucast denom * 100000000 :: int64))))"

definition GetValueSatForUnknownInput_pivx :: "Tx \<Rightarrow> nat \<Rightarrow> int" where
  "GetValueSatForUnknownInput_pivx tx input =
     (if length (tx_Vin tx) > input \<and> vin_ScriptSigHex (tx_Vin tx ! input) \<noteq> []
      then let script = hexDecoded (vin_ScriptSigHex (tx_Vin tx ! input))
           in if isZeroCoinSpendScript script
              then case GetValueSatFromZerocoinSpend script of Inl e \<Rightarrow> 0 | Inr valueSat \<Rightarrow> valueSat
              else 0
      else 0)"

section \<open>The interface of the index\<close>

definition pivxChainParser :: "('a, 'k) btc_lib \<Rightarrow> proto_lib \<Rightarrow> PivXParser \<Rightarrow> chain_parser" where
  "pivxChainParser L proto p =
     \<lparr>cp_KeepBlockAddresses = KeepBlockAddresses (btc_Base (pv_Bitcoin p)),
      cp_AmountDecimals = AmountDecimals (btc_Base (pv_Bitcoin p)),
      cp_GetAddrDescFromVout = GetAddrDescFromVout L,
      cp_GetAddrDescFromAddress = GetAddrDescFromAddress L p,
      cp_GetAddressesFromAddrDesc = GetAddressesFromAddrDesc L p,
      cp_IsAddrDescIndexable = IsAddrDescIndexable_pivx,
      cp_PackedTxidLen = PackedTxidLen, cp_PackTxid = PackTxid, cp_UnpackTxid = UnpackTxid,
      cp_PackTx = PackTx proto, cp_UnpackTx = UnpackTx proto,
      cp_GetAddrDescForUnknownInput = GetAddrDescForUnknownInput_pivx,
      cp_GetValueSatForUnknownInput = GetValueSatForUnknownInput_pivx,
      cp_PackBlockHash = PackBlockHash, cp_UnpackBlockHash = UnpackBlockHash\<rparr>"

interpretation pivx_ids: id_packing "pivxChainParser L proto p" okHash for L proto p
proof
  show "\<exists>b. cp_PackTxid (pivxChainParser L proto p) t = Ok b \<and> length b = cp_PackedTxidLen (pivxChainParser L proto p)
      \<and> cp_UnpackTxid (pivxChainParser L proto p) b = Ok t" if "okHash t" for t
    using PackTxid_okHash [OF that] by (auto simp: pivxChainParser_def UnpackTxid_def)
  show "\<exists>b. cp_PackBlockHash (pivxChainParser L proto p) t = Ok b \<and> length b = cp_PackedTxidLen (pivxChainParser L proto p)
      \<and> cp_UnpackBlockHash (pivxChainParser L proto p) b = Ok t" if "okHash t" for t
    using PackTxid_okHash [OF that] by (auto simp: pivxChainParser_def UnpackBlockHash_def)
qed

section \<open>Post-quantum outputs\<close>

lemma pqAddress_accepted:
  assumes "pqAddressFromScript script (pqHRP net) = Some a"
  shows "pqScriptFromAddress a (pqHRP net) = Ok script" "ValidateAddressLength a = Ok ()"
proof -
  have "toLower ''olcpqtest'' = ''olcpqtest''" "toLower ''olcpq'' = ''olcpq''" by code_simp+
  then show ok: "pqScriptFromAddress a (pqHRP net) = Ok script"
    using pqScriptFromAddress_canonical [OF assms] by (simp add: pqHRP_def)
  then have "length a = length (pqHRP net) + 60"
    by (auto simp: pqScriptFromAddress_def split: if_splits)
  then show "ValidateAddressLength a = Ok ()"
    by (simp add: ValidateAddressLength_def MaxAddressLength_def pqHRP_def)
qed

text \<open>
  C25: the index can be searched for every post-quantum output: its script is indexed, has exactly
  one address, which is marked searchable, and looking that address up gives the script again.
\<close>

theorem pqOutput_searchable:
  assumes "isPQScript script"
  shows "\<exists>a. GetAddressesFromAddrDesc L p script = Ok ([a], True) \<and> GetAddrDescFromAddress L p a = Ok script
    \<and> IsAddrDescIndexable_pivx script"
proof -
  let ?hrp = "pqHRP (net_Net (pv_Params p))"
  have len: "length (drop 3 script) = 32" using assms by (simp add: isPQScript_def)
  obtain gs where "pqConvertBits (drop 3 script) 8 5 True = Ok gs" using pqConvertBits_5 [OF len] by blast
  then obtain a where a: "pqAddressFromScript script ?hrp = Some a" using pqAddress_shape [OF _ assms] by blast
  have "GetAddressesFromAddrDesc L p script = Ok ([a], True)"
    by (simp add: GetAddressesFromAddrDesc_def outputScriptToAddresses_def a)
  moreover have "GetAddrDescFromAddress L p a = Ok script"
    using pqAddress_accepted [OF a] by (simp add: GetAddrDescFromAddress_def)
  moreover have "IsAddrDescIndexable_pivx script"
    using assms by (auto simp: IsAddrDescIndexable_pivx_def isPQScript_def OP_RETURN_def isCoinBaseFakeAddr_def
        isCoinStakeFakeAddr_def isZeroCoinSpendScript_def isZeroCoinMintScript_def OP_ZEROCOINMINT_def)
  ultimately show ?thesis by blast
qed

definition samplePivx :: PivXParser where
  "samplePivx = \<lparr>pv_Bitcoin = sampleBtc, pv_Params = GetChainParams ''main''\<rparr>"

text \<open>C25 at a script whose key is all zero.\<close>

theorem pqOutput_searchable_witness:
  "isPQScript ([0xff, 0x51, 0x20] @ replicate 32 0)
   \<and> (\<exists>a. GetAddressesFromAddrDesc sampleLib samplePivx ([0xff, 0x51, 0x20] @ replicate 32 0) = Ok ([a], True)
        \<and> GetAddrDescFromAddress sampleLib samplePivx a = Ok ([0xff, 0x51, 0x20] @ replicate 32 0))"
proof -
  have "isPQScript ([0xff, 0x51, 0x20] @ replicate 32 0)" by (simp add: isPQScript_def)
  with pqOutput_searchable [OF this, of sampleLib samplePivx] show ?thesis by blast
qed

section \<open>Outputs without an address\<close>

lemma labelled_not_pq:
  "isZeroCoinSpendScript s \<or> isZeroCoinMintScript s \<or> isCoinBaseFakeAddr s \<or> isCoinStakeFakeAddr s
    \<Longrightarrow> pqAddressFromScript s hrp = None"
  by (auto simp: pqAddressFromScript_def isPQScript_def isZeroCoinSpendScript_def isZeroCoinMintScript_def
      isCoinBaseFakeAddr_def isCoinStakeFakeAddr_def OP_ZEROCOINMINT_def)

lemma voutOf_pivx_hex:
  assumes "voutOf_pivx L p t parseAddresses (i, out) = Ok vo"
  shows "vout_N vo = of_nat i" "vout_ValueSat vo = sint (out_Value out)" "vout_JsonValue vo = []"
    "vout_ScriptPubKeyHex vo = hexEncodeToString (out_PkScript out) \<and> out_PkScript out \<noteq> []
     \<or> out_PkScript out = [] \<and> vout_ScriptPubKeyHex vo \<in> {hexEncodeToString [CBASE_ADDR_INT], hexEncodeToString [CSTAKE_ADDR_INT]}"
proof -
  have empty: "hexEncodeToString b = [] \<longleftrightarrow> b = []" for b by (cases b) simp_all
  show "vout_N vo = of_nat i" "vout_ValueSat vo = sint (out_Value out)" "vout_JsonValue vo = []"
    "vout_ScriptPubKeyHex vo = hexEncodeToString (out_PkScript out) \<and> out_PkScript out \<noteq> []
     \<or> out_PkScript out = [] \<and> vout_ScriptPubKeyHex vo \<in> {hexEncodeToString [CBASE_ADDR_INT], hexEncodeToString [CSTAKE_ADDR_INT]}"
    using assms by (auto simp: voutOf_pivx_def voutOf_def fakeHex_def empty bindR_eq_Ok split: if_splits)
qed

text \<open>
  An output of a parsed transaction that has no script is stored under one of the two
  internal descriptors, which are shown by a label only, are not searchable and not indexed.
\<close>

theorem unaddressed_not_indexed:
  assumes "TxFromMsgTx L p t parseAddresses = Ok tx" "i < length (msg_TxOut t)" "out_PkScript (msg_TxOut t ! i) = []"
  shows "\<exists>d label. hexDecodeString (vout_ScriptPubKeyHex (tx_Vout tx ! i)) = Ok d \<and> label \<in> {CBASE_LABEL, CSTAKE_LABEL}
    \<and> GetAddressesFromAddrDesc L p d = Ok ([label], False) \<and> \<not> IsAddrDescIndexable_pivx d"
proof -
  obtain vouts where v: "mapR (voutOf_pivx L p t parseAddresses) (indexed (msg_TxOut t)) = Ok vouts" "tx_Vout tx = vouts"
    using assms(1) by (auto simp: TxFromMsgTx_def txOf_def)
  have "voutOf_pivx L p t parseAddresses (i, msg_TxOut t ! i) = Ok (tx_Vout tx ! i)"
    using mapR_nth [OF v(1), of i] assms(2) v(2) by simp
  from voutOf_pivx_hex(4) [OF this] assms(3)
  obtain b where b: "vout_ScriptPubKeyHex (tx_Vout tx ! i) = hexEncodeToString [b]" "b = CBASE_ADDR_INT \<or> b = CSTAKE_ADDR_INT"
    by auto
  have "pqAddressFromScript [b] hrp = None" for hrp
    by (rule labelled_not_pq) (use b(2) in \<open>auto simp: isCoinBaseFakeAddr_def isCoinStakeFakeAddr_def\<close>)
  then have "\<exists>label \<in> {CBASE_LABEL, CSTAKE_LABEL}. GetAddressesFromAddrDesc L p [b] = Ok ([label], False)"
    using b(2) by (auto simp: GetAddressesFromAddrDesc_def outputScriptToAddresses_def isZeroCoinSpendScript_def
        isZeroCoinMintScript_def isCoinBaseFakeAddr_def isCoinStakeFakeAddr_def)
  moreover have "\<not> IsAddrDescIndexable_pivx [b]"
    using b(2) by (auto simp: IsAddrDescIndexable_pivx_def isCoinBaseFakeAddr_def isCoinStakeFakeAddr_def)
  ultimately show ?thesis using b(1) hexDecode_encode [of "[b]"] by auto
qed

definition sampleMsg :: MsgTx where
  "sampleMsg = \<lparr>msg_Version = 1, msg_LockTime = 0, msg_TxIn = [], msg_TxOut = [\<lparr>out_Value = 0, out_PkScript = []\<rparr>]\<rparr>"

text \<open>Applied at the marker output of a coinstake transaction.\<close>

theorem unaddressed_not_indexed_witness:
  "\<exists>tx d. TxFromMsgTx sampleLib samplePivx sampleMsg False = Ok tx
     \<and> hexDecodeString (vout_ScriptPubKeyHex (tx_Vout tx ! 0)) = Ok d \<and> \<not> IsAddrDescIndexable_pivx d"
proof -
  have "isOk (TxFromMsgTx sampleLib samplePivx sampleMsg False)"
    by (simp add: TxFromMsgTx_def sampleMsg_def sampleLib_def indexed_def voutOf_pivx_def voutOf_def fakeHex_def isOk_def)
  then obtain tx where "TxFromMsgTx sampleLib samplePivx sampleMsg False = Ok tx" by (auto simp: isOk_iff)
  with unaddressed_not_indexed [OF this, of 0] show ?thesis by (auto simp: sampleMsg_def)
qed

section \<open>Parsed transactions are well formed\<close>

text \<open>What the index and the packing rely on in a transaction.\<close>

definition wfTx :: "Tx \<Rightarrow> bool" where
  "wfTx tx \<longleftrightarrow> okHash (tx_Txid tx) \<and> lowerHex (tx_Hex tx) \<and> list_all okVin (tx_Vin tx)
     \<and> (\<forall>i < length (tx_Vout tx). vout_N (tx_Vout tx ! i) = of_nat i \<and> vout_JsonValue (tx_Vout tx ! i) = []
          \<and> lowerHex (vout_ScriptPubKeyHex (tx_Vout tx ! i))
          \<and> - (2 ^ 63) \<le> vout_ValueSat (tx_Vout tx ! i) \<and> vout_ValueSat (tx_Vout tx ! i) < 2 ^ 63)"

text \<open>
  What the libraries document of hashes: they have 32 bytes and are printed as 64 lower-case
  hexadecimal digits.
\<close>

definition hashes_documented :: "('a, 'k) btc_lib \<Rightarrow> bool" where
  "hashes_documented L \<longleftrightarrow> (\<forall>h. length h = 32 \<longrightarrow> okHash (bl_hashString L h))
     \<and> (\<forall>t. length (bl_TxHash L t) = 32) \<and> (\<forall>b. length (bl_DoubleHashH L b) = 32)
     \<and> (\<forall>b t i. bl_Deserialize L b = Ok t \<and> i \<in> set (msg_TxIn t) \<longrightarrow> length (in_Hash i) = 32)"

lemma lowerHex_encode [simp]: "lowerHex (hexEncodeToString b)"
proof (induction b)
  case (Cons x b)
  have "hexDigit n \<in> set ''0123456789abcdef''" if "n < 16" for n
    using that unfolding hexDigit_def by (intro nth_mem) simp
  moreover have "unat x div 16 < 16" "unat x mod 16 < 16"
    using unat_byte_less [of x] by (simp_all add: less_mult_imp_div_less)
  ultimately show ?case using Cons by (auto simp: lowerHex_def)
qed (simp add: lowerHex_def)

lemma okVin_vinLoop:
  assumes "\<forall>h. length h = 32 \<longrightarrow> okHash (bl_hashString L h)" "\<forall>i \<in> set is. length (in_Hash i) = 32"
  shows "list_all okVin (vinLoop L coinbase is)"
proof -
  have empty: "okVin emptyVin" "lowerHex []" by (simp_all add: okVin_def emptyVin_def lowerHex_def)
  show ?thesis
    using assms(2)
  proof (induction "is")
    case (Cons i "is")
    then have "okVin (spendVin L i)" using assms(1) by (simp add: okVin_def spendVin_def okHash_def)
    moreover have "okVin (coinbaseVin i)" using empty by (simp add: okVin_def coinbaseVin_def emptyVin_def)
    ultimately show ?case using Cons empty by (simp add: list_all_iff)
  qed simp
qed

lemma int64_range: "- (2 ^ 63) \<le> sint (v :: int64) \<and> sint v < 2 ^ 63"
  using sint_range_size [of v] by (simp add: word_size)

lemma wfTx_pq:
  assumes docs: "hashes_documented L" and parsed: "parsePQTransaction (pqEnv L p) raw = Ok tx"
  shows "wfTx tx"
proof -
  obtain t where t: "okPQ t" "tx = pqTx (pqEnv L p) raw (pq_inputs t) (pq_outputs t) (pq_lockTime t)"
    using parsePQTransaction_decodes [OF parsed] by blast
  have "okVin (pqVin (pqEnv L p) coinbase i)" if "i \<in> set (pq_inputs t)" for coinbase i
    using that t(1) docs
    by (auto simp: okPQ_def list_all_iff okInput_def pqVin_def okVin_def pqEnv_def hashes_documented_def okHash_def lowerHex_def [of "[]"])
  moreover have "okHash (tx_Txid tx)" using docs by (simp add: t(2) pqTx_def pqEnv_def hashes_documented_def)
  ultimately show ?thesis
    using int64_range by (simp add: wfTx_def t(2) pqTx_def pqVout_def list_all_iff split_beta)
qed

lemma wfTx_msg:
  assumes docs: "hashes_documented L" and t: "bl_Deserialize L raw = Ok t" and parsed: "TxFromMsgTx L p t True = Ok tx"
  shows "wfTx (tx\<lparr>tx_Hex := hexEncodeToString raw\<rparr>)"
proof -
  obtain vouts where v: "mapR (voutOf_pivx L p t True) (indexed (msg_TxOut t)) = Ok vouts"
      "tx = txOf L t (vinLoop L (coinbaseInput L t) (msg_TxIn t)) vouts"
    using parsed by (auto simp: TxFromMsgTx_def)
  have vout: "vout_N (vouts ! i) = of_nat i \<and> vout_JsonValue (vouts ! i) = [] \<and> lowerHex (vout_ScriptPubKeyHex (vouts ! i))
      \<and> - (2 ^ 63) \<le> vout_ValueSat (vouts ! i) \<and> vout_ValueSat (vouts ! i) < 2 ^ 63" if "i < length vouts" for i
  proof -
    have "voutOf_pivx L p t True (i, msg_TxOut t ! i) = Ok (vouts ! i)"
      using mapR_nth [OF v(1), of i] mapR_length [OF v(1)] that by simp
    from voutOf_pivx_hex [OF this] int64_range show ?thesis by (auto simp del: hexEncodeToString.simps)
  qed
  have "list_all okVin (vinLoop L (coinbaseInput L t) (msg_TxIn t))"
    by (rule okVin_vinLoop) (use docs t in \<open>auto simp: hashes_documented_def\<close>)
  moreover have "okHash (bl_hashString L (bl_TxHash L t))" using docs by (simp add: hashes_documented_def)
  ultimately show ?thesis using vout by (simp add: wfTx_def v(2) txOf_def)
qed

text \<open>
  C26: every transaction the parser returns is well formed, post-quantum or not: a 32-byte id and
  ids of the spent transactions in hexadecimal, scripts in hexadecimal, outputs numbered in order,
  amounts of 64 bits. When no amount is negative it can be packed.
\<close>

theorem ParseTx_wellformed:
  assumes docs: "hashes_documented L" and parsed: "ParseTx L p raw = Ok tx"
  shows "wfTx tx \<and> hexDecodeString (tx_Hex tx) = Ok raw \<and> ((\<forall>vo \<in> set (tx_Vout tx). 0 \<le> vout_ValueSat vo) \<longrightarrow> okTx tx)"
proof -
  have wf: "wfTx tx \<and> tx_Hex tx = hexEncodeToString raw"
  proof (cases "isPQTransaction raw")
    case True
    then have pq: "parsePQTransaction (pqEnv L p) raw = Ok tx" using parsed by (simp add: ParseTx_def)
    then have "tx_Hex tx = hexEncodeToString raw" using parsePQTransaction_decodes [OF pq] by (auto simp: pqTx_def)
    with wfTx_pq [OF docs pq] show ?thesis by simp
  next
    case False
    then show ?thesis using parsed wfTx_msg [OF docs] by (auto simp: ParseTx_def)
  qed
  moreover have "okTx tx" if "\<forall>vo \<in> set (tx_Vout tx). 0 \<le> vout_ValueSat vo"
    using wf that by (auto simp: wfTx_def okTx_def okHash_def list_all_length okVout_def)
  ultimately show ?thesis by simp
qed

text \<open>C26 at the transaction of one byte of the example library.\<close>

theorem ParseTx_wellformed_witness:
  "hashes_documented sampleLib \<and> (\<exists>tx. ParseTx sampleLib samplePivx [9] = Ok tx \<and> wfTx tx \<and> hexDecodeString (tx_Hex tx) = Ok [9])"
proof -
  have "length (hexEncodeToString b) = 2 * length b" for b by (induction b) simp_all
  then have docs: "hashes_documented sampleLib"
    by (auto simp: hashes_documented_def sampleLib_def okHash_def split: if_splits)
  have "isOk (ParseTx sampleLib samplePivx [9])"
    by (simp add: ParseTx_def isPQTransaction_def TxFromMsgTx_def sampleLib_def isOk_def)
  then obtain tx where tx: "ParseTx sampleLib samplePivx [9] = Ok tx" by (auto simp: isOk_iff)
  from docs tx ParseTx_wellformed [OF docs tx] show ?thesis by blast
qed

section \<open>Spent zerocoins\<close>

lemma denomination_exact: "sint (ucast (denom :: u32) * 100000000 :: int64) = int (unat denom) * 100000000"
proof -
  have "unat denom < 2 ^ 32" using unsigned_less [of denom, where ?'a = nat] by simp
  then have bound: "unat denom * 100000000 < 2 ^ 63" by simp
  have "unat (ucast denom :: u64) = unat denom"
    unfolding unsigned_ucast_eq by (rule take_bit_nat_eq_self) (use \<open>unat denom < 2 ^ 32\<close> in simp)
  then have u: "unat (ucast denom * 100000000 :: u64) = unat denom * 100000000"
    using bound by (simp add: unat_word_ariths)
  then have "uint (ucast denom * 100000000 :: u64) = int (unat denom * 100000000)"
    by (metis uint_nat)
  moreover have "uint denom < 2 ^ 32" using unsigned_less [of denom, where ?'a = int] by simp
  then have "signed_take_bit 63 (uint denom * 100000000) = uint denom * 100000000"
    using signed_take_bit_int_eq_self [of 63 "uint denom * 100000000"] order_trans [of "- (2 ^ 63)" 0 "uint denom * 100000000"]
    by simp
  ultimately show ?thesis by (simp add: sint_uint)
qed

lemma zerocoinSpend_bounds:
  "GetValueSatFromZerocoinSpend s = Ok v \<Longrightarrow> 0 \<le> v \<and> v \<le> (2 ^ 32 - 1) * 100000000 \<and> v mod 100000000 = 0"
proof -
  assume "GetValueSatFromZerocoinSpend s = Ok v"
  then obtain denom :: u32 where v: "v = int (unat denom) * 100000000"
    by (auto simp: GetValueSatFromZerocoinSpend_def denomination_exact)
  have "uint denom \<le> 2 ^ 32 - 1" using unsigned_less [of denom, where ?'a = int] by simp
  then show ?thesis by (simp add: v)
qed

text \<open>
  A zerocoin spend of a serialised coin of fewer than 256 bytes is worth its denomination,
  the four bytes behind the coin, in whole coins; the product does not overflow 64 bits, and
  whatever the script of an input unknown to the index is, its value is a whole number of coins
  between 0 and \<open>2^32 - 1\<close>.
\<close>

theorem zerocoinSpend_value:
  assumes "length coin < 256"
  shows "GetValueSatFromZerocoinSpend (opcode # of_nat (length coin) # coin @ leBytes 4 (unat denom) @ rest)
      = Ok (int (unat (denom :: u32)) * 10 ^ 8)
    \<and> 0 \<le> GetValueSatForUnknownInput_pivx tx input
    \<and> GetValueSatForUnknownInput_pivx tx input \<le> (2 ^ 32 - 1) * 10 ^ 8
    \<and> GetValueSatForUnknownInput_pivx tx input mod 10 ^ 8 = 0"
proof -
  have "readFull 4 (leBytes 4 (unat denom) @ rest) = Some (leBytes 4 (unat denom), rest)"
    by (simp add: readFull_exact)
  moreover have "leNat (leBytes 4 (unat denom)) = unat denom"
    unfolding leNat_leBytes using unsigned_less [of denom, where ?'a = nat] by simp
  ultimately have "Uint32 LittleEndian (leBytes 4 (unat denom) @ rest) = Ok (denom, rest)"
    by (simp add: Uint32_def readBuf_def orderNat_def)
  moreover have "unat (of_nat (length coin) :: byte) = length coin" using assms by simp
  ultimately have "GetValueSatFromZerocoinSpend (opcode # of_nat (length coin) # coin @ leBytes 4 (unat denom) @ rest)
      = Ok (int (unat denom) * 100000000)"
    by (simp add: GetValueSatFromZerocoinSpend_def Uint8_def readBuf_def readFull_def denomination_exact)
  moreover have "0 \<le> GetValueSatForUnknownInput_pivx tx input \<and> GetValueSatForUnknownInput_pivx tx input \<le> (2 ^ 32 - 1) * 100000000
      \<and> GetValueSatForUnknownInput_pivx tx input mod 100000000 = 0"
    using zerocoinSpend_bounds by (auto simp: GetValueSatForUnknownInput_pivx_def Let_def split: sum.split)
  ultimately show ?thesis by simp
qed

text \<open>Applied at a coin of two bytes and the denomination 5000.\<close>

theorem zerocoinSpend_value_witness:
  "length [1 :: byte, 2] < 256 \<and> GetValueSatFromZerocoinSpend [0xc2, 2, 1, 2, 0x88, 0x13, 0, 0] = Ok 500000000000"
proof -
  have "leBytes 4 (unat (5000 :: u32)) = [0x88, 0x13, 0, 0]" by code_simp
  with zerocoinSpend_value [where coin = "[1, 2]" and opcode = "0xc2" and denom = 5000 and rest = "[]"] show ?thesis by simp
qed

section \<open>Cold staking\<close>

text \<open>
  The parser and the index read the owner of a cold-staking script from the same bytes.
\<close>

lemma coldStake_owner:
  assumes "IsP2CSScript s"
  shows "isPayToColdStake s" "getOwnerFromP2CS D s = scriptOf D [AddOp OP_DUP, AddOp OP_HASH160, AddData (take 20 (drop 28 s)), AddOp OP_EQUALVERIFY, AddOp OP_CHECKSIG]"
  using assms
  by (auto simp: IsP2CSScript_def isPayToColdStake_def getOwnerFromP2CS_def sliceR_def Let_def
      OP_DUP_def OP_HASH160_def OP_EQUALVERIFY_def OP_CHECKSIG_def min_def)

text \<open>
  The test of the index is weaker than the parser's: it takes any longer script with the opcode at
  the fifth place, here a multi-signature script, for a cold-staking script with an owner.
\<close>

lemma isPayToColdStake_weaker:
  "isPayToColdStake ([0x51, 0x21, 2, 3, 0xd1] @ replicate 66 0) \<and> \<not> IsP2CSScript ([0x51, 0x21, 2, 3, 0xd1] @ replicate 66 0)"
  by (simp add: isPayToColdStake_def IsP2CSScript_def OP_CHECKCOLDSTAKEVERIFY_LOF_def)

end
