(* ===== verification/Limits.thy ===== *)
theory Limits
  imports Prelude
begin

text \<open>
  The bounds of requests: pages of a result (\<open>src/api/paging.go\<close>), the limits of the public and
  the websocket interface (\<open>src/server/input_limits.go\<close>) and the headers of every answer
  (\<open>src/server/http_policy.go\<close>). Go's \<open>int\<close> has 64 bits here: every result of arithmetic is
  brought back into that range by \<open>wrap64\<close>.
\<close>

definition wrap64 :: "int \<Rightarrow> int" where
  "wrap64 x = signed_take_bit 63 x"

lemma wrap64_id: "- (2 ^ 63) \<le> x \<Longrightarrow> x < 2 ^ 63 \<Longrightarrow> wrap64 x = x"
  unfolding wrap64_def by (rule signed_take_bit_int_eq_self)

section \<open>Pages\<close>

text \<open>Both operands of the division are not negative, so that it rounds as Go's does.\<close>

definition computePageBounds :: "int \<Rightarrow> int \<Rightarrow> int \<Rightarrow> int \<times> int \<times> int \<times> int" where
  "computePageBounds count page itemsOnPage =
     (if count \<le> 0 \<or> itemsOnPage \<le> 0 then (0, 0, 0, 0)
      else let totalPages = wrap64 (1 + wrap64 (count - 1) div itemsOnPage);
               page = (if page < 0 then 0 else if page \<ge> totalPages then wrap64 (totalPages - 1) else page);
               from = wrap64 (page * itemsOnPage);
               to = (if itemsOnPage > wrap64 (count - from) then count else wrap64 (from + itemsOnPage))
           in (from, to, page, totalPages))"

section \<open>Limits of requests\<close>

definition maxSignedTransactionHexBytes :: nat where "maxSignedTransactionHexBytes = 4 * 2 ^ 20"
definition maxSignedTransactionFormBytes :: nat where "maxSignedTransactionFormBytes = maxSignedTransactionHexBytes + 2 ^ 10"
definition maxWebsocketMessageBytes :: nat where "maxWebsocketMessageBytes = maxSignedTransactionHexBytes"
definition maxWebsocketAddressSubscriptions :: int where "maxWebsocketAddressSubscriptions = 1000"
definition maxWebsocketFeeTargets :: nat where "maxWebsocketFeeTargets = 20"
definition maxFeeTargetBlocks :: int where "maxFeeTargetBlocks = 1008"
definition maxWebsocketRequestIDBytes :: nat where "maxWebsocketRequestIDBytes = 128"
definition maxWebsocketMethodBytes :: nat where "maxWebsocketMethodBytes = 64"
definition maxWebsocketPageSize :: int where "maxWebsocketPageSize = 100"
definition maxAddressHistoryResults :: int where "maxAddressHistoryResults = 100000"

definition validateSignedTransactionHex :: "string \<Rightarrow> unit res" where
  "validateSignedTransactionHex tx =
     (if length tx > maxSignedTransactionHexBytes
      then Err (ErrMsg ''signed transaction exceeds the 4 MiB limit'') else Ok ())"

text \<open>
  A body is the bytes it delivers and the error it ends with, if any; the reader stops one byte
  behind the limit and sees the error only when it gets to the end.
\<close>

definition readSignedTransactionBody :: "string \<times> go_error option \<Rightarrow> string res" where
  "readSignedTransactionBody = (\<lambda>(content, err).
     let b = take (maxSignedTransactionHexBytes + 1) content
     in bindR (if length content < maxSignedTransactionHexBytes + 1
               then (case err of None \<Rightarrow> Ok () | Some e \<Rightarrow> Err e) else Ok ()) (\<lambda>_.
        bindR (validateSignedTransactionHex b) (\<lambda>_. Ok b)))"

definition validateWebsocketAddressCount :: "int \<Rightarrow> unit res" where
  "validateWebsocketAddressCount count =
     (if count > maxWebsocketAddressSubscriptions
      then Err (ErrMsg ''address subscription exceeds the 1000-address limit'') else Ok ())"

definition validateWebsocketFeeTargets :: "int list \<Rightarrow> unit res" where
  "validateWebsocketFeeTargets targets =
     (if length targets > maxWebsocketFeeTargets then Err (ErrMsg ''fee estimate exceeds the 20-target limit'')
      else foldR (\<lambda>target _. if target < 1 \<or> target > maxFeeTargetBlocks
                             then Err (ErrMsg ''fee target must be between 1 and 1008 blocks'') else Ok ()) targets ())"

definition validateWebsocketRequestMetadata :: "string \<Rightarrow> string \<Rightarrow> unit res" where
  "validateWebsocketRequestMetadata ident method =
     (if length ident > maxWebsocketRequestIDBytes then Err (ErrMsg ''websocket request id exceeds the 128-byte limit'')
      else if length method > maxWebsocketMethodBytes then Err (ErrMsg ''websocket method exceeds the 64-byte limit'')
      else Ok ())"

text \<open>A page size of 0, which only a default of 0 gives, is a division by zero.\<close>

definition normalizeAddressPaging :: "int \<Rightarrow> int \<Rightarrow> int \<Rightarrow> int \<Rightarrow> (int \<times> int) res" where
  "normalizeAddressPaging page pageSize defaultPageSize maxPageSize =
     (let pageSize = (if pageSize \<le> 0 then defaultPageSize else if pageSize > maxPageSize then maxPageSize else pageSize);
          page = (if page < 1 then 1 else page)
      in if pageSize = 0 then Err (Panic ''integer divide by zero'')
         else let q = maxAddressHistoryResults div \<bar>pageSize\<bar>;
                  maxPage = (if pageSize < 0 then - q else q);
                  maxPage = (if maxPage < 1 then 1 else maxPage)
              in Ok (if page > maxPage then maxPage else page, pageSize))"

definition normalizeBlockHeight :: "int \<Rightarrow> u32" where
  "normalizeBlockHeight height = (if height \<le> 0 then 0 else if height > 0xffffffff then 0xffffffff else of_int height)"

section \<open>Headers\<close>

definition quoted :: "string \<Rightarrow> string" where
  "quoted s = [CHR 0x27] @ s @ [CHR 0x27]"

definition contentSecurityPolicy :: string where
  "contentSecurityPolicy =
     ''default-src '' @ quoted ''self'' @ ''; base-uri '' @ quoted ''self'' @ ''; connect-src '' @ quoted ''self''
     @ '' ws: wss:; font-src '' @ quoted ''self'' @ ''; form-action '' @ quoted ''self'' @ ''; frame-ancestors '' @ quoted ''none''
     @ ''; img-src '' @ quoted ''self'' @ '' data:; object-src '' @ quoted ''none'' @ ''; script-src '' @ quoted ''self''
     @ '' '' @ quoted ''unsafe-inline'' @ ''; style-src '' @ quoted ''self'' @ '' '' @ quoted ''unsafe-inline''"

definition securityHeaders :: "((string, string) gomap \<Rightarrow> 'r \<Rightarrow> 'w) \<Rightarrow> (string, string) gomap \<Rightarrow> 'r \<Rightarrow> 'w" where
  "securityHeaders nextHandler headers r =
     nextHandler (fold (\<lambda>(k, v). mapPut k v)
       [(''Content-Security-Policy'', contentSecurityPolicy),
        (''Permissions-Policy'', ''camera=(), geolocation=(), microphone=()''),
        (''Referrer-Policy'', ''no-referrer''),
        (''X-Content-Type-Options'', ''nosniff''),
        (''X-Frame-Options'', ''DENY'')] headers) r"

section \<open>A page lies in the result\<close>

lemma div_bounds: "0 < n \<Longrightarrow> a div n * n \<le> a \<and> a < (a div n + 1) * (n :: int)"
proof -
  assume "0 < n"
  moreover have "a div n * n = a - a mod n" by (simp only: minus_mod_eq_div_mult)
  moreover have "0 \<le> a mod n" "a mod n < n" using \<open>0 < n\<close> by simp_all
  ultimately show ?thesis by (simp only: distrib_right) linarith
qed

lemma page_offset:
  assumes "0 < count" "0 < n" "0 \<le> page" "page \<le> (count - 1) div (n :: int)"
  shows "page * n \<le> count - 1"
proof -
  have "page * n \<le> (count - 1) div n * n" using assms by (simp add: mult_right_mono)
  also have "\<dots> \<le> count - 1" using div_bounds [OF assms(2)] by blast
  finally show ?thesis .
qed

text \<open>
  The same computation on unbounded numbers: nothing in it leaves the 64-bit range.
\<close>

lemma computePageBounds_unbounded:
  fixes count page n :: int
  assumes "0 < count" "count < 2 ^ 63" "0 < n" "n < 2 ^ 63"
  defines "page' \<equiv> max 0 (min page ((count - 1) div n))"
  shows "computePageBounds count page n = (page' * n, min count (page' * n + n), page', 1 + (count - 1) div n)"
proof -
  have "0 \<le> (count - 1) div n" using assms(1,3) by (simp add: pos_imp_zdiv_nonneg_iff)
  moreover have "(count - 1) div n \<le> (count - 1) div n * n" using calculation assms(3) by (simp add: mult_le_cancel_left1)
  ultimately have q: "0 \<le> (count - 1) div n" "(count - 1) div n \<le> count - 1"
    using div_bounds [OF assms(3), of "count - 1"] by auto
  then have page': "0 \<le> page'" "page' \<le> (count - 1) div n" by (auto simp: page'_def)
  then have from_: "0 \<le> page' * n" "page' * n \<le> count - 1" using page_offset assms(1,3) by auto
  have w: "wrap64 (count - 1) = count - 1" "wrap64 (1 + (count - 1) div n) = 1 + (count - 1) div n"
      "wrap64 ((count - 1) div n) = (count - 1) div n" "wrap64 (page' * n) = page' * n" "wrap64 (count - page' * n) = count - page' * n"
    using assms(1,2) q from_ by (auto intro!: wrap64_id)
  have page: "(if page < 0 then 0 else if page \<ge> 1 + (count - 1) div n then wrap64 (1 + (count - 1) div n - 1) else page) = page'"
    using w(3) q by (auto simp: page'_def)
  have to: "(if n > count - page' * n then count else wrap64 (page' * n + n)) = min count (page' * n + n)"
    using assms(2,3) from_ by (auto intro!: wrap64_id)
  show ?thesis
    using assms(1,3) by (simp only: computePageBounds_def Let_def w page to) simp
qed

lemma int64_bounds: "sint (c :: int64) < 2 ^ 63" "- (2 ^ 63) \<le> sint c"
  using sint_range_size [of c] by (simp_all add: word_size)

text \<open>
  C27: for any 64-bit count, page and page size, negative ones too, the bounds cut a valid slice
  out of the result: they are in order, inside the result, and at most a page apart. A result that
  is not empty has a page that is not empty, a full one except for the last, and every item is on
  exactly the page its index says.
\<close>

theorem computePageBounds_slice:
  fixes c p n :: int64
  shows "case computePageBounds (sint c) (sint p) (sint n) of (from, to, safePage, totalPages) \<Rightarrow>
    if sint c \<le> 0 \<or> sint n \<le> 0 then (from, to, safePage, totalPages) = (0, 0, 0, 0)
    else 0 \<le> from \<and> from < to \<and> to \<le> sint c \<and> 0 \<le> safePage \<and> safePage < totalPages
      \<and> {from..<to} = {i. 0 \<le> i \<and> i < sint c \<and> i div sint n = safePage}
      \<and> (0 \<le> sint p \<and> sint p < totalPages \<longleftrightarrow> safePage = sint p) \<and> (totalPages - 1) * sint n < sint c \<and> sint c \<le> totalPages * sint n"
proof (cases "sint c \<le> 0 \<or> sint n \<le> 0")
  case True
  then show ?thesis by (auto simp: computePageBounds_def)
next
  case False
  define q where "q = (sint c - 1) div sint n"
  define page where "page = max 0 (min (sint p) q)"
  have pos: "0 < sint c" "0 < sint n" using False by auto
  then have q: "0 \<le> q" "q * sint n \<le> sint c - 1" using page_offset [of "sint c" "sint n" q] by (auto simp: q_def pos_imp_zdiv_nonneg_iff)
  have last: "sint c - 1 < (q + 1) * sint n"
    using div_bounds [OF pos(2), of "sint c - 1"] by (simp add: q_def)
  have page: "0 \<le> page" "page \<le> q" using q(1) by (auto simp: page_def)
  then have page_n: "page * sint n \<le> sint c - 1" using page_offset [of "sint c" "sint n" page] pos by (simp add: q_def)
  have run: "computePageBounds (sint c) (sint p) (sint n) = (page * sint n, min (sint c) (page * sint n + sint n), page, 1 + q)"
    using computePageBounds_unbounded [of "sint c" "sint n" "sint p"] pos int64_bounds by (simp add: page_def q_def)
  have items: "i div sint n = page \<longleftrightarrow> page * sint n \<le> i \<and> i < page * sint n + sint n" for i
    using div_bounds [OF pos(2), of i] int_div_pos_eq [of i "sint n" page "i - page * sint n"] by (auto simp: algebra_simps)
  have slice: "{page * sint n..<min (sint c) (page * sint n + sint n)} = {i. 0 \<le> i \<and> i < sint c \<and> i div sint n = page}"
    using page(1) pos(2) by (auto simp: items intro: order_trans [of 0 "page * sint n"])
  have safe: "0 \<le> sint p \<and> sint p < 1 + q \<longleftrightarrow> page = sint p" using q(1) by (auto simp: page_def)
  show ?thesis
    unfolding run prod.case slice safe using False q last page page_n pos by (auto simp: algebra_simps)
qed

section \<open>Requests are limited\<close>

text \<open>
  A history request that is let through starts at page 1 or later, asks for at least one and at
  most \<open>maxPageSize\<close> items a page, and ends within the first 100000 results unless it is the first
  page; a request within these limits is not changed. No page or page size panics.
\<close>

theorem normalizeAddressPaging_window:
  assumes "1 \<le> defaultPageSize" "defaultPageSize \<le> maxPageSize"
  shows "\<exists>page' size'. normalizeAddressPaging page pageSize defaultPageSize maxPageSize = Ok (page', size')
    \<and> 1 \<le> size' \<and> size' \<le> maxPageSize \<and> 1 \<le> page' \<and> (page' = 1 \<or> page' * size' \<le> maxAddressHistoryResults)
    \<and> (1 \<le> page \<and> 1 \<le> pageSize \<and> pageSize \<le> maxPageSize \<and> page * pageSize \<le> maxAddressHistoryResults
         \<longrightarrow> page' = page \<and> size' = pageSize)"
proof -
  define size' where "size' = (if pageSize \<le> 0 then defaultPageSize else if pageSize > maxPageSize then maxPageSize else pageSize)"
  define maxPage where "maxPage = max 1 (maxAddressHistoryResults div size')"
  define page' where "page' = min (max 1 page) maxPage"
  have size: "1 \<le> size'" "size' \<le> maxPageSize" using assms by (auto simp: size'_def)
  have run: "normalizeAddressPaging page pageSize defaultPageSize maxPageSize = Ok (page', size')"
    unfolding normalizeAddressPaging_def Let_def size'_def [symmetric]
    using size by (auto simp: page'_def maxPage_def max_def min_def)
  have div: "maxAddressHistoryResults div size' * size' \<le> maxAddressHistoryResults"
    using div_bounds [of size' maxAddressHistoryResults] size by simp
  have window: "page' = 1 \<or> page' * size' \<le> maxAddressHistoryResults"
  proof (cases "page' = 1")
    case False
    then have "page' \<le> maxAddressHistoryResults div size'" by (auto simp: page'_def maxPage_def)
    then have "page' * size' \<le> maxAddressHistoryResults div size' * size'" using size by (simp add: mult_right_mono)
    with div show ?thesis by linarith
  qed simp
  have same: "page' = page \<and> size' = pageSize"
    if "1 \<le> page" "1 \<le> pageSize" "pageSize \<le> maxPageSize" "page * pageSize \<le> maxAddressHistoryResults"
  proof -
    have "size' = pageSize" using that by (simp add: size'_def)
    moreover have "page \<le> maxAddressHistoryResults div pageSize"
      using zdiv_mono1 [OF that(4), of pageSize] that(2) by simp
    ultimately show ?thesis using that(1) by (auto simp: page'_def maxPage_def)
  qed
  have "1 \<le> page'" by (auto simp: page'_def maxPage_def)
  with run size window same show ?thesis by blast
qed

text \<open>Applied at the second page of the websocket interface with far too many items.\<close>

theorem normalizeAddressPaging_window_witness:
  "\<exists>page' size'. normalizeAddressPaging 2 5000 25 100 = Ok (page', size') \<and> 1 \<le> size' \<and> size' \<le> 100 \<and> 1 \<le> page'"
  using normalizeAddressPaging_window [of 25 100 2 5000] by auto

text \<open>What the other limits let through.\<close>

lemma validateWebsocketFeeTargets_iff:
  "validateWebsocketFeeTargets targets = Ok () \<longleftrightarrow> length targets \<le> 20 \<and> (\<forall>t \<in> set targets. 1 \<le> t \<and> t \<le> 1008)"
proof -
  have "foldR (\<lambda>target _. if target < 1 \<or> target > maxFeeTargetBlocks then Err e else Ok ()) ts () = Ok ()
      \<longleftrightarrow> (\<forall>t \<in> set ts. 1 \<le> t \<and> t \<le> 1008)" for e ts
    by (induction ts) (auto simp: maxFeeTargetBlocks_def)
  then show ?thesis by (auto simp: validateWebsocketFeeTargets_def maxWebsocketFeeTargets_def)
qed

lemma readSignedTransactionBody_iff:
  "readSignedTransactionBody (content, err) = Ok tx \<longleftrightarrow> err = None \<and> tx = content \<and> length content \<le> 4 * 2 ^ 20"
  by (auto simp: readSignedTransactionBody_def validateSignedTransactionHex_def maxSignedTransactionHexBytes_def
      split: if_splits option.splits)

lemma normalizeBlockHeight_clamp: "int (unat (normalizeBlockHeight h)) = max 0 (min h (2 ^ 32 - 1))"
proof -
  have "uint (of_int h :: u32) = h" if "0 \<le> h" "h \<le> 0xffffffff"
    using that by (simp add: uint_word_of_int)
  then show ?thesis by (auto simp: normalizeBlockHeight_def)
qed

end
