(* ===== verification/ApiTx.thy ===== *)
theory ApiTx
  imports IndexReads TxStore Mempool PivxParser Limits
begin

text \<open>
  Transactions, blocks and the mempool as the public interface shows them (\<open>src/api/worker.go\<close>,
  \<open>src/api/types.go\<close>). Reading a transaction may store it in the cache, so a request is an action
  on the handle of the index. A field \<open>*Amount\<close> is an optional number. An error wrapped with more
  text stays the same error; the waiting for the synchronisation of the node and log output are
  left out.
\<close>

section \<open>Actions\<close>

type_synonym ('db, 'a) act = "'db RocksDB \<Rightarrow> 'db RocksDB \<times> 'a res"

definition liftA :: "'a res \<Rightarrow> ('db, 'a) act" where
  "liftA r = (\<lambda>d. (d, r))"

definition readA :: "('db \<Rightarrow> 'a res) \<Rightarrow> ('db, 'a) act" where
  "readA f = (\<lambda>d. (d, f (d_db d)))"

definition bindA :: "('db, 'a) act \<Rightarrow> ('a \<Rightarrow> ('db, 'b) act) \<Rightarrow> ('db, 'b) act" where
  "bindA m f = (\<lambda>d. case m d of (d, Inl e) \<Rightarrow> (d, Err e) | (d, Inr x) \<Rightarrow> f x d)"

text \<open>An error is handled, a panic is not.\<close>

definition catchA :: "('db, 'a) act \<Rightarrow> (go_error \<Rightarrow> ('db, 'b) act) \<Rightarrow> ('a \<Rightarrow> ('db, 'b) act) \<Rightarrow> ('db, 'b) act" where
  "catchA m h f = (\<lambda>d. case m d of
     (d, Inl e) \<Rightarrow> (case e of Panic msg \<Rightarrow> (d, Err e) | OutOfFuel \<Rightarrow> (d, Err e) | _ \<Rightarrow> h e d)
   | (d, Inr x) \<Rightarrow> f x d)"

fun mapA :: "('a \<Rightarrow> ('db, 'b) act) \<Rightarrow> 'a list \<Rightarrow> ('db, 'b list) act" where
  "mapA f [] = liftA (Ok [])"
| "mapA f (x # xs) = bindA (f x) (\<lambda>y. bindA (mapA f xs) (\<lambda>ys. liftA (Ok (y # ys))))"

fun foldA :: "('a \<Rightarrow> 's \<Rightarrow> ('db, 's) act) \<Rightarrow> 'a list \<Rightarrow> 's \<Rightarrow> ('db, 's) act" where
  "foldA f [] s = liftA (Ok s)"
| "foldA f (x # xs) s = bindA (f x s) (foldA f xs)"

section \<open>Data\<close>

type_synonym amount = "int option"

definition AsBigInt :: "amount \<Rightarrow> int" where
  "AsBigInt a = (case a of None \<Rightarrow> 0 | Some x \<Rightarrow> x)"

definition maxUint32 :: u32 where "maxUint32 = NOT 0"

definition IsZeroBigInt :: "int \<Rightarrow> bool" where
  "IsZeroBigInt b \<longleftrightarrow> minBytes (nat \<bar>b\<bar>) = []"

text \<open>The messages of errors, as they are quoted in messages to the user.\<close>

fun errorText :: "go_error \<Rightarrow> string" where
  "errorText ErrBlockNotFound = ''Block not found''"
| "errorText ErrAddressMissing = ''Address missing''"
| "errorText ErrAddressTooLong = ''Address exceeds the 256-byte limit''"
| "errorText ErrTxidMissing = ''Txid missing''"
| "errorText ErrTxNotFound = ''Tx not found''"
| "errorText (ErrMsg s) = s"
| "errorText (APIError s p) = s"
| "errorText (Panic s) = s"
| "errorText OutOfFuel = []"

definition NewAPIError :: "string \<Rightarrow> bool \<Rightarrow> go_error" where
  "NewAPIError s public = APIError s public"

record api_vin =
  av_Txid :: string
  av_Vout :: u32
  av_Sequence :: int64
  av_N :: nat
  av_AddrDesc :: AddressDescriptor
  av_Addresses :: "string list"
  av_Searchable :: bool
  av_ValueSat :: amount
  av_Hex :: string
  av_Coinbase :: string

record api_vout =
  ao_ValueSat :: amount
  ao_N :: nat
  ao_Spent :: bool
  ao_SpentTxID :: string
  ao_SpentIndex :: int
  ao_SpentHeight :: int
  ao_Hex :: string
  ao_AddrDesc :: AddressDescriptor
  ao_Addresses :: "string list"
  ao_Searchable :: bool

record api_tx =
  at_Txid :: string
  at_Version :: int32
  at_Locktime :: u32
  at_Vin :: "api_vin list"
  at_Vout :: "api_vout list"
  at_Blockhash :: string
  at_Blockheight :: int
  at_Confirmations :: u32
  at_Blocktime :: int64
  at_ValueOutSat :: amount
  at_ValueInSat :: amount
  at_ShieldIns :: int
  at_ShieldOuts :: int
  at_ShieldValBal :: amount
  at_FeesSat :: amount
  at_Hex :: string
  at_CoinSpecificData :: "bytes option"
  at_CoinSpecificJSON :: string

text \<open>
  The node's answer on a block (\<open>bchain.BlockInfo\<close>), with the header fields the interface passes on.
\<close>

record chain_block_info =
  cbi_Hash :: string
  cbi_Prev :: string
  cbi_Next :: string
  cbi_Height :: u32
  cbi_Confirmations :: int
  cbi_Size :: int
  cbi_Time :: int64
  cbi_Version :: string
  cbi_MerkleRoot :: string
  cbi_Nonce :: string
  cbi_Bits :: string
  cbi_Difficulty :: string
  cbi_SaplingRoot :: string
  cbi_Txids :: "string list"

text \<open>
  A worker: the index with its libraries, the node, whether the cache is enabled, the time, the
  mempool, the node's own form of a transaction and of a block, and what \<open>json.Unmarshal\<close> leaves
  in a transaction.
\<close>

record 'db api_worker =
  aw_deps :: "'db deps"
  aw_chain :: block_chain
  aw_enabled :: bool
  aw_now :: go_time
  aw_mempool :: BaseMempool
  aw_GetTransactionSpecific :: "Tx \<Rightarrow> string res"
  aw_GetBlockInfo :: "string \<Rightarrow> chain_block_info res"
  aw_unmarshalTx :: "string \<Rightarrow> Tx"

abbreviation chainParser :: "'db api_worker \<Rightarrow> chain_parser" where
  "chainParser w \<equiv> parserOf (aw_deps w)"

definition txCacheGet :: "'db api_worker \<Rightarrow> string \<Rightarrow> ('db, Tx \<times> u32) act" where
  "txCacheGet w txid = GetTransaction (aw_deps w) (aw_chain w) (aw_enabled w) (aw_now w) txid"

section \<open>Addresses\<close>

text \<open>Where an error is only logged, there are no addresses.\<close>

definition addressesOf :: "chain_parser \<Rightarrow> AddressDescriptor \<Rightarrow> (string list \<times> bool) res" where
  "addressesOf p addrDesc = catchR (cp_GetAddressesFromAddrDesc p addrDesc) (\<lambda>_. Ok ([], False)) Ok"

definition getAddressesFromVout :: "chain_parser \<Rightarrow> Vout \<Rightarrow> (AddressDescriptor \<times> string list \<times> bool) res" where
  "getAddressesFromVout p vout =
     catchR (cp_GetAddrDescFromVout p vout) (\<lambda>_. Ok ([], [], False)) (\<lambda>addrDesc.
     bindR (addressesOf p addrDesc) (\<lambda>(a, s). Ok (addrDesc, a, s)))"

section \<open>The transaction that spent an output\<close>

text \<open>
  The callback of the scan: it goes through the inputs of a transaction of the address. The state
  of the closure is the output, the handle of the index and the error that ended the search.
\<close>

fun spendingLoop :: "'db api_worker \<Rightarrow> string \<Rightarrow> string \<Rightarrow> int32 list \<Rightarrow> api_vout \<times> 'db RocksDB
    \<Rightarrow> (api_vout \<times> 'db RocksDB \<times> go_error option) cb_result" where
  "spendingLoop w txid t [] (vout, d) = CbNext (vout, d, None)"
| "spendingLoop w txid t (index # indexes) (vout, d) =
     (if sint index < 0
      then let i = unat (NOT index)
           in case GetTxAddresses (aw_deps w) (d_db d) t of
                Inl e \<Rightarrow> CbStop (vout, d, Some e)
              | Inr None \<Rightarrow> spendingLoop w txid t indexes (vout, d)
              | Inr (Some tsp) \<Rightarrow>
                  if i < length (ta_Inputs tsp) \<and> ao_ValueSat vout = Some (ti_ValueSat (ta_Inputs tsp ! i))
                  then (case txCacheGet w t d of
                          (d, Inl e) \<Rightarrow>
                            (case e of
                               Panic m \<Rightarrow> CbStop (vout, d, Some e)
                             | OutOfFuel \<Rightarrow> CbStop (vout, d, Some e)
                             | _ \<Rightarrow> spendingLoop w txid t indexes (vout, d))
                        | (d, Inr (spentTx, spentHeight)) \<Rightarrow>
                            if i < length (tx_Vin spentTx) \<and> vin_Txid (tx_Vin spentTx ! i) = txid
                            then CbStop (vout\<lparr>ao_SpentTxID := t, ao_SpentHeight := uint spentHeight, ao_SpentIndex := int i\<rparr>, d, None)
                            else spendingLoop w txid t indexes (vout, d))
                  else spendingLoop w txid t indexes (vout, d)
      else spendingLoop w txid t indexes (vout, d))"

text \<open>
  When the scan itself fails the transactions it put into the cache before are not in the result.
\<close>

definition setSpendingTxToVout :: "'db api_worker \<Rightarrow> api_vout \<Rightarrow> string \<Rightarrow> u32 \<Rightarrow> ('db, api_vout) act" where
  "setSpendingTxToVout w vout txid height = (\<lambda>d.
     case GetAddrDescTransactions (aw_deps w) (d_db d) (ao_AddrDesc vout) height maxUint32
            (\<lambda>t _ indexes (vout, d, _). spendingLoop w txid t indexes (vout, d)) (vout, d, None) of
       Inl e \<Rightarrow> (d, Err e)
     | Inr (vout, d, None) \<Rightarrow> (d, Ok vout)
     | Inr (vout, d, Some e) \<Rightarrow> (d, Err e))"

section \<open>A transaction\<close>

definition sumAmounts :: "amount list \<Rightarrow> int" where
  "sumAmounts as = foldl (\<lambda>val a. case a of None \<Rightarrow> val | Some x \<Rightarrow> val + x) 0 as"

text \<open>An input, with the output it spends from the index, from the node or as the coin knows it.\<close>

definition apiVin :: "'db api_worker \<Rightarrow> Tx \<Rightarrow> nat \<times> Vin \<Rightarrow> ('db, api_vin) act" where
  "apiVin w bchainTx = (\<lambda>(i, bchainVin).
     let vin = \<lparr>av_Txid = vin_Txid bchainVin, av_Vout = vin_Vout bchainVin, av_Sequence = ucast (vin_Sequence bchainVin), av_N = i,
                av_AddrDesc = [], av_Addresses = [], av_Searchable = False, av_ValueSat = None,
                av_Hex = vin_ScriptSigHex bchainVin, av_Coinbase = vin_Coinbase bchainVin\<rparr>;
         n = unat (vin_Vout bchainVin);
         p = chainParser w
     in if vin_Txid bchainVin = [] then liftA (Ok vin)
        else bindA (readA (\<lambda>db. GetTxAddresses (aw_deps w) db (vin_Txid bchainVin))) (\<lambda>tas.
          case tas of
            None \<Rightarrow>
              catchA (txCacheGet w (vin_Txid bchainVin))
                (\<lambda>e. if e = ErrTxNotFound
                     then let addrDesc = cp_GetAddrDescForUnknownInput p bchainTx i
                          in bindA (liftA (addressesOf p addrDesc)) (\<lambda>(a, s).
                             liftA (Ok (vin\<lparr>av_AddrDesc := addrDesc, av_ValueSat := Some (cp_GetValueSatForUnknownInput p bchainTx i),
                                          av_Addresses := a, av_Searchable := s\<rparr>)))
                     else liftA (Err e))
                (\<lambda>(otx, _).
                     if n < length (tx_Vout otx)
                     then let vout = tx_Vout otx ! n
                          in bindA (liftA (getAddressesFromVout p vout)) (\<lambda>(addrDesc, a, s).
                             liftA (Ok (vin\<lparr>av_ValueSat := Some (vout_ValueSat vout), av_AddrDesc := addrDesc,
                                          av_Addresses := a, av_Searchable := s\<rparr>)))
                     else liftA (Ok vin))
          | Some tas \<Rightarrow>
              if n < length (ta_Outputs tas)
              then let output = ta_Outputs tas ! n
                   in bindA (liftA (addressesOf p (to_AddrDesc output))) (\<lambda>(a, s).
                      liftA (Ok (vin\<lparr>av_ValueSat := Some (to_ValueSat output), av_AddrDesc := to_AddrDesc output,
                                   av_Addresses := a, av_Searchable := s\<rparr>)))
              else liftA (Ok vin)))"

definition apiVout :: "'db api_worker \<Rightarrow> Tx \<Rightarrow> u32 \<Rightarrow> bool \<Rightarrow> TxAddresses option \<Rightarrow> nat \<times> Vout \<Rightarrow> ('db, api_vout) act" where
  "apiVout w bchainTx height spendingTxs ta = (\<lambda>(i, bchainVout).
     bindA (liftA (getAddressesFromVout (chainParser w) bchainVout)) (\<lambda>(addrDesc, a, s).
     let vout = \<lparr>ao_ValueSat = Some (vout_ValueSat bchainVout), ao_N = i, ao_Spent = False, ao_SpentTxID = [], ao_SpentIndex = 0,
                 ao_SpentHeight = 0, ao_Hex = vout_ScriptPubKeyHex bchainVout, ao_AddrDesc = addrDesc, ao_Addresses = a, ao_Searchable = s\<rparr>
     in case ta of
          None \<Rightarrow> liftA (Ok vout)
        | Some ta \<Rightarrow>
            bindA (liftA (indexR (ta_Outputs ta) (int i))) (\<lambda>output.
            let vout = vout\<lparr>ao_Spent := to_Spent output\<rparr>
            in if spendingTxs \<and> ao_Spent vout
               then catchA (setSpendingTxToVout w vout (tx_Txid bchainTx) height) (\<lambda>_. liftA (Ok vout)) (\<lambda>vout. liftA (Ok vout))
               else liftA (Ok vout))))"

definition GetTransactionFromBchainTx :: "'db api_worker \<Rightarrow> Tx \<Rightarrow> u32 \<Rightarrow> bool \<Rightarrow> bool \<Rightarrow> ('db, api_tx) act" where
  "GetTransactionFromBchainTx w bchainTx height spendingTxs specificJSON =
     bindA (if tx_Confirmations bchainTx > 0
            then bindA (readA (\<lambda>db. GetTxAddresses (aw_deps w) db (tx_Txid bchainTx))) (\<lambda>ta.
                 bindA (readA (\<lambda>db. GetBlockHash (aw_deps w) db height)) (\<lambda>blockhash. liftA (Ok (ta, blockhash))))
            else liftA (Ok (None, []))) (\<lambda>(ta, blockhash).
     bindA (mapA (apiVin w bchainTx) (indexed (tx_Vin bchainTx))) (\<lambda>vins.
     bindA (mapA (apiVout w bchainTx height spendingTxs ta) (indexed (tx_Vout bchainTx))) (\<lambda>vouts.
     let valInSat = sumAmounts (map av_ValueSat vins);
         valOutSat = sumAmounts (map ao_ValueSat vouts);
         feesSat = valInSat - valOutSat
     in bindA (if specificJSON then liftA (aw_GetTransactionSpecific w bchainTx) else liftA (Ok [])) (\<lambda>sj.
     let tempTx = aw_unmarshalTx w sj;
         saplingBalance = tx_ShieldValBal tempTx;
         feesSat = (if IsZeroBigInt saplingBalance then if feesSat < 0 then 0 else feesSat else feesSat + saplingBalance);
         blocktime = (if tx_Confirmations bchainTx = 0 then ucast (GetTransactionTime (tx_Txid bchainTx) (aw_mempool w)) else tx_Blocktime bchainTx)
     in liftA (Ok
          \<lparr>at_Txid = tx_Txid bchainTx, at_Version = tx_Version bchainTx, at_Locktime = tx_LockTime bchainTx, at_Vin = vins, at_Vout = vouts,
           at_Blockhash = blockhash, at_Blockheight = uint height, at_Confirmations = tx_Confirmations bchainTx, at_Blocktime = blocktime,
           at_ValueOutSat = Some valOutSat, at_ValueInSat = Some valInSat,
           at_ShieldIns = int (length (tx_VShieldIn tempTx)), at_ShieldOuts = int (length (tx_VShieldOut tempTx)),
           at_ShieldValBal = (if IsZeroBigInt saplingBalance then None else Some saplingBalance), at_FeesSat = Some feesSat,
           at_Hex = tx_Hex bchainTx, at_CoinSpecificData = tx_CoinSpecificData bchainTx, at_CoinSpecificJSON = sj\<rparr>)))))"

definition GetTransaction_api :: "'db api_worker \<Rightarrow> string \<Rightarrow> bool \<Rightarrow> bool \<Rightarrow> ('db, api_tx) act" where
  "GetTransaction_api w txid spendingTxs specificJSON =
     catchA (txCacheGet w txid)
       (\<lambda>e. liftA (Err (NewAPIError (if e = ErrTxNotFound then ''Transaction '' @ quoted txid @ '' not found''
                                      else ''Transaction '' @ quoted txid @ '' not found ('' @ errorText e @ '')'') True)))
       (\<lambda>(bchainTx, height). GetTransactionFromBchainTx w bchainTx height spendingTxs specificJSON)"

definition GetSpendingTxid :: "'db api_worker \<Rightarrow> string \<Rightarrow> int \<Rightarrow> ('db, string) act" where
  "GetSpendingTxid w txid n =
     bindA (GetTransaction_api w txid False False) (\<lambda>tx.
     if n \<ge> int (length (at_Vout tx)) \<or> n < 0
     then liftA (Err (NewAPIError (''Passed incorrect vout index '' @ bigString n @ '' for tx '' @ at_Txid tx @ '', len vout ''
                        @ natString (length (at_Vout tx))) False))
     else bindA (setSpendingTxToVout w (at_Vout tx ! nat n) (at_Txid tx) (of_int (at_Blockheight tx))) (\<lambda>vout.
          liftA (Ok (ao_SpentTxID vout))))"

section \<open>A transaction from the index alone\<close>

definition lightVin :: "chain_parser \<Rightarrow> nat \<times> TxInput \<Rightarrow> api_vin res" where
  "lightVin p = (\<lambda>(i, tai).
     bindR (addressesOf p (ti_AddrDesc tai)) (\<lambda>(a, s).
     Ok \<lparr>av_Txid = [], av_Vout = 0, av_Sequence = 0, av_N = i, av_AddrDesc = [], av_Addresses = a, av_Searchable = s,
         av_ValueSat = Some (ti_ValueSat tai), av_Hex = [], av_Coinbase = []\<rparr>))"

definition lightVout :: "chain_parser \<Rightarrow> nat \<times> TxOutput \<Rightarrow> api_vout res" where
  "lightVout p = (\<lambda>(i, tao).
     bindR (addressesOf p (to_AddrDesc tao)) (\<lambda>(a, s).
     Ok \<lparr>ao_ValueSat = Some (to_ValueSat tao), ao_N = i, ao_Spent = to_Spent tao, ao_SpentTxID = [], ao_SpentIndex = 0, ao_SpentHeight = 0,
         ao_Hex = [], ao_AddrDesc = [], ao_Addresses = a, ao_Searchable = s\<rparr>))"

definition txFromTxAddress :: "'db api_worker \<Rightarrow> string \<Rightarrow> TxAddresses \<Rightarrow> BlockInfo \<Rightarrow> u32 \<Rightarrow> api_tx res" where
  "txFromTxAddress w txid ta bi bestheight =
     bindR (mapR (lightVin (chainParser w)) (indexed (ta_Inputs ta))) (\<lambda>vins.
     bindR (mapR (lightVout (chainParser w)) (indexed (ta_Outputs ta))) (\<lambda>vouts.
     let valInSat = sumAmounts (map (\<lambda>tai. Some (ti_ValueSat tai)) (ta_Inputs ta));
         valOutSat = sumAmounts (map (\<lambda>tao. Some (to_ValueSat tao)) (ta_Outputs ta));
         feesSat = valInSat - valOutSat;
         feesSat = (if feesSat < 0 then 0 else feesSat);
         saplingBalance = ta_ShieldValBal ta;
         feesSat = (if IsZeroBigInt saplingBalance then feesSat else feesSat + saplingBalance)
     in Ok \<lparr>at_Txid = txid, at_Version = 0, at_Locktime = 0, at_Vin = vins, at_Vout = vouts,
            at_Blockhash = bi_Hash bi, at_Blockheight = uint (ta_Height ta), at_Confirmations = bestheight - ta_Height ta + 1,
            at_Blocktime = bi_Time bi, at_ValueOutSat = Some valOutSat, at_ValueInSat = Some valInSat,
            at_ShieldIns = uint (ta_ShieldIns ta), at_ShieldOuts = uint (ta_ShieldOuts ta),
            at_ShieldValBal = (if IsZeroBigInt saplingBalance then None else Some saplingBalance), at_FeesSat = Some feesSat,
            at_Hex = [], at_CoinSpecificData = None, at_CoinSpecificJSON = []\<rparr>))"

datatype AccountDetails =
    AccountDetailsBasic
  | AccountDetailsTokens
  | AccountDetailsTokenBalances
  | AccountDetailsTxidHistory
  | AccountDetailsTxHistoryLight
  | AccountDetailsTxHistory

fun detailLevel :: "AccountDetails \<Rightarrow> nat" where
  "detailLevel AccountDetailsBasic = 0"
| "detailLevel AccountDetailsTokens = 1"
| "detailLevel AccountDetailsTokenBalances = 2"
| "detailLevel AccountDetailsTxidHistory = 3"
| "detailLevel AccountDetailsTxHistoryLight = 4"
| "detailLevel AccountDetailsTxHistory = 5"

instantiation AccountDetails :: linorder
begin
definition less_eq_AccountDetails :: "AccountDetails \<Rightarrow> AccountDetails \<Rightarrow> bool" where
  "less_eq_AccountDetails a b \<longleftrightarrow> detailLevel a \<le> detailLevel b"
definition less_AccountDetails :: "AccountDetails \<Rightarrow> AccountDetails \<Rightarrow> bool" where
  "less_AccountDetails a b \<longleftrightarrow> detailLevel a < detailLevel b"
instance
proof
  fix a b :: AccountDetails
  show "a \<le> b \<Longrightarrow> b \<le> a \<Longrightarrow> a = b"
    by (cases a; cases b) (simp_all add: less_eq_AccountDetails_def)
qed (auto simp: less_eq_AccountDetails_def less_AccountDetails_def)
end

definition emptyBlockInfo :: BlockInfo where
  "emptyBlockInfo = \<lparr>bi_Hash = [], bi_Time = 0, bi_Txs = 0, bi_Size = 0, bi_Height = 0\<rparr>"

definition txFromTxid :: "'db api_worker \<Rightarrow> string \<Rightarrow> u32 \<Rightarrow> AccountDetails \<Rightarrow> BlockInfo option \<Rightarrow> ('db, api_tx) act" where
  "txFromTxid w txid bestheight details blockInfo =
     (if details = AccountDetailsTxHistoryLight
      then bindA (readA (\<lambda>db. GetTxAddresses (aw_deps w) db txid)) (\<lambda>ta.
           case ta of
             None \<Rightarrow> GetTransaction_api w txid False True
           | Some ta \<Rightarrow>
               bindA (case blockInfo of
                        Some bi \<Rightarrow> liftA (Ok bi)
                      | None \<Rightarrow> bindA (readA (\<lambda>db. GetBlockInfo (aw_deps w) db (ta_Height ta))) (\<lambda>bi.
                                liftA (Ok (case bi of None \<Rightarrow> emptyBlockInfo | Some bi \<Rightarrow> bi)))) (\<lambda>bi.
               liftA (txFromTxAddress w txid ta bi bestheight)))
      else bindA (GetTransaction_api w txid False True) (\<lambda>tx.
           liftA (Ok (case blockInfo of None \<Rightarrow> tx | Some bi \<Rightarrow> tx\<lparr>at_Blocktime := bi_Time bi\<rparr>))))"

section \<open>Pages of blocks and of the mempool\<close>

record Paging =
  pg_Page :: int
  pg_TotalPages :: int
  pg_ItemsOnPage :: int

definition computePaging :: "int \<Rightarrow> int \<Rightarrow> int \<Rightarrow> Paging \<times> int \<times> int \<times> int" where
  "computePaging n page itemsOnPage =
     (let (from, to, page, totalPages) = computePageBounds n page itemsOnPage;
          totalPages = (if totalPages = 0 then 1 else totalPages)
      in (\<lparr>pg_Page = wrap64 (page + 1), pg_TotalPages = totalPages, pg_ItemsOnPage = itemsOnPage\<rparr>, from, to, page))"

text \<open>Requests count pages from 1.\<close>

definition firstPage :: "int \<Rightarrow> int" where
  "firstPage page = (let page = wrap64 (page - 1) in if page < 0 then 0 else page)"

text \<open>
  The loop of \<open>GetBlocks\<close> over \<open>k\<close> more positions from \<open>i\<close> on; the blocks are a slice made with
  the length of the page, and a missing block cuts it at \<open>i\<close>.
\<close>

fun blocksLoop :: "'db deps \<Rightarrow> 'db \<Rightarrow> int \<Rightarrow> int \<Rightarrow> nat \<Rightarrow> int \<Rightarrow> BlockInfo list \<Rightarrow> BlockInfo list res" where
  "blocksLoop D db bestheight from 0 i blocks = Ok blocks"
| "blocksLoop D db bestheight from (Suc k) i blocks =
     bindR (GetBlockInfo D db (of_int (bestheight - i))) (\<lambda>bi.
     case bi of
       None \<Rightarrow> sliceR blocks 0 i
     | Some bi \<Rightarrow> blocksLoop D db bestheight from k (i + 1) (blocks[nat (i - from) := bi]))"

definition GetBlocks :: "'db deps \<Rightarrow> 'db \<Rightarrow> int \<Rightarrow> int \<Rightarrow> (Paging \<times> BlockInfo list) res" where
  "GetBlocks D db page blocksOnPage =
     bindR (GetBestBlock D db) (\<lambda>(b, _).
     let bestheight = uint b;
         (pg, from, to, page) = computePaging (bestheight + 1) (firstPage page) blocksOnPage
     in bindR (blocksLoop D db bestheight from (nat (to - from)) from (replicate (nat (to - from)) emptyBlockInfo)) (\<lambda>blocks.
        Ok (pg, blocks)))"

definition GetMempool :: "BaseMempool \<Rightarrow> int \<Rightarrow> int \<Rightarrow> (Paging \<times> int \<times> (string \<times> int64) list) res" where
  "GetMempool m page itemsOnPage =
     (let entries = GetAllEntries m;
          (pg, from, to, _) = computePaging (int (length entries)) (firstPage page) itemsOnPage
      in bindR (sliceR entries from to) (\<lambda>es.
         Ok (pg, int (length entries), map (\<lambda>entry. (mte_Txid entry, ucast (mte_Time entry))) es)))"

text \<open>
  \<open>GetBlock\<close>: a block by height or hash, with a page of its transactions. \<open>atoi\<close> is
  \<open>strconv.Atoi\<close> on 64 bits. A neighbour the node does not name is looked up in the index, where
  an error leaves it empty.
\<close>

definition atoi :: "string \<Rightarrow> int option" where
  "atoi s = (case bigSetString s of None \<Rightarrow> None | Some n \<Rightarrow> if - (2 ^ 63) \<le> n \<and> n < 2 ^ 63 then Some n else None)"

definition hashOrEmpty :: "'db deps \<Rightarrow> u32 \<Rightarrow> ('db, string) act" where
  "hashOrEmpty D height = readA (\<lambda>db. catchR (GetBlockHash D db height) (\<lambda>_. Ok []) Ok)"

definition blockIdHash :: "'db deps \<Rightarrow> string \<Rightarrow> ('db, string) act" where
  "blockIdHash D bid =
     (case atoi bid of
        Some height \<Rightarrow>
          if height < uint maxUint32
          then readA (\<lambda>db. catchR (GetBlockHash D db (of_int height)) (\<lambda>_. Ok bid) Ok)
          else liftA (Ok bid)
      | None \<Rightarrow> liftA (Ok bid))"

definition GetBlock_api :: "'db api_worker \<Rightarrow> string \<Rightarrow> int \<Rightarrow> int \<Rightarrow> ('db, Paging \<times> chain_block_info \<times> int \<times> api_tx list) act" where
  "GetBlock_api w bid page txsOnPage =
     bindA (blockIdHash (aw_deps w) bid) (\<lambda>hash.
     if hash = [] then liftA (Err (NewAPIError ''Block not found'' True))
     else bindA (liftA (catchR (aw_GetBlockInfo w hash)
                   (\<lambda>e. Err (NewAPIError (if e = ErrBlockNotFound then ''Block not found'' else ''Block not found, '' @ errorText e) True)) Ok)) (\<lambda>bi.
       let dbi = \<lparr>bi_Hash = cbi_Hash bi, bi_Time = cbi_Time bi, bi_Txs = 0, bi_Size = 0, bi_Height = cbi_Height bi\<rparr>;
           txCount = int (length (cbi_Txids bi))
       in bindA (readA (\<lambda>db. GetBestBlock (aw_deps w) db)) (\<lambda>(bestheight, _).
       let (pg, from, to, page) = computePaging txCount (firstPage page) txsOnPage
       in bindA (liftA (sliceR (cbi_Txids bi) from to)) (\<lambda>txids.
       bindA (mapA (\<lambda>txid. txFromTxid w txid bestheight AccountDetailsTxHistory (Some dbi)) txids) (\<lambda>txs.
       bindA (if cbi_Prev bi = [] \<and> cbi_Height bi \<noteq> 0 then hashOrEmpty (aw_deps w) (cbi_Height bi - 1) else liftA (Ok (cbi_Prev bi))) (\<lambda>prevHash.
       bindA (if cbi_Next bi = [] \<and> cbi_Height bi \<noteq> bestheight then hashOrEmpty (aw_deps w) (cbi_Height bi + 1) else liftA (Ok (cbi_Next bi))) (\<lambda>nextHash.
       liftA (Ok (pg, bi\<lparr>cbi_Prev := prevHash, cbi_Next := nextHash, cbi_Txids := []\<rparr>, txCount, txs)))))))))"

section \<open>Running actions\<close>

lemma bindA_lift [simp]: "bindA (liftA (Ok x)) f = f x" "bindA (liftA (Err e)) f = liftA (Err e)"
  by (simp_all add: bindA_def liftA_def fun_eq_iff)

lemma bindA_run: "m d = (d', Ok x) \<Longrightarrow> bindA m f d = f x d'"
  by (simp add: bindA_def)

lemma readA_run [simp]: "readA f d = (d, f (d_db d))"
  by (simp add: readA_def)

lemma liftA_run [simp]: "liftA r d = (d, r)"
  by (simp add: liftA_def)

lemma bindA_read [simp]: "bindA (readA f) g d = (case f (d_db d) of Inl e \<Rightarrow> (d, Err e) | Inr x \<Rightarrow> g x d)"
  by (simp add: bindA_def readA_def)

lemma bindA_assoc: "bindA (bindA m f) g = bindA m (\<lambda>x. bindA (f x) g)"
  by (auto simp: bindA_def fun_eq_iff split: prod.split sum.split)

lemma mapA_run: "(\<And>x. x \<in> set xs \<Longrightarrow> f x d = (d, Ok (g x))) \<Longrightarrow> mapA f xs d = (d, Ok (map g xs))"
  by (induction xs) (simp_all add: bindA_run)

lemma foldl_amounts: "foldl (\<lambda>val a. case a of None \<Rightarrow> val | Some x \<Rightarrow> val + x) v as = v + sum_list (map AsBigInt as)"
  by (induction as arbitrary: v) (auto simp: AsBigInt_def split: option.split)

lemma sumAmounts_sum: "sumAmounts as = sum_list (map AsBigInt as)"
  by (simp add: sumAmounts_def foldl_amounts)

text \<open>What a list of answers shows, when each answer shows what is expected of it.\<close>

lemma mapA_shows:
  "(\<And>x. x \<in> set xs \<Longrightarrow> \<exists>y. f x d = (d, Ok y) \<and> s y = g x) \<Longrightarrow> \<exists>ys. mapA f xs d = (d, Ok ys) \<and> map s ys = map g xs"
proof (induction xs)
  case (Cons x xs)
  then obtain y ys where "f x d = (d, Ok y)" "s y = g x" "mapA f xs d = (d, Ok ys)" "map s ys = map g xs"
    by (metis list.set_intros(1,2))
  then have "mapA f (x # xs) d = (d, Ok (y # ys)) \<and> map s (y # ys) = map g (x # xs)" by (simp add: bindA_run)
  then show ?case by blast
qed simp

lemma mapR_shows:
  "(\<And>x. x \<in> set xs \<Longrightarrow> \<exists>y. f x = Ok y \<and> s y = g x) \<Longrightarrow> \<exists>ys. mapR f xs = Ok ys \<and> map s ys = map g xs"
proof (induction xs)
  case (Cons x xs)
  then obtain y ys where "f x = Ok y" "s y = g x" "mapR f xs = Ok ys" "map s ys = map g xs"
    by (metis list.set_intros(1,2))
  then show ?case by simp
qed simp

lemma in_indexed: "x \<in> set (indexed xs) \<Longrightarrow> \<exists>i. x = (i, xs ! i) \<and> i < length xs"
  by (cases x) (simp add: in_set_indexed)

lemma map_upt_nth: "map (\<lambda>i. f (xs ! i)) [0..<length xs] = map f xs"
  by (rule nth_equalityI) auto

lemma map_indexed: "map f (indexed xs) = map (\<lambda>i. f (i, xs ! i)) [0..<length xs]"
  by (rule nth_equalityI) (simp_all add: nth_indexed)

lemma IsZeroBigInt_iff [simp]: "IsZeroBigInt b \<longleftrightarrow> b = 0"
  by (subst IsZeroBigInt_def, subst minBytes.simps) auto

section \<open>Pages\<close>

lemma firstPage_pred: "1 \<le> page \<Longrightarrow> page < 2 ^ 63 \<Longrightarrow> firstPage page = page - 1"
  using wrap64_id [of "page - 1"] by (simp add: firstPage_def Let_def)

lemma page_le:
  assumes "0 < n" "1 \<le> (page :: int)"
  shows "page - 1 \<le> (page - 1) * n"
proof -
  have "(page - 1) * 1 \<le> (page - 1) * n" using assms by (intro mult_left_mono) auto
  then show ?thesis by (simp only: mult_1_right)
qed

text \<open>A page that begins inside the result is the page that was asked for.\<close>

lemma computePaging_page:
  assumes "0 < n" "n < 2 ^ 63" "1 \<le> page" "(page - 1) * n < c" "c < 2 ^ 63"
  shows "computePaging c (page - 1) n
    = (\<lparr>pg_Page = page, pg_TotalPages = 1 + (c - 1) div n, pg_ItemsOnPage = n\<rparr>, (page - 1) * n, min c ((page - 1) * n + n), page - 1)"
proof -
  have nonneg: "0 \<le> (page - 1) * n" using assms(1,3) by simp
  then have c: "0 < c" using assms(4) by linarith
  have "(page - 1) * n div n \<le> (c - 1) div n" using assms(1,4) by (intro zdiv_mono1) auto
  then have le: "page - 1 \<le> (c - 1) div n" using assms(1) by simp
  have "page < 2 ^ 63" using page_le [OF assms(1,3)] assms(4,5) by linarith
  moreover have "0 < 1 + (c - 1) div n" using le assms(3) by linarith
  moreover have "max 0 (min (page - 1) ((c - 1) div n)) = page - 1" using le assms(3) by simp
  ultimately show ?thesis
    using computePageBounds_unbounded [of c n "page - 1"] assms(1,2,3,5) c wrap64_id [of page]
    by (simp add: computePaging_def)
qed

lemma blocksLoop_all:
  assumes "\<And>j. j < k \<Longrightarrow> GetBlockInfo D db (of_int (bestheight - (i + int j))) = Ok (Some (info (i + int j)))"
    and "from \<le> i" "length blocks = nat (i - from) + k"
  shows "blocksLoop D db bestheight from k i blocks = Ok (take (nat (i - from)) blocks @ map (\<lambda>j. info (i + int j)) [0..<k])"
  using assms
proof (induction k arbitrary: i blocks)
  case (Suc k)
  have first: "GetBlockInfo D db (of_int (bestheight - i)) = Ok (Some (info i))" using Suc.prems(1) [of 0] by simp
  have next_: "nat (i + 1 - from) = Suc (nat (i - from))" using Suc.prems(2) by linarith
  have "blocksLoop D db bestheight from (Suc k) i blocks = blocksLoop D db bestheight from k (i + 1) (blocks[nat (i - from) := info i])"
    by (simp add: first del: of_int_diff)
  also have "\<dots> = Ok (take (nat (i + 1 - from)) (blocks[nat (i - from) := info i]) @ map (\<lambda>j. info (i + 1 + int j)) [0..<k])"
  proof (rule Suc.IH)
    show "GetBlockInfo D db (of_int (bestheight - (i + 1 + int j))) = Ok (Some (info (i + 1 + int j)))" if "j < k" for j
      using Suc.prems(1) [of "Suc j"] that by (simp add: add.assoc del: of_int_diff)
  qed (use Suc.prems next_ in auto)
  also have "take (nat (i + 1 - from)) (blocks[nat (i - from) := info i]) = take (nat (i - from)) blocks @ [info i]"
    using Suc.prems(3) by (simp add: next_ take_Suc_conv_app_nth)
  also have "map (\<lambda>j. info (i + 1 + int j)) [0..<k] = map (\<lambda>j. info (i + int j)) [Suc 0..<Suc k]"
    by (simp only: map_Suc_upt [symmetric] map_map) (simp add: comp_def add.assoc)
  finally show ?case by (simp del: blocksLoop.simps add: upt_conv_Cons [of 0 "Suc k"] del: upt_Suc)
qed simp

text \<open>The heights of the index, newest first.\<close>

definition heightsDown :: "u32 \<Rightarrow> u32 list" where
  "heightsDown b = map (\<lambda>i. b - of_nat i) [0..<Suc (unat b)]"

text \<open>
  C31: when every height up to the best block has its record, a page of blocks is the part of the
  list of all blocks, newest first, that the number of the page says, and the number of pages
  covers the list.
\<close>

theorem GetBlocks_page:
  assumes best: "GetBestBlock D db = Ok (b, hash)"
    and info: "\<And>h. h \<le> b \<Longrightarrow> GetBlockInfo D db h = Ok (Some (info h))"
    and page: "0 < n" "n < 2 ^ 63" "1 \<le> page" "(page - 1) * n \<le> uint b"
  shows "GetBlocks D db page n = Ok (\<lparr>pg_Page = page, pg_TotalPages = 1 + uint b div n, pg_ItemsOnPage = n\<rparr>,
    map info (take (nat n) (drop (nat ((page - 1) * n)) (heightsDown b))))"
proof -
  define lo where "lo = (page - 1) * n"
  define hi where "hi = min (uint b + 1) (lo + n)"
  have b: "uint b < 2 ^ 32" using uint_lt2p [of b] by simp
  have lo: "0 \<le> lo" "lo \<le> uint b" using page by (simp_all add: lo_def)
  have hi: "lo < hi" "hi \<le> uint b + 1" using lo page(1) by (simp_all add: hi_def)
  have "page - 1 \<le> uint b" using page_le [OF page(1,3)] page(4) by (rule order_trans)
  then have first: "firstPage page = page - 1" using page(3) b by (intro firstPage_pred) auto
  have paging: "computePaging (uint b + 1) (page - 1) n
      = (\<lparr>pg_Page = page, pg_TotalPages = 1 + uint b div n, pg_ItemsOnPage = n\<rparr>, lo, hi, page - 1)"
    using computePaging_page [OF page(1,2,3), of "uint b + 1"] page(4) b by (simp add: lo_def hi_def)
  let ?info = "\<lambda>i. info (of_int (uint b - i))"
  have height: "of_int (uint b - i) \<le> b" if "0 \<le> i" "i \<le> uint b" for i
  proof -
    have "uint (of_int (uint b - i) :: u32) = uint b - i"
      by (subst uint_word_of_int) (use that b in \<open>auto intro!: mod_pos_pos_trivial\<close>)
    then show ?thesis using that by (simp add: word_le_def del: of_int_diff)
  qed
  have loop: "blocksLoop D db (uint b) lo (nat (hi - lo)) lo (replicate (nat (hi - lo)) emptyBlockInfo)
      = Ok (map (\<lambda>j. ?info (lo + int j)) [0..<nat (hi - lo)])"
  proof -
    have "GetBlockInfo D db (of_int (uint b - (lo + int j))) = Ok (Some (?info (lo + int j)))" if "j < nat (hi - lo)" for j
      using that lo hi by (intro info height) auto
    from blocksLoop_all [OF this order_refl, where blocks = "replicate (nat (hi - lo)) emptyBlockInfo"] show ?thesis by simp
  qed
  have ub: "uint b = int (unat b)" by simp
  then have lo_le: "nat lo \<le> unat b" using lo(2) by linarith
  have size: "length (heightsDown b) = Suc (unat b)" by (simp add: heightsDown_def)
  have part: "nat (hi - lo) = min (nat n) (Suc (unat b) - nat lo)"
    using lo page(1) unfolding hi_def ub by (auto simp del: of_nat_unat int_nat_eq)
  have nth: "heightsDown b ! (nat lo + j) = of_int (uint b - (lo + int j))" if "j < nat (hi - lo)" for j
  proof -
    have "nat lo + j < Suc (unat b)" using that part by linarith
    then have "heightsDown b ! (nat lo + j) = b - of_nat (nat lo + j)" unfolding heightsDown_def by (simp del: upt_Suc)
    then show ?thesis using lo by simp
  qed
  have "map info (take (nat n) (drop (nat lo) (heightsDown b))) = map (\<lambda>j. ?info (lo + int j)) [0..<nat (hi - lo)]"
    using lo_le by (intro nth_equalityI) (simp_all add: size part nth le_SucI del: of_int_diff of_int_add)
  then show ?thesis
    by (simp add: GetBlocks_def best first paging loop lo_def [symmetric])
qed

text \<open>Three blocks, of which the second page of two shows the oldest.\<close>

definition pagesDb :: alist_db where
  "pagesDb =
     [((cfHeight, packUint 0), [0xaa, 0, 0, 0, 0, 1, 1]), ((cfHeight, packUint 1), [0xbb, 0, 0, 0, 0, 1, 1]),
      ((cfHeight, packUint 2), [0xcc, 0, 0, 0, 0, 1, 1])]"

definition pagesInfo :: "u32 \<Rightarrow> BlockInfo" where
  "pagesInfo h = \<lparr>bi_Hash = if h = 0 then ''aa'' else if h = 1 then ''bb'' else ''cc'', bi_Time = 0, bi_Txs = 1, bi_Size = 1, bi_Height = h\<rparr>"

text \<open>C31 at these blocks.\<close>

theorem GetBlocks_page_witness:
  "GetBlocks sampleDeps pagesDb 2 2 = Ok (\<lparr>pg_Page = 2, pg_TotalPages = 2, pg_ItemsOnPage = 2\<rparr>, [pagesInfo 0])"
proof -
  have info: "GetBlockInfo sampleDeps pagesDb h = Ok (Some (pagesInfo h))" if "h \<le> 2" for h
  proof -
    have "h = 0 \<or> h = 1 \<or> h = 2" using that by (auto simp: word_le_nat_alt word_unat_eq_iff le_Suc_eq)
    moreover have "GetBlockInfo sampleDeps pagesDb 0 = Ok (Some (pagesInfo 0))" by code_simp
    moreover have "GetBlockInfo sampleDeps pagesDb 1 = Ok (Some (pagesInfo 1))" by code_simp
    moreover have "GetBlockInfo sampleDeps pagesDb 2 = Ok (Some (pagesInfo 2))" by code_simp
    ultimately show ?thesis by blast
  qed
  have best: "GetBestBlock sampleDeps pagesDb = Ok (2, ''cc'')" by code_simp
  have heights: "heightsDown 2 = [2, 1, 0]" by code_simp
  show ?thesis
    using GetBlocks_page [OF best info, where n = 2 and page = 2] by (simp add: heights)
qed

text \<open>
  A missing block cuts the slice at its place in the whole list and not on the page. On a later page
  that is behind the end of the slice.
\<close>

lemma GetBlocks_missing_panics:
  assumes best: "GetBestBlock D db = Ok (b, hash)" and page: "0 < n" "n < 2 ^ 63" "2 < page" "(page - 1) * n \<le> uint b"
    and missing: "GetBlockInfo D db (of_int (uint b - (page - 1) * n)) = Ok None"
  shows "GetBlocks D db page n = Err (Panic ''slice bounds out of range'')"
proof -
  define lo where "lo = (page - 1) * n"
  define hi where "hi = min (uint b + 1) (lo + n)"
  have b: "uint b < 2 ^ 32" using uint_lt2p [of b] by simp
  have "2 * n \<le> lo" unfolding lo_def using page(1,3) by (intro mult_right_mono) auto
  then have "0 < nat (hi - lo)" and len: "nat (hi - lo) < nat lo" "0 \<le> lo"
    using page(1,4) unfolding lo_def [symmetric] hi_def by auto
  then obtain k where k: "nat (hi - lo) = Suc k" using gr0_implies_Suc by blast
  have "page - 1 \<le> uint b" using page_le [of n page] page by (meson less_imp_le order_trans one_le_numeral)
  then have first: "firstPage page = page - 1" using page(3) b by (intro firstPage_pred) auto
  have paging: "computePaging (uint b + 1) (page - 1) n
      = (\<lparr>pg_Page = page, pg_TotalPages = 1 + uint b div n, pg_ItemsOnPage = n\<rparr>, lo, hi, page - 1)"
    using computePaging_page [of n page "uint b + 1"] page b by (simp add: lo_def hi_def)
  have "blocksLoop D db (uint b) lo (nat (hi - lo)) lo (replicate (nat (hi - lo)) emptyBlockInfo) = Err (Panic ''slice bounds out of range'')"
    using missing len unfolding k lo_def [symmetric] by (simp add: sliceR_def del: of_int_diff)
  then show ?thesis by (simp add: GetBlocks_def best first paging)
qed

section \<open>The two views of a confirmed transaction\<close>

text \<open>
  The record of the index agrees with the transaction: an input of a coinbase has no address and no
  value, any other has those of the stored output it spends.
\<close>

definition inputAgrees :: "'db deps \<Rightarrow> 'db \<Rightarrow> Vin \<Rightarrow> TxInput \<Rightarrow> bool" where
  "inputAgrees D db v t \<longleftrightarrow>
     (if vin_Txid v = [] then t = \<lparr>ti_AddrDesc = [], ti_ValueSat = 0\<rparr>
      else \<exists>tas. GetTxAddresses D db (vin_Txid v) = Ok (Some tas) \<and> unat (vin_Vout v) < length (ta_Outputs tas)
        \<and> to_AddrDesc (ta_Outputs tas ! unat (vin_Vout v)) = ti_AddrDesc t
        \<and> to_ValueSat (ta_Outputs tas ! unat (vin_Vout v)) = ti_ValueSat t)"

definition outputAgrees :: "chain_parser \<Rightarrow> Vout \<Rightarrow> TxOutput \<Rightarrow> bool" where
  "outputAgrees p v t \<longleftrightarrow> cp_GetAddrDescFromVout p v = Ok (to_AddrDesc t) \<and> vout_ValueSat v = to_ValueSat t"

definition recordAgrees :: "'db deps \<Rightarrow> 'db \<Rightarrow> Tx \<Rightarrow> TxAddresses \<Rightarrow> bool" where
  "recordAgrees D db tx ta \<longleftrightarrow> GetTxAddresses D db (tx_Txid tx) = Ok (Some ta)
     \<and> list_all2 (inputAgrees D db) (tx_Vin tx) (ta_Inputs ta) \<and> list_all2 (outputAgrees (parserOf D)) (tx_Vout tx) (ta_Outputs ta)"

text \<open>The parser prints every descriptor or refuses it, and prints nothing for the empty one.\<close>

definition printsAll :: "chain_parser \<Rightarrow> (AddressDescriptor \<Rightarrow> string list \<times> bool) \<Rightarrow> bool" where
  "printsAll p A \<longleftrightarrow> (\<forall>a. addressesOf p a = Ok (A a)) \<and> A [] = ([], False)"

definition shownVin :: "api_vin \<Rightarrow> nat \<times> (string list \<times> bool) \<times> int" where
  "shownVin v = (av_N v, (av_Addresses v, av_Searchable v), AsBigInt (av_ValueSat v))"

definition shownVout :: "api_vout \<Rightarrow> nat \<times> (string list \<times> bool) \<times> int \<times> bool" where
  "shownVout v = (ao_N v, (ao_Addresses v, ao_Searchable v), AsBigInt (ao_ValueSat v), ao_Spent v)"

lemma apiVin_shows:
  assumes "printsAll (chainParser w) A" "inputAgrees (aw_deps w) (d_db d) v t"
  shows "\<exists>y. apiVin w tx (i, v) d = (d, Ok y) \<and> shownVin y = (i, A (ti_AddrDesc t), ti_ValueSat t)"
proof (cases "vin_Txid v = []")
  case True
  with assms show ?thesis by (simp add: apiVin_def inputAgrees_def shownVin_def printsAll_def AsBigInt_def)
next
  case False
  with assms(2) obtain tas where tas: "GetTxAddresses (aw_deps w) (d_db d) (vin_Txid v) = Ok (Some tas)" "unat (vin_Vout v) < length (ta_Outputs tas)"
      "to_AddrDesc (ta_Outputs tas ! unat (vin_Vout v)) = ti_AddrDesc t" "to_ValueSat (ta_Outputs tas ! unat (vin_Vout v)) = ti_ValueSat t"
    by (auto simp: inputAgrees_def)
  obtain a s where A: "A (ti_AddrDesc t) = (a, s)" by (cases "A (ti_AddrDesc t)")
  then have "addressesOf (chainParser w) (ti_AddrDesc t) = Ok (a, s)" using assms(1) by (simp add: printsAll_def)
  then show ?thesis
    using False tas by (simp add: apiVin_def Let_def shownVin_def A AsBigInt_def)
qed

lemma apiVout_shows:
  assumes "printsAll (chainParser w) A" "outputAgrees (chainParser w) v (ta_Outputs ta ! i)" "i < length (ta_Outputs ta)"
  shows "\<exists>y. apiVout w tx height False (Some ta) (i, v) d = (d, Ok y)
    \<and> shownVout y = (i, A (to_AddrDesc (ta_Outputs ta ! i)), to_ValueSat (ta_Outputs ta ! i), to_Spent (ta_Outputs ta ! i))"
proof -
  obtain a s where A: "A (to_AddrDesc (ta_Outputs ta ! i)) = (a, s)" by (cases "A (to_AddrDesc (ta_Outputs ta ! i))")
  then have "addressesOf (chainParser w) (to_AddrDesc (ta_Outputs ta ! i)) = Ok (a, s)" using assms(1) by (simp add: printsAll_def)
  then show ?thesis
    using assms(2,3) by (simp add: apiVout_def Let_def getAddressesFromVout_def outputAgrees_def indexR_def shownVout_def A AsBigInt_def)
qed

text \<open>What both views show of the inputs and the outputs of a record.\<close>

definition recordVins :: "(AddressDescriptor \<Rightarrow> string list \<times> bool) \<Rightarrow> TxAddresses \<Rightarrow> (nat \<times> (string list \<times> bool) \<times> int) list" where
  "recordVins A ta = map (\<lambda>i. (i, A (ti_AddrDesc (ta_Inputs ta ! i)), ti_ValueSat (ta_Inputs ta ! i))) [0..<length (ta_Inputs ta)]"

definition recordVouts :: "(AddressDescriptor \<Rightarrow> string list \<times> bool) \<Rightarrow> TxAddresses \<Rightarrow> (nat \<times> (string list \<times> bool) \<times> int \<times> bool) list" where
  "recordVouts A ta = map (\<lambda>i. (i, A (to_AddrDesc (ta_Outputs ta ! i)), to_ValueSat (ta_Outputs ta ! i), to_Spent (ta_Outputs ta ! i)))
     [0..<length (ta_Outputs ta)]"

lemma full_vins:
  assumes parser: "printsAll (chainParser w) A" and agrees: "recordAgrees (aw_deps w) (d_db d) tx ta"
  shows "\<exists>vins. mapA (apiVin w tx) (indexed (tx_Vin tx)) d = (d, Ok vins) \<and> map shownVin vins = recordVins A ta"
proof -
  have all: "list_all2 (inputAgrees (aw_deps w) (d_db d)) (tx_Vin tx) (ta_Inputs ta)" using agrees by (simp add: recordAgrees_def)
  have "\<exists>vins. mapA (apiVin w tx) (indexed (tx_Vin tx)) d = (d, Ok vins)
      \<and> map shownVin vins = map (\<lambda>(i, _). (i, A (ti_AddrDesc (ta_Inputs ta ! i)), ti_ValueSat (ta_Inputs ta ! i))) (indexed (tx_Vin tx))"
  proof (rule mapA_shows)
    fix x assume "x \<in> set (indexed (tx_Vin tx))"
    then obtain i where i: "x = (i, tx_Vin tx ! i)" "i < length (tx_Vin tx)" using in_indexed by blast
    from apiVin_shows [OF parser list_all2_nthD [OF all i(2)]]
    show "\<exists>y. apiVin w tx x d = (d, Ok y)
        \<and> shownVin y = (case x of (i, _) \<Rightarrow> (i, A (ti_AddrDesc (ta_Inputs ta ! i)), ti_ValueSat (ta_Inputs ta ! i)))"
      by (simp add: i)
  qed
  then show ?thesis using list_all2_lengthD [OF all] by (simp add: map_indexed recordVins_def)
qed

lemma full_vouts:
  assumes parser: "printsAll (chainParser w) A" and agrees: "recordAgrees (aw_deps w) (d_db d) tx ta"
  shows "\<exists>vouts. mapA (apiVout w tx height False (Some ta)) (indexed (tx_Vout tx)) d = (d, Ok vouts)
    \<and> map shownVout vouts = recordVouts A ta"
proof -
  have all: "list_all2 (outputAgrees (chainParser w)) (tx_Vout tx) (ta_Outputs ta)" using agrees by (simp add: recordAgrees_def)
  have "\<exists>vouts. mapA (apiVout w tx height False (Some ta)) (indexed (tx_Vout tx)) d = (d, Ok vouts)
      \<and> map shownVout vouts = map (\<lambda>(i, _). (i, A (to_AddrDesc (ta_Outputs ta ! i)), to_ValueSat (ta_Outputs ta ! i), to_Spent (ta_Outputs ta ! i)))
          (indexed (tx_Vout tx))"
  proof (rule mapA_shows)
    fix x assume "x \<in> set (indexed (tx_Vout tx))"
    then obtain i where i: "x = (i, tx_Vout tx ! i)" "i < length (tx_Vout tx)" using in_indexed by blast
    then have i': "i < length (ta_Outputs ta)" using list_all2_lengthD [OF all] by simp
    from apiVout_shows [OF parser list_all2_nthD [OF all i(2)] i']
    show "\<exists>y. apiVout w tx height False (Some ta) x d = (d, Ok y)
        \<and> shownVout y = (case x of (i, _) \<Rightarrow> (i, A (to_AddrDesc (ta_Outputs ta ! i)), to_ValueSat (ta_Outputs ta ! i), to_Spent (ta_Outputs ta ! i)))"
      by (simp add: i)
  qed
  then show ?thesis using list_all2_lengthD [OF all] by (simp add: map_indexed recordVouts_def)
qed

lemma light_vins:
  assumes "printsAll p A"
  shows "\<exists>vins. mapR (lightVin p) (indexed (ta_Inputs ta)) = Ok vins \<and> map shownVin vins = recordVins A ta"
proof -
  have "\<exists>vins. mapR (lightVin p) (indexed (ta_Inputs ta)) = Ok vins
      \<and> map shownVin vins = map (\<lambda>(i, tai). (i, A (ti_AddrDesc tai), ti_ValueSat tai)) (indexed (ta_Inputs ta))"
    using assms by (intro mapR_shows) (auto simp: lightVin_def printsAll_def shownVin_def AsBigInt_def split_beta)
  then show ?thesis by (simp add: map_indexed recordVins_def)
qed

lemma light_vouts:
  assumes "printsAll p A"
  shows "\<exists>vouts. mapR (lightVout p) (indexed (ta_Outputs ta)) = Ok vouts \<and> map shownVout vouts = recordVouts A ta"
proof -
  have "\<exists>vouts. mapR (lightVout p) (indexed (ta_Outputs ta)) = Ok vouts
      \<and> map shownVout vouts = map (\<lambda>(i, tao). (i, A (to_AddrDesc tao), to_ValueSat tao, to_Spent tao)) (indexed (ta_Outputs ta))"
    using assms by (intro mapR_shows) (auto simp: lightVout_def printsAll_def shownVout_def AsBigInt_def split_beta)
  then show ?thesis by (simp add: map_indexed recordVouts_def)
qed

text \<open>The sums are those of what is shown.\<close>

lemma sum_shownVin: "sumAmounts (map av_ValueSat vins) = sum_list (map (snd \<circ> snd) (map shownVin vins))"
  by (simp add: sumAmounts_sum shownVin_def comp_def)

lemma sum_shownVout: "sumAmounts (map ao_ValueSat vouts) = sum_list (map (fst \<circ> snd \<circ> snd) (map shownVout vouts))"
  by (simp add: sumAmounts_sum shownVout_def comp_def)

lemma sum_record:
  "sumAmounts (map (\<lambda>tai. Some (ti_ValueSat tai)) (ta_Inputs ta)) = sum_list (map (snd \<circ> snd) (recordVins A ta))"
  "sumAmounts (map (\<lambda>tao. Some (to_ValueSat tao)) (ta_Outputs ta)) = sum_list (map (fst \<circ> snd \<circ> snd) (recordVouts A ta))"
  by (simp_all add: sumAmounts_sum AsBigInt_def comp_def recordVins_def recordVouts_def map_upt_nth)


text \<open>
  A transaction of block 0 that spends 5, takes 4 out of the shield and pays 8.
\<close>

definition viewDeps :: "alist_db deps" where
  "viewDeps = sampleDeps\<lparr>parserOf := sampleParser\<lparr>cp_GetAddressesFromAddrDesc :=
     \<lambda>a. if a = [] then Ok ([], False) else Ok ([hexEncodeToString a], True)\<rparr>\<rparr>"

definition viewTx :: Tx where
  "viewTx = cachedTx\<lparr>tx_Txid := ''02'',
     tx_Vin := [\<lparr>vin_Coinbase = [], vin_Txid = ''01'', vin_Vout = 0, vin_ScriptSigHex = [], vin_Sequence = 0, vin_Addresses = []\<rparr>],
     tx_Vout := [\<lparr>vout_ValueSat = 8, vout_JsonValue = [], vout_N = 0, vout_ScriptPubKeyHex = ''08'', vout_Addresses = []\<rparr>]\<rparr>"

definition viewWorker :: "alist_db api_worker" where
  "viewWorker = \<lparr>aw_deps = viewDeps, aw_chain = cacheChain, aw_enabled = True, aw_now = 7,
     aw_mempool = \<lparr>mp_txEntries = [], mp_addrDescToTx = []\<rparr>, aw_GetTransactionSpecific = \<lambda>_. Ok ''x'',
     aw_GetBlockInfo = \<lambda>_. Err ErrBlockNotFound, aw_unmarshalTx = \<lambda>_. viewTx\<lparr>tx_ShieldValBal := 4\<rparr>\<rparr>"

definition viewRocks :: "alist_db RocksDB" where
  "viewRocks = cacheRocks\<lparr>d_db := ((cfTxAddresses, [1]), [0, 0, 1, 2, 9, 9, 1, 5, 0, 0, 0])
     # ((cfTxAddresses, [2]), [0, 1, 2, 9, 9, 1, 5, 1, 1, 8, 1, 8, 0, 0, 1, 4]) # pagesDb\<rparr>"

definition viewRecord :: TxAddresses where
  "viewRecord = \<lparr>ta_Height = 0, ta_Inputs = [\<lparr>ti_AddrDesc = [9, 9], ti_ValueSat = 5\<rparr>],
     ta_Outputs = [\<lparr>to_AddrDesc = [8], to_Spent = False, to_ValueSat = 8\<rparr>], ta_ShieldIns = 0, ta_ShieldOuts = 0, ta_ShieldValBal = 4\<rparr>"


end
