(* ===== verification/ApiAddress.thy ===== *)
theory ApiAddress
  imports ApiTx
begin

text \<open>
  The history, the balance and the unspent outputs of an address (\<open>src/api/worker.go\<close>).
\<close>

section \<open>Transactions of an address\<close>

datatype TokensToReturn = TokensToReturnNonzeroBalance | TokensToReturnUsed | TokensToReturnDerived

definition AddressFilterVoutOff :: int where "AddressFilterVoutOff = - 1"
definition AddressFilterVoutInputs :: int where "AddressFilterVoutInputs = - 2"
definition AddressFilterVoutOutputs :: int where "AddressFilterVoutOutputs = - 3"

record AddressFilter =
  af_Vout :: int
  af_FromHeight :: u32
  af_ToHeight :: u32
  af_TokensToReturn :: TokensToReturn
  af_OnlyConfirmed :: bool

text \<open>Whether one output or input of the address passes the filter.\<close>

definition passesVout :: "AddressFilter \<Rightarrow> int32 \<Rightarrow> bool" where
  "passesVout filt index \<longleftrightarrow>
     (let vout = (if sint index < 0 then NOT index else index)
      in (af_Vout filt = AddressFilterVoutInputs \<and> sint index < 0)
         \<or> (af_Vout filt = AddressFilterVoutOutputs \<and> sint index \<ge> 0)
         \<or> vout = of_int (af_Vout filt))"

fun filterLoop :: "AddressFilter \<Rightarrow> int \<Rightarrow> string \<Rightarrow> int32 list \<Rightarrow> string list \<Rightarrow> string list cb_result" where
  "filterLoop filt maxResults txid [] txids = CbNext txids"
| "filterLoop filt maxResults txid (index # indexes) txids =
     (if passesVout filt index
      then let txids = txids @ [txid]
           in if int (length txids) \<ge> maxResults then CbStop txids else CbNext txids
      else filterLoop filt maxResults txid indexes txids)"

definition addressCallback :: "AddressFilter \<Rightarrow> int \<Rightarrow> string \<Rightarrow> u32 \<Rightarrow> int32 list \<Rightarrow> string list \<Rightarrow> string list cb_result" where
  "addressCallback filt maxResults txid height indexes txids =
     (if af_Vout filt = AddressFilterVoutOff
      then let txids = txids @ [txid]
           in if int (length txids) \<ge> maxResults then CbStop txids else CbNext txids
      else filterLoop filt maxResults txid indexes txids)"

text \<open>One outpoint of the mempool; what the callback returns is ignored.\<close>

definition mempoolStep :: "AddressFilter \<Rightarrow> int \<Rightarrow> Outpoint \<Rightarrow> string list \<times> (string, unit) gomap \<Rightarrow> string list \<times> (string, unit) gomap" where
  "mempoolStep filt maxResults m = (\<lambda>(txids, uniqueTxs).
     if mapGet uniqueTxs (op_Txid m) = None
     then let txids' = (case addressCallback filt maxResults (op_Txid m) 0 [op_Vout m] txids of
                          CbNext ts \<Rightarrow> ts | CbStop ts \<Rightarrow> ts | CbErr e \<Rightarrow> txids)
          in (txids', if length txids' > length txids then mapPut (op_Txid m) () uniqueTxs else uniqueTxs)
     else (txids, uniqueTxs))"

definition getAddressTxids :: "'db api_worker \<Rightarrow> 'db \<Rightarrow> AddressDescriptor \<Rightarrow> bool \<Rightarrow> AddressFilter \<Rightarrow> int \<Rightarrow> string list res" where
  "getAddressTxids w db addrDesc mempool filt maxResults =
     (if mempool
      then Ok (fst (fold (mempoolStep filt maxResults) (GetAddrDescTransactions_mempool addrDesc (aw_mempool w)) ([], [])))
      else let to = (if af_ToHeight filt = 0 then maxUint32 else af_ToHeight filt)
           in GetAddrDescTransactions (aw_deps w) db addrDesc (af_FromHeight filt) to (addressCallback filt maxResults) [])"

definition getAddrVoutValue :: "api_tx \<Rightarrow> AddressDescriptor \<Rightarrow> int" where
  "getAddrVoutValue t addrDesc =
     foldl (\<lambda>val vout. if ao_AddrDesc vout = addrDesc \<and> ao_ValueSat vout \<noteq> None then val + the (ao_ValueSat vout) else val) 0 (at_Vout t)"

definition getAddrVinValue :: "api_tx \<Rightarrow> AddressDescriptor \<Rightarrow> int" where
  "getAddrVinValue t addrDesc =
     foldl (\<lambda>val vin. if av_AddrDesc vin = addrDesc \<and> av_ValueSat vin \<noteq> None then val + the (av_ValueSat vin) else val) 0 (at_Vin t)"

text \<open>The slice of the result has room for all ids and is cut to those written.\<close>

fun uniqueLoop :: "string list \<Rightarrow> string list \<times> nat \<times> (string, unit) gomap \<Rightarrow> string list \<times> nat \<times> (string, unit) gomap" where
  "uniqueLoop [] s = s"
| "uniqueLoop (txid # txids) (ut, i, txidsMap) =
     uniqueLoop txids
       (if mapGet txidsMap txid = None then (ut[i := txid], i + 1, mapPut txid () txidsMap) else (ut, i, txidsMap))"

definition GetUniqueTxids :: "string list \<Rightarrow> string list" where
  "GetUniqueTxids txids =
     (let (ut, i, _) = uniqueLoop txids (replicate (length txids) [], 0, []) in take i ut)"

section \<open>An address\<close>

definition getAddrDescAndNormalizeAddress :: "'db api_worker \<Rightarrow> string \<Rightarrow> (AddressDescriptor \<times> string) res" where
  "getAddrDescAndNormalizeAddress w address =
     (let invalid = (\<lambda>e. Err (NewAPIError (''Invalid address, '' @ errorText e) True))
      in catchR (ValidateAddressLength address) invalid (\<lambda>_.
         catchR (cp_GetAddrDescFromAddress (chainParser w) address) invalid (\<lambda>addrDesc.
         bindR (addressesOf (chainParser w) addrDesc) (\<lambda>(addresses, _).
         Ok (addrDesc, if length addresses = 1 then addresses ! 0 else address)))))"

record Address = Paging +
  ad_AddrStr :: string
  ad_BalanceSat :: amount
  ad_TotalReceivedSat :: amount
  ad_TotalSentSat :: amount
  ad_UnconfirmedBalanceSat :: amount
  ad_UnconfirmedTxs :: int
  ad_Txs :: int
  ad_Transactions :: "api_tx list"
  ad_Txids :: "string list"

text \<open>What the loop over the transactions of the mempool collects.\<close>

record unconfirmed =
  uc_Txs :: int
  uc_BalSat :: int
  uc_txids :: "string list"
  uc_txs :: "api_tx list"

definition unconfirmedStep :: "'db api_worker \<Rightarrow> AddressDescriptor \<Rightarrow> int \<Rightarrow> AccountDetails \<Rightarrow> string \<Rightarrow> unconfirmed \<Rightarrow> ('db, unconfirmed) act" where
  "unconfirmedStep w addrDesc page details txid u =
     catchA (GetTransaction_api w txid False True) (\<lambda>_. liftA (Ok u)) (\<lambda>tx.
       if at_Confirmations tx = 0
       then let u = u\<lparr>uc_Txs := uc_Txs u + 1, uc_BalSat := uc_BalSat u + getAddrVoutValue tx addrDesc - getAddrVinValue tx addrDesc\<rparr>
            in liftA (Ok (if page = 0
                          then if details = AccountDetailsTxidHistory then u\<lparr>uc_txids := uc_txids u @ [at_Txid tx]\<rparr>
                               else if details \<ge> AccountDetailsTxHistoryLight then u\<lparr>uc_txs := uc_txs u @ [tx]\<rparr> else u
                          else u))
       else liftA (Ok u))"

text \<open>The page of the confirmed history: its paging, its ids or its transactions.\<close>

definition historyPage :: "'db api_worker \<Rightarrow> AddressDescriptor \<Rightarrow> int \<Rightarrow> int \<Rightarrow> AccountDetails \<Rightarrow> AddressFilter \<Rightarrow> int
    \<Rightarrow> ('db, Paging \<times> string list \<times> api_tx list) act" where
  "historyPage w addrDesc page txsOnPage details filt totalResults =
     bindA (readA (\<lambda>db. getAddressTxids w db addrDesc False filt (wrap64 (wrap64 (page + 1) * txsOnPage)))) (\<lambda>txc.
     bindA (readA (\<lambda>db. GetBestBlock (aw_deps w) db)) (\<lambda>(bestheight, _).
     let (pg, from, to, page) = computePaging (int (length txc)) page txsOnPage;
         pg = (if int (length txc) \<ge> txsOnPage
               then if totalResults < 0 then pg\<lparr>pg_TotalPages := - 1\<rparr> else fst (computePaging totalResults page txsOnPage)
               else pg)
     in bindA (liftA (sliceR txc from to)) (\<lambda>txids.
        if details = AccountDetailsTxidHistory then liftA (Ok (pg, txids, []))
        else bindA (mapA (\<lambda>txid. txFromTxid w txid bestheight details None) txids) (\<lambda>txs. liftA (Ok (pg, [], txs))))))"

definition GetAddress :: "'db api_worker \<Rightarrow> string \<Rightarrow> int \<Rightarrow> int \<Rightarrow> AccountDetails \<Rightarrow> AddressFilter \<Rightarrow> ('db, Address) act" where
  "GetAddress w address page txsOnPage details filt =
     bindA (liftA (getAddrDescAndNormalizeAddress w address)) (\<lambda>(addrDesc, address).
     bindA (readA (\<lambda>db. catchR (GetAddrDescBalance (aw_deps w) db addrDesc AddressBalanceDetailNoUTXO)
                            (\<lambda>e. Err (NewAPIError (''Address not found, '' @ errorText e) True)) Ok)) (\<lambda>found_ba.
     let totalResults = (case found_ba of
           None \<Rightarrow> 0
         | Some ba \<Rightarrow> if af_Vout filt = AddressFilterVoutOff \<and> af_FromHeight filt = 0 \<and> af_ToHeight filt = 0 then uint (ab_Txs ba) else - 1);
         page = (if found_ba = None then 0 else firstPage page);
         ba = (case found_ba of None \<Rightarrow> emptyAddrBalance | Some ba \<Rightarrow> ba);
         u = \<lparr>uc_Txs = 0, uc_BalSat = 0, uc_txids = [], uc_txs = []\<rparr>
     in bindA (if af_ToHeight filt = 0 \<and> \<not> af_OnlyConfirmed filt
               then bindA (readA (\<lambda>db. getAddressTxids w db addrDesc True filt (2 ^ 63 - 1))) (\<lambda>txm.
                    foldA (unconfirmedStep w addrDesc page details) txm u)
               else liftA (Ok u)) (\<lambda>u.
     bindA (if details \<ge> AccountDetailsTxidHistory
            then historyPage w addrDesc page txsOnPage details filt totalResults
            else liftA (Ok (\<lparr>pg_Page = 0, pg_TotalPages = 0, pg_ItemsOnPage = 0\<rparr>, [], []))) (\<lambda>(pg, txids, txs).
     liftA (Ok \<lparr>pg_Page = pg_Page pg, pg_TotalPages = pg_TotalPages pg, pg_ItemsOnPage = pg_ItemsOnPage pg,
              ad_AddrStr = address, ad_BalanceSat = Some (ab_BalanceSat ba), ad_TotalReceivedSat = Some (ReceivedSat ba),
              ad_TotalSentSat = Some (ab_SentSat ba), ad_UnconfirmedBalanceSat = Some (uc_BalSat u), ad_UnconfirmedTxs = uc_Txs u,
              ad_Txs = uint (ab_Txs ba), ad_Transactions = uc_txs u @ txs, ad_Txids = uc_txids u @ txids\<rparr>)))))"

section \<open>Unspent outputs\<close>

record api_utxo =
  au_Txid :: string
  au_Vout :: int32
  au_AmountSat :: amount
  au_Height :: int
  au_Confirmations :: int
  au_Address :: string
  au_Path :: string
  au_Locktime :: u32
  au_StakeContract :: bool

text \<open>\<open>hex.DecodeString\<close> without its error: the bytes before the first bad digit.\<close>

fun hexPrefix :: "string \<Rightarrow> bytes" where
  "hexPrefix (c # d # cs) =
     (case (fromHexChar c, fromHexChar d) of (Some h, Some l) \<Rightarrow> of_nat (h * 16 + l) # hexPrefix cs | _ \<Rightarrow> [])"
| "hexPrefix cs = []"

definition spentKey :: "string \<Rightarrow> int \<Rightarrow> string" where
  "spentKey txid vout = txid @ bigString vout"

text \<open>The transactions of the mempool that can be read and the outputs they spend.\<close>

definition collectMempool :: "'db api_worker \<Rightarrow> string \<Rightarrow> Tx list \<times> (string, unit) gomap \<Rightarrow> ('db, Tx list \<times> (string, unit) gomap) act" where
  "collectMempool w txid = (\<lambda>(mc, spentInMempool).
     catchA (txCacheGet w txid) (\<lambda>_. liftA (Ok (mc, spentInMempool))) (\<lambda>(bchainTx, _).
     liftA (Ok (mc @ [bchainTx], fold (\<lambda>vin. mapPut (spentKey (vin_Txid vin) (uint (vin_Vout vin))) ()) (tx_Vin bchainTx) spentInMempool))))"

definition mempoolUtxos :: "'db api_worker \<Rightarrow> AddressDescriptor \<Rightarrow> (string, unit) gomap \<Rightarrow> Tx \<Rightarrow> api_utxo list res" where
  "mempoolUtxos w addrDesc spentInMempool bchainTx =
     foldR (\<lambda>(i, vout) r.
       catchR (cp_GetAddrDescFromVout (chainParser w) vout) (\<lambda>_. Ok r) (\<lambda>vad.
       Ok (if addrDesc = vad \<and> mapGet spentInMempool (spentKey (tx_Txid bchainTx) (int i)) = None
           then r @ [\<lparr>au_Txid = tx_Txid bchainTx, au_Vout = of_nat i, au_AmountSat = Some (vout_ValueSat vout), au_Height = 0,
                     au_Confirmations = 0, au_Address = [], au_Path = [], au_Locktime = tx_LockTime bchainTx,
                     au_StakeContract = IsP2CSScript (hexPrefix (vout_ScriptPubKeyHex vout))\<rparr>]
           else r))) (indexed (tx_Vout bchainTx)) []"

text \<open>
  An output of the index. The error of the cache is dropped, so a transaction that cannot be read
  is a nil pointer.
\<close>

definition confirmedUtxo :: "'db api_worker \<Rightarrow> int \<Rightarrow> (string, unit) gomap \<Rightarrow> Utxo \<Rightarrow> api_utxo list \<Rightarrow> ('db, api_utxo list) act" where
  "confirmedUtxo w bestheight spentInMempool utxo r =
     bindA (liftA (cp_UnpackTxid (chainParser w) (u_BtxID utxo))) (\<lambda>txid.
     if mapGet spentInMempool (spentKey txid (sint (u_Vout utxo))) = None
     then catchA (txCacheGet w txid) (\<lambda>_. liftA (Err (Panic ''nil pointer dereference''))) (\<lambda>(bchainTx, _).
          bindA (liftA (indexR (tx_Vout bchainTx) (sint (u_Vout utxo)))) (\<lambda>vout.
          liftA (Ok (r @ [\<lparr>au_Txid = txid, au_Vout = u_Vout utxo, au_AmountSat = Some (u_ValueSat utxo), au_Height = uint (u_Height utxo),
                          au_Confirmations = bestheight - uint (u_Height utxo) + 1, au_Address = [], au_Path = [], au_Locktime = 0,
                          au_StakeContract = IsP2CSScript (hexPrefix (vout_ScriptPubKeyHex vout))\<rparr>]))))
     else liftA (Ok r))"

definition getAddrDescUtxo :: "'db api_worker \<Rightarrow> AddressDescriptor \<Rightarrow> AddrBalance option \<Rightarrow> bool \<Rightarrow> bool \<Rightarrow> ('db, api_utxo list) act" where
  "getAddrDescUtxo w addrDesc ba onlyConfirmed onlyMempool =
     bindA (if onlyConfirmed then liftA (Ok ([], []))
            else bindA (readA (\<lambda>db. getAddressTxids w db addrDesc True
                          \<lparr>af_Vout = AddressFilterVoutOff, af_FromHeight = 0, af_ToHeight = 0,
                           af_TokensToReturn = TokensToReturnNonzeroBalance, af_OnlyConfirmed = False\<rparr> (2 ^ 63 - 1))) (\<lambda>txm.
                 bindA (foldA (collectMempool w) txm ([], [])) (\<lambda>(mc, spentInMempool).
                 bindA (liftA (mapR (mempoolUtxos w addrDesc spentInMempool) mc)) (\<lambda>rs.
                 liftA (Ok (concat rs, spentInMempool)))))) (\<lambda>(r, spentInMempool).
     if onlyMempool then liftA (Ok r)
     else bindA (case ba of
                   Some ba \<Rightarrow> liftA (Ok (Some ba))
                 | None \<Rightarrow> readA (\<lambda>db. catchR (GetAddrDescBalance (aw_deps w) db addrDesc AddressBalanceDetailUTXO)
                              (\<lambda>e. Err (NewAPIError (''Address not found, '' @ errorText e) True)) Ok)) (\<lambda>ba.
          case ba of
            None \<Rightarrow> liftA (Ok r)
          | Some ba \<Rightarrow>
              if ab_Utxos ba = [] then liftA (Ok r)
              else bindA (readA (\<lambda>db. GetBestBlock (aw_deps w) db)) (\<lambda>(b, _).
                   foldA (confirmedUtxo w (uint b) spentInMempool) (rev (ab_Utxos ba)) r)))"

definition GetAddressUtxo :: "'db api_worker \<Rightarrow> string \<Rightarrow> bool \<Rightarrow> ('db, api_utxo list) act" where
  "GetAddressUtxo w address onlyConfirmed =
     bindA (liftA (getAddrDescAndNormalizeAddress w address)) (\<lambda>(addrDesc, _).
     getAddrDescUtxo w addrDesc None onlyConfirmed False)"

section \<open>Calling back\<close>

text \<open>
  A scan with any callback is that callback called with the reports of the scan, until it stops.
\<close>

fun callAll :: "(string \<Rightarrow> u32 \<Rightarrow> int32 list \<Rightarrow> 's \<Rightarrow> 's cb_result) \<Rightarrow> tx_report list \<Rightarrow> 's \<Rightarrow> 's scan res" where
  "callAll fn [] s = Ok (ScanOn s)"
| "callAll fn ((txid, height, indexes) # rs) s =
     (case fn txid height indexes s of CbNext s \<Rightarrow> callAll fn rs s | CbStop s \<Rightarrow> Ok (ScanDone s) | CbErr e \<Rightarrow> Err e)"

fun scanState :: "'s scan \<Rightarrow> 's" where
  "scanState (ScanOn s) = s"
| "scanState (ScanDone s) = s"

lemma callAll_append:
  "callAll fn (rs @ rs') s = bindR (callAll fn rs s) (\<lambda>r. case r of ScanOn s \<Rightarrow> callAll fn rs' s | ScanDone s \<Rightarrow> Ok (ScanDone s))"
  by (induction fn rs s rule: callAll.induct) (auto split: cb_result.split)

lemma scanVal_calls:
  "scanVal D collect h fuel val acc = Ok r
    \<Longrightarrow> \<exists>rs. r = ScanOn (acc @ rs) \<and> (\<forall>fn (s :: 's). scanVal D fn h fuel val s = callAll fn rs s)"
proof (induction fuel arbitrary: val acc)
  case (Suc fuel)
  show ?case
  proof (cases "length val > cp_PackedTxidLen (parserOf D)")
    case True
    with Suc.prems obtain t tx val' indexes val'' where steps: "sliceR val 0 (int (cp_PackedTxidLen (parserOf D))) = Ok t"
        "cp_UnpackTxid (parserOf D) t = Ok tx" "sliceFromR val (int (cp_PackedTxidLen (parserOf D))) = Ok val'"
        "readIndexes (vlqOf D) (Suc (length val')) val' = Ok (indexes, val'')"
        "scanVal D collect h fuel val'' (acc @ [(tx, h, indexes)]) = Ok r"
      by (auto simp: Let_def collect_def [of _ _ _ acc] simp del: readIndexes.simps elim!: bindR_OkE)
    from Suc.IH [OF steps(5)] obtain rs where "r = ScanOn ((acc @ [(tx, h, indexes)]) @ rs)"
        "\<And>fn (s :: 's). scanVal D fn h fuel val'' s = callAll fn rs s" by blast
    then have "r = ScanOn (acc @ (tx, h, indexes) # rs) \<and> (\<forall>fn (s :: 's). scanVal D fn h (Suc fuel) val s = callAll fn ((tx, h, indexes) # rs) s)"
      using True steps by (simp add: Let_def del: readIndexes.simps split: cb_result.split)
    then show ?thesis by blast
  next
    case False
    then show ?thesis using Suc.prems by (intro exI [of _ "[]"]) (auto simp: Let_def)
  qed
qed simp

lemma scanEntries_calls:
  "scanEntries D collect stop es acc = Ok r
    \<Longrightarrow> \<exists>rs. r = acc @ rs \<and> (\<forall>fn (s :: 's). scanEntries D fn stop es s = bindR (callAll fn rs s) (\<lambda>r. Ok (scanState r)))"
proof (induction es arbitrary: acc)
  case (Cons e es)
  obtain key val where e: "e = (key, val)" by (cases e)
  show ?case
  proof (cases "key > stop")
    case False
    with Cons.prems e obtain x height r' where key: "unpackAddressKey key = Ok (x, height)"
        "scanVal D collect height (Suc (length val)) val acc = Ok r'" by (auto simp del: scanVal.simps elim!: bindR_OkE)
    obtain rs where rs: "r' = ScanOn (acc @ rs)" "\<And>fn (s :: 's). scanVal D fn height (Suc (length val)) val s = callAll fn rs s"
      using scanVal_calls [OF key(2)] by blast
    have "scanEntries D collect stop es (acc @ rs) = Ok r"
      using Cons.prems e False key rs(1) by (simp del: scanVal.simps)
    from Cons.IH [OF this] obtain rs' where rs': "r = (acc @ rs) @ rs'"
        "\<And>fn (s :: 's). scanEntries D fn stop es s = bindR (callAll fn rs' s) (\<lambda>r. Ok (scanState r))" by blast
    have "scanEntries D fn stop (e # es) s = bindR (callAll fn (rs @ rs') s) (\<lambda>r. Ok (scanState r))" for fn and s :: 's
      using False key(1) by (simp add: e rs(2) rs'(2) callAll_append bindR_assoc del: scanVal.simps)
        (rule bindR_cong; auto simp: rs'(2) split: scan.split)
    with rs'(1) show ?thesis by (intro exI [of _ "rs @ rs'"]) simp
  qed (use Cons.prems e in \<open>intro exI [of _ "[]"], simp\<close>)
qed simp

lemma GetAddrDescTransactions_calls:
  assumes "GetAddrDescTransactions D db addrDesc lower higher collect [] = Ok rs"
  shows "GetAddrDescTransactions D db addrDesc lower higher fn s = bindR (callAll fn rs s) (\<lambda>r. Ok (scanState r))"
  using scanEntries_calls [of D "packAddressKey addrDesc lower" _ "[]" rs] assms by (fastforce simp: GetAddrDescTransactions_def Let_def)

section \<open>The history of an address\<close>

definition passes :: "AddressFilter \<Rightarrow> int32 list \<Rightarrow> bool" where
  "passes filt indexes \<longleftrightarrow> af_Vout filt = AddressFilterVoutOff \<or> (\<exists>index \<in> set indexes. passesVout filt index)"

lemma filterLoop_step:
  "filterLoop filt maxResults txid indexes txids =
     (if \<exists>index \<in> set indexes. passesVout filt index
      then if int (length txids) + 1 \<ge> maxResults then CbStop (txids @ [txid]) else CbNext (txids @ [txid])
      else CbNext txids)"
  by (induction indexes) (auto simp: Let_def)

lemma addressCallback_step:
  "addressCallback filt maxResults txid height indexes txids =
     (if passes filt indexes
      then if int (length txids) + 1 \<ge> maxResults then CbStop (txids @ [txid]) else CbNext (txids @ [txid])
      else CbNext txids)"
  by (auto simp: addressCallback_def passes_def filterLoop_step Let_def)

definition history :: "AddressFilter \<Rightarrow> tx_report list \<Rightarrow> string list" where
  "history filt rs = map fst (filter (\<lambda>(_, _, indexes). passes filt indexes) rs)"

lemma callAll_history:
  "int (length txids) < maxResults
    \<Longrightarrow> \<exists>r. callAll (addressCallback filt maxResults) rs txids = Ok r
          \<and> scanState r = txids @ take (nat maxResults - length txids) (history filt rs)"
proof (induction rs arbitrary: txids)
  case (Cons x rs)
  obtain txid height indexes where x: "x = (txid, height, indexes)" by (metis prod_cases3)
  show ?case
  proof (cases "passes filt indexes")
    case True
    show ?thesis
    proof (cases "int (length txids) + 1 \<ge> maxResults")
      case stop: True
      then have "nat maxResults - length txids = 1" using Cons.prems by linarith
      with True stop show ?thesis by (simp add: x addressCallback_step history_def)
    next
      case False
      then have "nat maxResults - length txids = Suc (nat maxResults - length (txids @ [txid]))" by simp
      with True False Cons.IH [of "txids @ [txid]"] show ?thesis by (simp add: x addressCallback_step history_def)
    qed
  next
    case False
    with Cons.IH [OF Cons.prems] show ?thesis by (simp add: x addressCallback_step history_def)
  qed
qed (simp add: history_def)

lemma getAddressTxids_confirmed:
  assumes "GetAddrDescTransactions (aw_deps w) db addrDesc (af_FromHeight filt)
      (if af_ToHeight filt = 0 then maxUint32 else af_ToHeight filt) collect [] = Ok rs" "1 \<le> maxResults"
  shows "getAddressTxids w db addrDesc False filt maxResults = Ok (take (nat maxResults) (history filt rs))"
  using callAll_history [of "[]" maxResults filt rs] assms(2)
  by (auto simp: getAddressTxids_def Let_def GetAddrDescTransactions_calls [OF assms(1)])

text \<open>Every element once, at the place of its first occurrence.\<close>

definition firsts :: "'a list \<Rightarrow> 'a list" where
  "firsts xs = rev (remdups (rev xs))"

lemma firsts_snoc: "firsts (xs @ [x]) = (if x \<in> set xs then firsts xs else firsts xs @ [x])"
  by (simp add: firsts_def)

lemma set_firsts [simp]: "set (firsts xs) = set xs"
  by (simp add: firsts_def)

lemma firsts_Nil [simp]: "firsts [] = []"
  by (simp add: firsts_def)

definition mempoolIds :: "AddressFilter \<Rightarrow> Outpoint list \<Rightarrow> string list" where
  "mempoolIds filt ops = map op_Txid (filter (\<lambda>m. passes filt [op_Vout m]) ops)"

lemma mempoolStep_firsts:
  "dom (mapGet u) = set ids
    \<Longrightarrow> \<exists>u'. mempoolStep filt maxResults m (firsts ids, u) = (firsts (ids @ mempoolIds filt [m]), u')
          \<and> dom (mapGet u') = set (ids @ mempoolIds filt [m])"
  by (auto simp: mempoolStep_def addressCallback_step mempoolIds_def firsts_snoc dom_def Let_def mapGet_mapPut)

lemma mempool_fold:
  "dom (mapGet u) = set ids
    \<Longrightarrow> fst (fold (mempoolStep filt maxResults) ops (firsts ids, u)) = firsts (ids @ mempoolIds filt ops)"
proof (induction ops arbitrary: ids u)
  case Nil
  then show ?case by (simp add: mempoolIds_def)
next
  case (Cons m ops)
  obtain u' where u': "mempoolStep filt maxResults m (firsts ids, u) = (firsts (ids @ mempoolIds filt [m]), u')"
      "dom (mapGet u') = set (ids @ mempoolIds filt [m])"
    using mempoolStep_firsts [OF Cons.prems] by blast
  have "mempoolIds filt [m] @ mempoolIds filt ops = mempoolIds filt (m # ops)" by (simp add: mempoolIds_def)
  then show ?case using Cons.IH [OF u'(2)] u'(1) by simp
qed

lemma uniqueLoop_firsts:
  "dom (mapGet u) = set ids \<Longrightarrow> take i ut = firsts ids \<Longrightarrow> i = length (firsts ids) \<Longrightarrow> i + length txids \<le> length ut
    \<Longrightarrow> case uniqueLoop txids (ut, i, u) of (ut', i', _) \<Rightarrow> take i' ut' = firsts (ids @ txids)"
proof (induction txids arbitrary: ids ut i u)
  case (Cons t txids)
  show ?case
  proof (cases "t \<in> set ids")
    case True
    then have "mapGet u t \<noteq> None" using Cons.prems(1) by blast
    moreover have "firsts (ids @ [t]) = firsts ids" using True by (simp add: firsts_snoc)
    ultimately show ?thesis using Cons.IH [of u "ids @ [t]" i ut] Cons.prems True by (auto simp: insert_absorb)
  next
    case False
    then have "mapGet u t = None" using Cons.prems(1) by blast
    moreover have "firsts (ids @ [t]) = firsts ids @ [t]" using False by (simp add: firsts_snoc)
    moreover have "take (Suc i) (ut[i := t]) = take i ut @ [t]" using Cons.prems(4) by (simp add: take_Suc_conv_app_nth)
    moreover have "dom (mapGet (mapPut t () u)) = set (ids @ [t])" using Cons.prems(1) by (auto simp: dom_def mapGet_mapPut)
    ultimately show ?thesis using Cons.IH [of "mapPut t () u" "ids @ [t]" "Suc i" "ut[i := t]"] Cons.prems by auto
  qed
qed simp

text \<open>Removing duplicates of a list of transactions keeps the first occurrences in their order.\<close>

lemma GetUniqueTxids_firsts: "GetUniqueTxids txids = firsts txids"
  using uniqueLoop_firsts [of "[]" "[]" 0 "replicate (length txids) []" txids]
  by (simp add: GetUniqueTxids_def split: prod.splits)


definition outputsFilter :: AddressFilter where
  "outputsFilter = \<lparr>af_Vout = AddressFilterVoutOutputs, af_FromHeight = 0, af_ToHeight = 100,
     af_TokensToReturn = TokensToReturnUsed, af_OnlyConfirmed = True\<rparr>"


section \<open>Pages of the history\<close>

text \<open>The number of results is known when nothing is filtered.\<close>

definition unfiltered :: "AddressFilter \<Rightarrow> bool" where
  "unfiltered filt \<longleftrightarrow> af_Vout filt = AddressFilterVoutOff \<and> af_FromHeight filt = 0 \<and> af_ToHeight filt = 0"

lemma page_of_take:
  assumes "0 < n" "1 \<le> page" "(page - 1) * n < int (length hist)"
  shows "sliceR (take (nat (page * n)) hist) ((page - 1) * n) (int (length (take (nat (page * n)) hist)))
      = Ok (take (nat n) (drop (nat ((page - 1) * n)) hist))"
    "(page - 1) * n < int (length (take (nat (page * n)) hist))"
    "int (length (take (nat (page * n)) hist)) \<le> (page - 1) * n + n"
    "n \<le> int (length (take (nat (page * n)) hist)) \<longleftrightarrow> n \<le> int (length hist)"
proof -
  define k where "k = nat ((page - 1) * n)"
  have k: "(page - 1) * n = int k" using assms(1,2) by (simp add: k_def)
  have "page * n = (page - 1) * n + n" by (simp add: left_diff_distrib)
  then have "page * n = int k + n" by (simp only: k)
  then have p: "nat (page * n) = k + nat n" using assms(1) by (simp add: nat_add_distrib)
  have "k < length hist" using assms(3) k by simp
  then show "(page - 1) * n < int (length (take (nat (page * n)) hist))"
      "int (length (take (nat (page * n)) hist)) \<le> (page - 1) * n + n"
      "n \<le> int (length (take (nat (page * n)) hist)) \<longleftrightarrow> n \<le> int (length hist)"
    using assms(1) p unfolding k by (auto simp: min_def)
  show "sliceR (take (nat (page * n)) hist) ((page - 1) * n) (int (length (take (nat (page * n)) hist)))
      = Ok (take (nat n) (drop (nat ((page - 1) * n)) hist))"
    using \<open>k < length hist\<close> unfolding p k by (auto simp: sliceR_def drop_take min_def)
qed

lemma historyPage_run:
  assumes scan: "GetAddrDescTransactions (aw_deps w) (d_db d) addrDesc (af_FromHeight filt)
      (if af_ToHeight filt = 0 then maxUint32 else af_ToHeight filt) collect [] = Ok rs"
    and best: "GetBestBlock (aw_deps w) (d_db d) = Ok (b, hash)"
    and page: "0 < n" "1 \<le> page" "(page - 1) * n < int (length (history filt rs))" "page * n < 2 ^ 63" "int (length (history filt rs)) < 2 ^ 63"
    and results: "totalResults < 0 \<or> totalResults = int (length (history filt rs))"
  shows "historyPage w addrDesc (page - 1) n AccountDetailsTxidHistory filt totalResults d
    = (d, Ok (\<lparr>pg_Page = page, pg_TotalPages = (if totalResults < 0 \<and> n \<le> int (length (history filt rs)) then - 1
                  else 1 + (int (length (history filt rs)) - 1) div n), pg_ItemsOnPage = n\<rparr>,
         take (nat n) (drop (nat ((page - 1) * n)) (history filt rs)), []))"
proof -
  define t where "t = take (nat (page * n)) (history filt rs)"
  let ?h = "history filt rs"
  note part = page_of_take [OF page(1-3), folded t_def]
  have "1 * 1 \<le> page * n" using page(1,2) by (intro mult_mono) auto
  moreover have "page - 1 \<le> (page - 1) * n" using page_le page(1,2) by simp
  moreover have "n * 1 \<le> n * page" using page(1,2) by (intro mult_left_mono) auto
  ultimately have small: "1 \<le> page * n" "page < 2 ^ 63" "n < 2 ^ 63" using page(3-5) by (auto simp: mult.commute)
  have w: "wrap64 page = page" "wrap64 (page * n) = page * n" using small page(2,4) by (auto intro!: wrap64_id)
  have txc: "getAddressTxids w (d_db d) addrDesc False filt (page * n) = Ok t"
    unfolding t_def using scan small(1) by (rule getAddressTxids_confirmed)
  have cut: "int (length t) < 2 ^ 63" "min (int (length t)) ((page - 1) * n + n) = int (length t)"
    using page(5) part(3) by (auto simp: t_def)
  have paging: "computePaging (int (length t)) (page - 1) n
      = (\<lparr>pg_Page = page, pg_TotalPages = 1 + (int (length t) - 1) div n, pg_ItemsOnPage = n\<rparr>, (page - 1) * n, int (length t), page - 1)"
    using computePaging_page [OF page(1) small(3) page(2) part(2) cut(1)] cut(2) by simp
  have whole: "fst (computePaging (int (length ?h)) (page - 1) n) = \<lparr>pg_Page = page, pg_TotalPages = 1 + (int (length ?h) - 1) div n, pg_ItemsOnPage = n\<rparr>"
    using computePaging_page [OF page(1) small(3) page(2,3,5)] by simp
  have short: "t = ?h" if "int (length ?h) < n"
  proof -
    have "n \<le> page * n" using \<open>n * 1 \<le> n * page\<close> by (simp only: mult.commute mult_1_right mult_1_left)
    with that have "int (length ?h) \<le> page * n" by (meson less_imp_le order_trans)
    then show ?thesis by (simp add: t_def)
  qed
  show ?thesis
    using results part(4) short whole
    by (auto simp: historyPage_def w txc best paging part(1) Let_def)
qed


definition allFilter :: AddressFilter where
  "allFilter = \<lparr>af_Vout = AddressFilterVoutOff, af_FromHeight = 0, af_ToHeight = 0, af_TokensToReturn = TokensToReturnUsed, af_OnlyConfirmed = True\<rparr>"

definition historyRocks :: "alist_db RocksDB" where
  "historyRocks = cacheRocks\<lparr>d_db := ((cfAddressBalance, [7]), [3, 1, 5, 1, 9])
     # ((cfAddresses, [7, 255, 255, 255, 250]), [2, 1, 1, 1]) # ((cfAddresses, [7, 255, 255, 255, 246]), [3, 1]) # pagesDb\<rparr>"


section \<open>Outputs that can be spent\<close>

lemma catchA_run: "m d = (d', Ok x) \<Longrightarrow> catchA m h f d = f x d'"
  by (simp add: catchA_def)

lemma foldA_collects:
  "(\<And>u r. u \<in> set us \<Longrightarrow> f u r d = (d, Ok (r @ g u))) \<Longrightarrow> foldA f us r d = (d, Ok (r @ concat (map g us)))"
  by (induction us arbitrary: r) (simp_all add: bindA_run)

lemma foldR_collects:
  "(\<And>x r. x \<in> set xs \<Longrightarrow> f x r = Ok (r @ g x)) \<Longrightarrow> foldR f xs r = Ok (r @ concat (map g xs))"
  by (induction xs arbitrary: r) simp_all

text \<open>The outputs some transactions spend.\<close>

definition spends :: "Tx list \<Rightarrow> string set" where
  "spends txs = (\<Union>t \<in> set txs. (\<lambda>vin. spentKey (vin_Txid vin) (uint (vin_Vout vin))) ` set (tx_Vin t))"

lemma dom_fold_mapPut: "dom (mapGet (fold (\<lambda>x. mapPut (k x) ()) xs m)) = k ` set xs \<union> dom (mapGet m)"
  by (induction xs arbitrary: m) (auto simp: dom_def mapGet_mapPut)

lemma collectMempool_all:
  "(\<And>t. t \<in> set ids \<Longrightarrow> txCacheGet w t d = (d, Ok (tx t, ht t))) \<Longrightarrow> dom (mapGet S) = spends mc
    \<Longrightarrow> \<exists>S'. foldA (collectMempool w) ids (mc, S) d = (d, Ok (mc @ map tx ids, S')) \<and> dom (mapGet S') = spends (mc @ map tx ids)"
proof (induction ids arbitrary: mc S)
  case (Cons t ids)
  define S1 where "S1 = fold (\<lambda>vin. mapPut (spentKey (vin_Txid vin) (uint (vin_Vout vin))) ()) (tx_Vin (tx t)) S"
  have read: "txCacheGet w t d = (d, Ok (tx t, ht t))" using Cons.prems(1) by simp
  have step: "collectMempool w t (mc, S) d = (d, Ok (mc @ [tx t], S1))"
    by (simp add: collectMempool_def S1_def catchA_run [where m = "txCacheGet w t", OF read])
  have "dom (mapGet S1) = spends (mc @ [tx t])"
    using Cons.prems(2) unfolding S1_def dom_fold_mapPut by (auto simp: spends_def)
  from Cons.IH [OF _ this] Cons.prems(1) obtain S' where
      "foldA (collectMempool w) ids (mc @ [tx t], S1) d = (d, Ok ((mc @ [tx t]) @ map tx ids, S'))" "dom (mapGet S') = spends ((mc @ [tx t]) @ map tx ids)"
    by auto
  then show ?case by (intro exI [of _ S']) (simp add: bindA_run [where m = "collectMempool w t s" for s, OF step])
qed auto

text \<open>What is offered of a transaction of the mempool and of an output of the index.\<close>

definition offered :: "(Vout \<Rightarrow> AddressDescriptor) \<Rightarrow> AddressDescriptor \<Rightarrow> string set \<Rightarrow> Tx \<Rightarrow> api_utxo list" where
  "offered desc addrDesc S t =
     map (\<lambda>(i, vout). \<lparr>au_Txid = tx_Txid t, au_Vout = of_nat i, au_AmountSat = Some (vout_ValueSat vout), au_Height = 0, au_Confirmations = 0,
            au_Address = [], au_Path = [], au_Locktime = tx_LockTime t, au_StakeContract = IsP2CSScript (hexPrefix (vout_ScriptPubKeyHex vout))\<rparr>)
       (filter (\<lambda>(i, vout). desc vout = addrDesc \<and> spentKey (tx_Txid t) (int i) \<notin> S) (indexed (tx_Vout t)))"

definition indexUtxo :: "int \<Rightarrow> string \<Rightarrow> Tx \<Rightarrow> Utxo \<Rightarrow> api_utxo" where
  "indexUtxo best txid t u =
     \<lparr>au_Txid = txid, au_Vout = u_Vout u, au_AmountSat = Some (u_ValueSat u), au_Height = uint (u_Height u),
      au_Confirmations = best - uint (u_Height u) + 1, au_Address = [], au_Path = [], au_Locktime = 0,
      au_StakeContract = IsP2CSScript (hexPrefix (vout_ScriptPubKeyHex (tx_Vout t ! nat (sint (u_Vout u)))))\<rparr>"

lemma map_filter_concat: "map f (filter P xs) = concat (map (\<lambda>x. if P x then [f x] else []) xs)"
  by (induction xs) auto

lemma mempoolUtxos_offered:
  assumes "\<And>v. cp_GetAddrDescFromVout (chainParser w) v = Ok (desc v)" "dom (mapGet m) = S"
  shows "mempoolUtxos w addrDesc m t = Ok (offered desc addrDesc S t)"
  unfolding mempoolUtxos_def offered_def map_filter_concat
  by (subst foldR_collects [where g = "\<lambda>(i, vout). if desc vout = addrDesc \<and> spentKey (tx_Txid t) (int i) \<notin> S
      then [\<lparr>au_Txid = tx_Txid t, au_Vout = of_nat i, au_AmountSat = Some (vout_ValueSat vout), au_Height = 0, au_Confirmations = 0,
            au_Address = [], au_Path = [], au_Locktime = tx_LockTime t, au_StakeContract = IsP2CSScript (hexPrefix (vout_ScriptPubKeyHex vout))\<rparr>] else []"])
    (use assms in \<open>auto simp: split_beta dom_def intro!: arg_cong [where f = concat]\<close>)

lemma confirmedUtxo_index:
  assumes "cp_UnpackTxid (chainParser w) (u_BtxID u) = Ok txid" and read: "txCacheGet w txid d = (d, Ok (t, h))"
    and "0 \<le> sint (u_Vout u)" "sint (u_Vout u) < int (length (tx_Vout t))"
  shows "confirmedUtxo w best m u r d
    = (d, Ok (r @ (if mapGet m (spentKey txid (sint (u_Vout u))) = None then [indexUtxo best txid t u] else [])))"
  using assms(1,3,4)
  by (simp add: confirmedUtxo_def catchA_run [where m = "txCacheGet w txid", OF read] indexR_def indexUtxo_def)


text \<open>
  An address with two outputs of the transaction 01, the first of which the transaction aa of the
  mempool spends, and one output in aa.
\<close>

definition payTo :: "int \<Rightarrow> Vout" where
  "payTo v = \<lparr>vout_ValueSat = v, vout_JsonValue = [], vout_N = 0, vout_ScriptPubKeyHex = ''07'', vout_Addresses = []\<rparr>"

definition utxoTx :: "string \<Rightarrow> Tx" where
  "utxoTx t = (if t = ''aa''
     then cachedTx\<lparr>tx_Txid := ''aa'', tx_Confirmations := 0, tx_Vout := [payTo 3],
       tx_Vin := [\<lparr>vin_Coinbase = [], vin_Txid = ''01'', vin_Vout = 0, vin_ScriptSigHex = [], vin_Sequence = 0, vin_Addresses = []\<rparr>]\<rparr>
     else cachedTx\<lparr>tx_Vout := [payTo 4, payTo 5]\<rparr>)"

definition utxoWorker :: "alist_db api_worker" where
  "utxoWorker = viewWorker\<lparr>aw_deps := sampleDeps\<lparr>parserOf := sampleParser\<lparr>cp_GetAddrDescFromVout := \<lambda>v. Ok (hexPrefix (vout_ScriptPubKeyHex v))\<rparr>\<rparr>,
     aw_chain := cacheChain\<lparr>bc_GetTransaction := \<lambda>t. Ok (utxoTx t)\<rparr>, aw_enabled := False,
     aw_mempool := \<lparr>mp_txEntries = [], mp_addrDescToTx = [([7], [\<lparr>op_Txid = ''aa'', op_Vout = 0\<rparr>])]\<rparr>\<rparr>"

definition utxoRocks :: "alist_db RocksDB" where
  "utxoRocks = cacheRocks\<lparr>d_db := pagesDb\<rparr>"

definition utxoBalance :: AddrBalance where
  "utxoBalance = emptyAddrBalance\<lparr>ab_Txs := 1, ab_BalanceSat := 9,
     ab_Utxos := [\<lparr>u_BtxID = [1], u_Vout = 0, u_Height = 2, u_ValueSat = 4\<rparr>, \<lparr>u_BtxID = [1], u_Vout = 1, u_Height = 2, u_ValueSat = 5\<rparr>]\<rparr>"


text \<open>
  A transaction of the index that cannot be read, because the node is not reachable, makes the
  request panic instead of fail.
\<close>

lemma confirmedUtxo_unreadable:
  assumes "cp_UnpackTxid (chainParser w) (u_BtxID u) = Ok txid" "txCacheGet w txid d = (d', Err (ErrMsg e))"
    and "mapGet m (spentKey txid (sint (u_Vout u))) = None"
  shows "confirmedUtxo w best m u r d = (d', Err (Panic ''nil pointer dereference''))"
  using assms by (simp add: confirmedUtxo_def catchA_def)

end
