(* ===== verification/Xpub.thy ===== *)
theory Xpub
  imports IndexReads Mempool BitcoinParser
begin

text \<open>
  Accounts of extended public keys (\<open>src/api/xpub.go\<close>): deriving addresses until a gap of unused
  ones, their balances and transactions, and the cache of accounts. The lock of an account and the
  lock of the cache make each request one run on its account and each use of the cache one step.
  Times are seconds, far from the ends of their 64 bits.
\<close>

section \<open>Data\<close>

definition xpubLen :: nat where "xpubLen = 111"
definition defaultAddressesGap :: int where "defaultAddressesGap = 20"
definition maxAddressesGap :: int where "maxAddressesGap = 100"
definition txInput :: byte where "txInput = 1"
definition txOutput :: byte where "txOutput = 2"
definition xpubCacheSize :: nat where "xpubCacheSize = 512"
definition xpubCacheExpirationSeconds :: int where "xpubCacheExpirationSeconds = 7200"
definition maxInt :: int where "maxInt = 2 ^ 63 - 1"

text \<open>The stripe of the lock of an account, a hash of its key.\<close>

definition lockXpub :: "string \<Rightarrow> u32" where
  "lockXpub xpub = foldl (\<lambda>hash c. (hash XOR of_nat (of_char c)) * 16777619) 2166136261 xpub mod 64"

record xpubTxid =
  xt_txid :: string
  xt_height :: u32
  xt_inputOutput :: byte

definition Less_xpub :: "xpubTxid \<Rightarrow> xpubTxid \<Rightarrow> bool" where
  "Less_xpub a b =
     (if xt_height a = xt_height b then (xt_inputOutput a AND txInput) \<ge> (xt_inputOutput b AND txInput)
      else xt_height a > xt_height b)"

record xpubAddress =
  xa_addrDesc :: AddressDescriptor
  xa_balance :: "AddrBalance option"
  xa_txs :: u32
  xa_maxHeight :: u32
  xa_complete :: bool
  xa_txids :: "xpubTxid list"

record xpubData =
  xd_gap :: int
  xd_accessed :: int
  xd_basePath :: string
  xd_dataHeight :: u32
  xd_dataHash :: string
  xd_txCountEstimate :: u32
  xd_sentSat :: int
  xd_balanceSat :: int
  xd_addresses :: "xpubAddress list"
  xd_changeAddresses :: "xpubAddress list"

text \<open>What a worker reads: the index, the mempool and the derivation of keys.\<close>

record ('db, 'a, 'k) worker =
  wk_deps :: "'db deps"
  wk_mempool :: BaseMempool
  wk_lib :: "('a, 'k) btc_lib"
  wk_parser :: BitcoinParser

section \<open>Transactions of an address\<close>

type_synonym txids_state = "xpubTxid list \<times> bool"

definition inputOutputOf :: "int32 list \<Rightarrow> byte" where
  "inputOutputOf indexes = foldl (\<lambda>io index. io OR (if sint index < 0 then txInput else txOutput)) 0 indexes"

definition txidsCallback :: "int \<Rightarrow> string \<Rightarrow> u32 \<Rightarrow> int32 list \<Rightarrow> txids_state \<Rightarrow> txids_state cb_result" where
  "txidsCallback maxResults txid height indexes = (\<lambda>(txs, complete).
     if int (length txs) \<ge> maxResults \<and> txs = [] then CbErr (Panic ''index out of range'')
     else if int (length txs) \<ge> maxResults \<and> xt_height (last txs) \<noteq> height then CbStop (txs, False)
     else CbNext (txs @ [\<lparr>xt_txid = txid, xt_height = height, xt_inputOutput = inputOutputOf indexes\<rparr>], complete))"

text \<open>One outpoint of the mempool; what the callback returns is ignored.\<close>

definition mempoolTxid :: "int \<Rightarrow> Outpoint \<Rightarrow> txids_state \<times> (string, int) gomap \<Rightarrow> (txids_state \<times> (string, int) gomap) res" where
  "mempoolTxid maxResults m = (\<lambda>((txs, complete), uniqueTxs).
     case mapGet uniqueTxs (op_Txid m) of
       None \<Rightarrow>
         let l = int (length txs)
         in (case txidsCallback maxResults (op_Txid m) 0 [op_Vout m] (txs, complete) of
               CbErr e \<Rightarrow> Err e
             | CbNext (txs, complete) \<Rightarrow>
                 Ok ((txs, complete), if int (length txs) > l then mapPut (op_Txid m) (l - 1) uniqueTxs else uniqueTxs)
             | CbStop (txs, complete) \<Rightarrow>
                 Ok ((txs, complete), if int (length txs) > l then mapPut (op_Txid m) (l - 1) uniqueTxs else uniqueTxs))
     | Some l \<Rightarrow>
         bindR (indexR txs l) (\<lambda>t.
         Ok ((txs[nat l := t\<lparr>xt_inputOutput := xt_inputOutput t OR (if sint (op_Vout m) < 0 then txInput else txOutput)\<rparr>], complete), uniqueTxs)))"

definition xpubGetAddressTxids :: "('db, 'a, 'k) worker \<Rightarrow> 'db \<Rightarrow> AddressDescriptor \<Rightarrow> bool \<Rightarrow> u32 \<Rightarrow> u32 \<Rightarrow> int \<Rightarrow> txids_state res" where
  "xpubGetAddressTxids w db addrDesc mempool fromHeight toHeight maxResults =
     (if mempool
      then bindR (foldR (mempoolTxid maxResults) (GetAddrDescTransactions_mempool addrDesc (wk_mempool w)) (([], True), [])) (\<lambda>(s, _). Ok s)
      else GetAddrDescTransactions (wk_deps w) db addrDesc fromHeight toHeight (txidsCallback maxResults) ([], True))"

text \<open>A difference between the number of transactions loaded and counted is only logged.\<close>

definition xpubCheckAndLoadTxids :: "('db, 'a, 'k) worker \<Rightarrow> 'db \<Rightarrow> u32 \<Rightarrow> xpubAddress \<Rightarrow> xpubAddress res" where
  "xpubCheckAndLoadTxids w db maxHeight ad =
     (case xa_balance ad of
        None \<Rightarrow> Ok ad
      | Some balance \<Rightarrow>
          if xa_complete ad
          then if ab_Txs balance \<noteq> xa_txs ad
               then bindR (xpubGetAddressTxids w db (xa_addrDesc ad) False (xa_maxHeight ad + 1) maxHeight maxInt) (\<lambda>(newTxids, _).
                    let txids = newTxids @ xa_txids ad
                    in Ok (ad\<lparr>xa_txids := txids, xa_maxHeight := maxHeight, xa_txs := of_nat (length txids)\<rparr>))
               else Ok ad
          else bindR (xpubGetAddressTxids w db (xa_addrDesc ad) False 0 maxHeight maxInt) (\<lambda>(newTxids, complete).
               let ad = ad\<lparr>xa_txids := newTxids, xa_complete := complete, xa_maxHeight := maxHeight\<rparr>
               in Ok (if complete then ad\<lparr>xa_txs := of_nat (length newTxids)\<rparr> else ad)))"

section \<open>Derived addresses\<close>

definition xpubDerivedAddressBalance :: "('db, 'a, 'k) worker \<Rightarrow> 'db \<Rightarrow> xpubData \<Rightarrow> xpubAddress \<Rightarrow> (bool \<times> xpubData \<times> xpubAddress) res" where
  "xpubDerivedAddressBalance w db data ad =
     bindR (GetAddrDescBalance (wk_deps w) db (xa_addrDesc ad) AddressBalanceDetailUTXO) (\<lambda>balance.
     let ad = ad\<lparr>xa_balance := balance\<rparr>
     in case balance of
          None \<Rightarrow> Ok (False, data, ad)
        | Some b \<Rightarrow> Ok (True, data\<lparr>xd_txCountEstimate := xd_txCountEstimate data + ab_Txs b,
                         xd_sentSat := xd_sentSat data + ab_SentSat b, xd_balanceSat := xd_balanceSat data + ab_BalanceSat b\<rparr>, ad))"

definition newXpubAddress :: "AddressDescriptor \<Rightarrow> xpubAddress" where
  "newXpubAddress d = \<lparr>xa_addrDesc = d, xa_balance = None, xa_txs = 0, xa_maxHeight = 0, xa_complete = False, xa_txids = []\<rparr>"

definition resetCached :: "xpubAddress \<Rightarrow> xpubAddress" where
  "resetCached ad = ad\<lparr>xa_txs := 0, xa_maxHeight := 0, xa_complete := False, xa_txids := []\<rparr>"

text \<open>Both loops over addresses: known ones, and newly derived ones that start at index \<open>from\<close>.\<close>

fun scanLoop :: "('db, 'a, 'k) worker \<Rightarrow> 'db \<Rightarrow> nat \<Rightarrow> xpubAddress list \<Rightarrow> nat \<Rightarrow> xpubData \<Rightarrow> (nat \<times> xpubData \<times> xpubAddress list) res" where
  "scanLoop w db i [] lastUsed data = Ok (lastUsed, data, [])"
| "scanLoop w db i (ad # ads) lastUsed data =
     bindR (xpubDerivedAddressBalance w db data ad) (\<lambda>(used, data, ad).
     bindR (scanLoop w db (i + 1) ads (if used then i else lastUsed) data) (\<lambda>(lastUsed, data, ads).
     Ok (lastUsed, data, ad # ads)))"

fun deriveMissing :: "('db, 'a, 'k) worker \<Rightarrow> 'db \<Rightarrow> string \<Rightarrow> int \<Rightarrow> u32 \<Rightarrow> int \<Rightarrow> nat \<Rightarrow> nat \<Rightarrow> xpubData \<Rightarrow> xpubAddress list
    \<Rightarrow> (nat \<times> xpubData \<times> xpubAddress list) res" where
  "deriveMissing w db xpub gap change minDerivedIndex 0 lastUsed data addresses = Err OutOfFuel"
| "deriveMissing w db xpub gap change minDerivedIndex (Suc fuel) lastUsed data addresses =
     (let missing = int (length addresses) - int lastUsed
      in if missing < gap
         then let from = length addresses;
                  to = int from + gap - missing;
                  to = (if to < minDerivedIndex then minDerivedIndex else to)
              in bindR (DeriveAddressDescriptorsFromTo (wk_lib w) (wk_parser w) xpub change (of_nat from) (of_int to)) (\<lambda>descriptors.
                 bindR (scanLoop w db from (map newXpubAddress descriptors) lastUsed data) (\<lambda>(lastUsed, data, ads).
                 deriveMissing w db xpub gap change minDerivedIndex fuel lastUsed data (addresses @ ads)))
         else Ok (lastUsed, data, addresses))"

definition xpubScanAddresses :: "('db, 'a, 'k) worker \<Rightarrow> 'db \<Rightarrow> nat \<Rightarrow> string \<Rightarrow> xpubData \<Rightarrow> xpubAddress list \<Rightarrow> int \<Rightarrow> u32 \<Rightarrow> int \<Rightarrow> bool
    \<Rightarrow> (nat \<times> xpubData \<times> xpubAddress list) res" where
  "xpubScanAddresses w db fuel xpub data addresses gap change minDerivedIndex fork =
     bindR (scanLoop w db 0 (if fork then map resetCached addresses else addresses) 0 data) (\<lambda>(lastUsed, data, addresses).
     deriveMissing w db xpub gap change minDerivedIndex fuel lastUsed data addresses)"

section \<open>The cache\<close>

type_synonym xpub_cache = "(string, xpubData) gomap"

text \<open>
  \<open>entries\<close> are the entries of the map in the order in which Go iterates over them. Deleting the
  current key does not disturb the iteration.
\<close>

fun evictLoop :: "int \<Rightarrow> (string \<times> xpubData) list \<Rightarrow> xpub_cache \<times> string \<times> int \<Rightarrow> xpub_cache \<times> string \<times> int" where
  "evictLoop now [] s = s"
| "evictLoop now ((k, v) # es) (cache, oldestKey, oldest) =
     evictLoop now es
       (if xd_accessed v + xpubCacheExpirationSeconds < now then mapDelete k cache else cache,
        if xd_accessed v < oldest then k else oldestKey,
        if xd_accessed v < oldest then xd_accessed v else oldest)"

definition evictXpubCacheItems :: "int \<Rightarrow> (string \<times> xpubData) list \<Rightarrow> xpub_cache \<Rightarrow> xpub_cache" where
  "evictXpubCacheItems now entries cache =
     (case evictLoop now entries (cache, [], maxInt) of (cache, oldestKey, oldest) \<Rightarrow>
        if oldestKey \<noteq> [] \<and> oldest + xpubCacheExpirationSeconds \<ge> now then mapDelete oldestKey cache else cache)"

text \<open>The end of \<open>getXpubData\<close>, under the lock of the cache.\<close>

definition cacheXpub :: "int \<Rightarrow> (string \<times> xpubData) list \<Rightarrow> string \<Rightarrow> xpubData \<Rightarrow> xpub_cache \<Rightarrow> xpub_cache" where
  "cacheXpub now entries xpub data cache =
     mapPut xpub data (if length cache \<ge> xpubCacheSize then evictXpubCacheItems now entries cache else cache)"

section \<open>An account\<close>

text \<open>
  An error ends a request without an answer and leaves the cache as it was. (In the code the known
  addresses of a cached account share their array with the cache, so the balances read before the
  error stay in it; the height of the entry is still the old one and the next request reads them
  again.)
\<close>

definition limitGap :: "int \<Rightarrow> int" where
  "limitGap gap = (if gap \<le> 0 then defaultAddressesGap else if gap > maxAddressesGap then maxAddressesGap else gap) + 1"

definition newXpubData :: "('db, 'a, 'k) worker \<Rightarrow> string \<Rightarrow> int \<Rightarrow> xpubData res" where
  "newXpubData w xpub gap =
     bindR (catchR (DerivationBasePath (wk_lib w) (wk_parser w) xpub) (\<lambda>_. Ok ''unknown'') Ok) (\<lambda>basePath.
     Ok \<lparr>xd_gap = gap, xd_accessed = 0, xd_basePath = basePath, xd_dataHeight = 0, xd_dataHash = [], xd_txCountEstimate = 0,
         xd_sentSat = 0, xd_balanceSat = 0, xd_addresses = [], xd_changeAddresses = []\<rparr>)"

definition emptyXpubData :: xpubData where
  "emptyXpubData = \<lparr>xd_gap = 0, xd_accessed = 0, xd_basePath = [], xd_dataHeight = 0, xd_dataHash = [], xd_txCountEstimate = 0,
     xd_sentSat = 0, xd_balanceSat = 0, xd_addresses = [], xd_changeAddresses = []\<rparr>"

text \<open>One round on the state \<open>db\<close> of the index, whose best block is given.\<close>

definition xpubRound :: "('db, 'a, 'k) worker \<Rightarrow> 'db \<Rightarrow> nat \<Rightarrow> string \<Rightarrow> int \<Rightarrow> bool \<Rightarrow> u32 \<times> string \<Rightarrow> xpubData option \<Rightarrow> xpubData res" where
  "xpubRound w db fuel xpub gap loadTxids = (\<lambda>(bestheight, besthash) cached.
     bindR (case cached of
              Some data \<Rightarrow>
                if xd_gap data \<noteq> gap then bindR (newXpubData w xpub gap) (\<lambda>data. Ok (data, False))
                else bindR (GetBlockHash (wk_deps w) db (xd_dataHeight data)) (\<lambda>hash. Ok (data, hash \<noteq> xd_dataHash data))
            | None \<Rightarrow> bindR (newXpubData w xpub gap) (\<lambda>data. Ok (data, False))) (\<lambda>(data, fork).
     bindR (if xd_dataHeight data < bestheight \<or> fork
            then let data = data\<lparr>xd_dataHeight := bestheight, xd_dataHash := besthash, xd_balanceSat := 0, xd_sentSat := 0, xd_txCountEstimate := 0\<rparr>
                 in bindR (xpubScanAddresses w db fuel xpub data (xd_addresses data) gap 0 0 fork) (\<lambda>(lastUsedIndex, data, addresses).
                    let data = data\<lparr>xd_addresses := addresses\<rparr>
                    in bindR (xpubScanAddresses w db fuel xpub data (xd_changeAddresses data) gap 1 (int lastUsedIndex) fork) (\<lambda>(_, data, changeAddresses).
                       Ok (data\<lparr>xd_changeAddresses := changeAddresses\<rparr>)))
            else Ok data) (\<lambda>data.
     if loadTxids
     then bindR (mapR (xpubCheckAndLoadTxids w db bestheight) (xd_addresses data)) (\<lambda>as.
          bindR (mapR (xpubCheckAndLoadTxids w db bestheight) (xd_changeAddresses data)) (\<lambda>cs.
          Ok (data\<lparr>xd_addresses := as, xd_changeAddresses := cs\<rparr>)))
     else Ok data)))"

text \<open>
  The index may change while an account is loaded: \<open>dbs\<close> are its states round by round. A round
  that finds the best block unchanged ends the loop. As in the code, \<open>found\<close> is not set by the
  first round, so that an account that was not cached starts anew in every round.
\<close>

fun xpubRounds :: "('db, 'a, 'k) worker \<Rightarrow> nat \<Rightarrow> 'db list \<Rightarrow> string \<Rightarrow> int \<Rightarrow> bool \<Rightarrow> bool \<Rightarrow> string \<Rightarrow> xpubData option
    \<Rightarrow> (xpubData \<times> u32) res" where
  "xpubRounds w fuel [] xpub gap loadTxids isCached processedHash data = Err OutOfFuel"
| "xpubRounds w fuel (db # dbs) xpub gap loadTxids isCached processedHash data =
     bindR (GetBestBlock (wk_deps w) db) (\<lambda>(bestheight, besthash).
     if besthash = processedHash
     then (case data of None \<Rightarrow> Ok (emptyXpubData, bestheight) | Some d \<Rightarrow> Ok (d, bestheight))
     else bindR (xpubRound w db fuel xpub gap loadTxids (bestheight, besthash) (if isCached then data else None)) (\<lambda>d.
          xpubRounds w fuel dbs xpub gap loadTxids isCached besthash (Some d)))"

definition getXpubData :: "('db, 'a, 'k) worker \<Rightarrow> nat \<Rightarrow> 'db list \<Rightarrow> int \<Rightarrow> (string \<times> xpubData) list \<Rightarrow> string \<Rightarrow> bool \<Rightarrow> int \<Rightarrow> xpub_cache
    \<Rightarrow> xpub_cache \<times> (xpubData \<times> u32) res" where
  "getXpubData w fuel dbs now entries xpub loadTxids gap cache =
     (if length xpub \<noteq> xpubLen then (cache, Err (ErrMsg ''XPUB not supported''))
      else let cached = mapGet cache xpub
           in case xpubRounds w fuel dbs xpub (limitGap gap) loadTxids (cached \<noteq> None) [] cached of
                Inl e \<Rightarrow> (cache, Err e)
              | Inr (data, bestheight) \<Rightarrow>
                  let data = data\<lparr>xd_accessed := now\<rparr>
                  in (cacheXpub now entries xpub data cache, Ok (data, bestheight)))"

section \<open>The gap of unused addresses\<close>

text \<open>
  What the scan reads: the descriptors \<open>der\<close> of the indexes of one branch and their balances.
\<close>

definition derives :: "('db, 'a, 'k) worker \<Rightarrow> string \<Rightarrow> u32 \<Rightarrow> (nat \<Rightarrow> AddressDescriptor) \<Rightarrow> bool" where
  "derives w xpub change der \<longleftrightarrow>
     (\<exists>k ck. bl_NewKeyFromString (wk_lib w) xpub = Ok k \<and> bl_Child (wk_lib w) k change = Ok ck
        \<and> (\<forall>i. deriveIndex (wk_lib w) (wk_parser w) ck i = Ok (der (unat i))))"

definition balancesOf :: "('db, 'a, 'k) worker \<Rightarrow> 'db \<Rightarrow> (AddressDescriptor \<Rightarrow> AddrBalance option) \<Rightarrow> bool" where
  "balancesOf w db bal \<longleftrightarrow> (\<forall>d. GetAddrDescBalance (wk_deps w) db d AddressBalanceDetailUTXO = Ok (bal d))"

definition lastUsedIn :: "(AddressDescriptor \<Rightarrow> AddrBalance option) \<Rightarrow> (nat \<Rightarrow> AddressDescriptor) \<Rightarrow> nat \<Rightarrow> nat" where
  "lastUsedIn bal der n = Max (insert 0 {i. i < n \<and> bal (der i) \<noteq> None})"

definition satOf :: "(AddrBalance \<Rightarrow> int) \<Rightarrow> AddrBalance option \<Rightarrow> int" where
  "satOf f b = (case b of None \<Rightarrow> 0 | Some b \<Rightarrow> f b)"

lemma derive_range:
  assumes "derives w xpub change der" "from < to" "to < 2 ^ 32"
  shows "DeriveAddressDescriptorsFromTo (wk_lib w) (wk_parser w) xpub change (of_nat from) (of_nat to) = Ok (map der [from..<to])"
proof -
  obtain k ck where k: "bl_NewKeyFromString (wk_lib w) xpub = Ok k" "bl_Child (wk_lib w) k change = Ok ck"
      "\<And>i. deriveIndex (wk_lib w) (wk_parser w) ck i = Ok (der (unat i))"
    using assms(1) by (auto simp: derives_def)
  have u: "unat (of_nat from :: u32) = from" "unat (of_nat to :: u32) = to" using assms by (simp_all add: unat_of_nat)
  have "mapR (deriveIndex (wk_lib w) (wk_parser w) ck) (map of_nat [from..<to]) = Ok (map (\<lambda>i :: u32. der (unat i)) (map of_nat [from..<to]))"
    by (rule mapR_all_Ok) (simp add: k(3))
  moreover have "map (\<lambda>i. der (unat i)) (map (of_nat :: nat \<Rightarrow> u32) [from..<to]) = map der [from..<to]"
    using assms(3) by (simp add: unat_of_nat)
  ultimately show ?thesis
    using assms(2) k by (simp add: DeriveAddressDescriptorsFromTo_list DeriveAddressDescriptors_def word_le_nat_alt u)
qed

text \<open>One pass over addresses from index \<open>i\<close> on.\<close>

lemma scanLoop_Ok:
  assumes bal: "balancesOf w db bal"
  shows "lu \<le> i \<Longrightarrow> \<forall>j < length ads. xa_addrDesc (ads ! j) = der (i + j)
    \<Longrightarrow> \<exists>data' ads'. scanLoop w db i ads lu data = Ok (Max (insert lu {j. i \<le> j \<and> j < i + length ads \<and> bal (der j) \<noteq> None}), data', ads')
      \<and> length ads' = length ads \<and> (\<forall>j < length ads. xa_addrDesc (ads' ! j) = der (i + j) \<and> xa_balance (ads' ! j) = bal (der (i + j)))
      \<and> xd_balanceSat data' = xd_balanceSat data + (\<Sum>j\<leftarrow>[i..<i + length ads]. satOf ab_BalanceSat (bal (der j)))
      \<and> xd_sentSat data' = xd_sentSat data + (\<Sum>j\<leftarrow>[i..<i + length ads]. satOf ab_SentSat (bal (der j)))"
proof (induction ads arbitrary: i lu data)
  case Nil
  have "{j. i \<le> j \<and> j < i \<and> P j} = {}" for P :: "nat \<Rightarrow> bool" by auto
  from this [of "\<lambda>j. bal (der j) \<noteq> None"] show ?case by (simp only: list.size add_0_right) simp
next
  case (Cons ad ads)
  let ?d1 = "case bal (der i) of None \<Rightarrow> data | Some b \<Rightarrow> data\<lparr>xd_txCountEstimate := xd_txCountEstimate data + ab_Txs b,
    xd_sentSat := xd_sentSat data + ab_SentSat b, xd_balanceSat := xd_balanceSat data + ab_BalanceSat b\<rparr>"
  let ?lu = "if bal (der i) \<noteq> None then i else lu"
  have ad: "xa_addrDesc ad = der i" using Cons.prems(2) by force
  have step: "xpubDerivedAddressBalance w db data ad = Ok (bal (der i) \<noteq> None, ?d1, ad\<lparr>xa_balance := bal (der i)\<rparr>)"
    using bal by (simp add: xpubDerivedAddressBalance_def balancesOf_def ad split: option.splits)
  have next_: "\<forall>j < length ads. xa_addrDesc (ads ! j) = der (i + 1 + j)" using Cons.prems(2) by force
  have "?lu \<le> i + 1" using Cons.prems(1) by simp
  from Cons.IH [OF this next_, of ?d1] obtain data' ads' where IH: "scanLoop w db (i + 1) ads ?lu ?d1
        = Ok (Max (insert ?lu {j. i + 1 \<le> j \<and> j < i + 1 + length ads \<and> bal (der j) \<noteq> None}), data', ads')"
      "length ads' = length ads" "\<forall>j < length ads. xa_addrDesc (ads' ! j) = der (i + 1 + j) \<and> xa_balance (ads' ! j) = bal (der (i + 1 + j))"
      "xd_balanceSat data' = xd_balanceSat ?d1 + (\<Sum>j\<leftarrow>[i + 1..<i + 1 + length ads]. satOf ab_BalanceSat (bal (der j)))"
      "xd_sentSat data' = xd_sentSat ?d1 + (\<Sum>j\<leftarrow>[i + 1..<i + 1 + length ads]. satOf ab_SentSat (bal (der j)))"
    by blast
  let ?U = "\<lambda>i n. {j. i \<le> j \<and> j < i + n \<and> bal (der j) \<noteq> None}"
  have fin: "finite (?U i n)" for i n by simp
  have "Max (insert ?lu (?U (i + 1) (length ads))) = Max (insert lu (?U i (length (ad # ads))))"
  proof (cases "bal (der i) = None")
    case True
    then have "?U i (length (ad # ads)) = ?U (i + 1) (length ads)" by (auto simp: le_less Suc_le_eq)
    with True show ?thesis by simp
  next
    case False
    then have "?U i (length (ad # ads)) = insert i (?U (i + 1) (length ads))" by (auto simp: le_less Suc_le_eq)
    moreover have "Max (insert lu (insert i (?U (i + 1) (length ads)))) = Max (insert i (?U (i + 1) (length ads)))"
      using Cons.prems(1) fin by (subst Max_insert) (auto simp: max_def Max_ge_iff)
    ultimately show ?thesis using False by simp
  qed
  moreover have "[i..<i + length (ad # ads)] = i # [i + 1..<i + 1 + length ads]"
    using upt_conv_Cons [of i "i + 1 + length ads"] by (simp del: upt_Suc)
  ultimately show ?case
    using step IH ad
    by (intro exI [of _ data'] exI [of _ "ad\<lparr>xa_balance := bal (der i)\<rparr> # ads'"])
      (auto simp: nth_Cons satOf_def split: nat.splits option.splits)
qed

lemma lastUsedIn_extend:
  "n \<le> m \<Longrightarrow> Max (insert (lastUsedIn bal der n) {j. n \<le> j \<and> j < m \<and> bal (der j) \<noteq> None}) = lastUsedIn bal der m"
proof -
  assume nm: "n \<le> m"
  let ?A = "{i. i < n \<and> bal (der i) \<noteq> None}" and ?B = "{j. n \<le> j \<and> j < m \<and> bal (der j) \<noteq> None}"
  have "{i. i < m \<and> bal (der i) \<noteq> None} = ?A \<union> ?B" using nm by auto
  then have "insert 0 {i. i < m \<and> bal (der i) \<noteq> None} = insert 0 ?A \<union> ?B" by simp
  moreover have "Max (insert (Max X) B) = Max (X \<union> B)" if "finite X" "X \<noteq> {}" "finite B" for X B :: "nat set"
    using that by (cases "B = {}") (simp_all add: Max_Un)
  then have "Max (insert (Max (insert 0 ?A)) ?B) = Max (insert 0 ?A \<union> ?B)" by this simp_all
  ultimately show ?thesis by (simp add: lastUsedIn_def)
qed

lemma lastUsedIn_used: "lastUsedIn bal der n = 0 \<or> bal (der (lastUsedIn bal der n)) \<noteq> None \<and> lastUsedIn bal der n < n"
proof -
  have "lastUsedIn bal der n \<in> insert 0 {i. i < n \<and> bal (der i) \<noteq> None}"
    unfolding lastUsedIn_def by (rule Max_in) simp_all
  then show ?thesis by blast
qed

lemma lastUsedIn_bound:
  assumes "\<forall>i \<ge> K. bal (der i) = None"
  shows "lastUsedIn bal der n \<le> K" "lastUsedIn bal der n \<le> n" "i < n \<Longrightarrow> lastUsedIn bal der n < i \<Longrightarrow> bal (der i) = None"
proof -
  have fin: "finite (insert 0 {i. i < n \<and> bal (der i) \<noteq> None})" by simp
  show "lastUsedIn bal der n \<le> n" using lastUsedIn_used [of bal der n] by auto
  show "lastUsedIn bal der n \<le> K" using lastUsedIn_used [of bal der n] assms by (metis linear zero_le)
  assume i: "i < n" "lastUsedIn bal der n < i"
  then show "bal (der i) = None"
    using Max_ge [OF fin, of i] by (force simp: lastUsedIn_def)
qed

text \<open>An account as far as it is scanned: the first \<open>n\<close> addresses with their balances and the sums.\<close>

definition scanned :: "(AddressDescriptor \<Rightarrow> AddrBalance option) \<Rightarrow> (nat \<Rightarrow> AddressDescriptor) \<Rightarrow> xpubData \<Rightarrow> nat \<times> xpubData \<times> xpubAddress list \<Rightarrow> bool" where
  "scanned bal der data = (\<lambda>(lastUsed, data', ads).
     lastUsed = lastUsedIn bal der (length ads)
     \<and> (\<forall>j < length ads. xa_addrDesc (ads ! j) = der j \<and> xa_balance (ads ! j) = bal (der j))
     \<and> xd_balanceSat data' = xd_balanceSat data + (\<Sum>j < length ads. satOf ab_BalanceSat (bal (der j)))
     \<and> xd_sentSat data' = xd_sentSat data + (\<Sum>j < length ads. satOf ab_SentSat (bal (der j))))"

lemma sum_list_extend: "n \<le> m \<Longrightarrow> (\<Sum>j < n. f j) + (\<Sum>j\<leftarrow>[n..<m]. f j) = (\<Sum>j < m. f j :: int)"
  by (induction m rule: dec_induct) (simp_all add: add.assoc [symmetric])

lemma scanned_extend:
  assumes bal: "balancesOf w db bal" and inv: "scanned bal der base (lu, data, ads)" and len: "length ads \<le> m"
  shows "\<exists>data' ads'. scanLoop w db (length ads) (map newXpubAddress (map der [length ads..<m])) lu data = Ok (lastUsedIn bal der m, data', ads')
    \<and> length ads' = m - length ads \<and> scanned bal der base (lastUsedIn bal der m, data', ads @ ads')"
proof -
  let ?n = "length ads"
  have lu: "lu = lastUsedIn bal der ?n" "lu \<le> ?n"
    using inv by (auto simp: scanned_def lastUsedIn_def)
  have "\<forall>j < length (map newXpubAddress (map der [?n..<m])). xa_addrDesc (map newXpubAddress (map der [?n..<m]) ! j) = der (?n + j)"
    by (simp add: newXpubAddress_def)
  from scanLoop_Ok [OF bal lu(2) this, of data] obtain data' ads' where
    scan: "scanLoop w db ?n (map newXpubAddress (map der [?n..<m])) lu data
        = Ok (Max (insert lu {j. ?n \<le> j \<and> j < m \<and> bal (der j) \<noteq> None}), data', ads')" "length ads' = m - ?n"
      "\<forall>j < m - ?n. xa_addrDesc (ads' ! j) = der (?n + j) \<and> xa_balance (ads' ! j) = bal (der (?n + j))"
      "xd_balanceSat data' = xd_balanceSat data + (\<Sum>j\<leftarrow>[?n..<m]. satOf ab_BalanceSat (bal (der j)))"
      "xd_sentSat data' = xd_sentSat data + (\<Sum>j\<leftarrow>[?n..<m]. satOf ab_SentSat (bal (der j)))"
    using len by auto
  have "scanned bal der base (lastUsedIn bal der m, data', ads @ ads')"
    using inv scan(2-5) len sum_list_extend [OF len, of "\<lambda>j. satOf ab_BalanceSat (bal (der j))"]
      sum_list_extend [OF len, of "\<lambda>j. satOf ab_SentSat (bal (der j))"]
    by (auto simp: scanned_def nth_append)
  with scan(1,2) show ?thesis using lastUsedIn_extend [OF len, of bal der] lu(1) by auto
qed

lemma deriveMissing_Ok:
  assumes der: "derives w xpub change der" and bal: "balancesOf w db bal"
    and unused: "\<forall>i \<ge> K. bal (der i) = None" and gap: "0 < gap" "K + gap < 2 ^ 32" and min: "minIndex < 2 ^ 32"
  shows "scanned bal der base (lu, data, ads) \<Longrightarrow> K + gap \<le> length ads + fuel
    \<Longrightarrow> \<exists>r. deriveMissing w db xpub (int gap) change minIndex (Suc fuel) lu data ads = Ok r \<and> scanned bal der base r
         \<and> fst r + gap \<le> length (snd (snd r))"
proof (induction fuel arbitrary: lu data ads)
  case (0 lu data ads)
  have "lu \<le> K" using 0(1) lastUsedIn_bound(1) [OF unused] by (simp add: scanned_def)
  with 0 show ?case by (auto intro!: exI [of _ "(lu, data, ads)"])
next
  case (Suc fuel lu data ads)
  let ?n = "length ads"
  have lu: "lu = lastUsedIn bal der ?n" "lu \<le> K" "lu \<le> ?n"
    using Suc.prems(1) lastUsedIn_bound(1,2) [OF unused] by (simp_all add: scanned_def)
  show ?case
  proof (cases "int ?n - int lu < int gap")
    case False
    then show ?thesis using Suc.prems(1) by (auto intro!: exI [of _ "(lu, data, ads)"])
  next
    case True
    define to where "to = (if int ?n + int gap - (int ?n - int lu) < minIndex then minIndex else int ?n + int gap - (int ?n - int lu))"
    define m where "m = nat to"
    have to: "to = int m" "?n < m" "m < 2 ^ 32" using True lu gap min by (auto simp: to_def m_def)
    have d: "DeriveAddressDescriptorsFromTo (wk_lib w) (wk_parser w) xpub change (of_nat ?n) (of_int to) = Ok (map der [?n..<m])"
      using derive_range [OF der to(2,3)] by (simp add: to(1))
    obtain data' ads' where ext: "scanLoop w db ?n (map newXpubAddress (map der [?n..<m])) lu data = Ok (lastUsedIn bal der m, data', ads')"
        "length ads' = m - ?n" "scanned bal der base (lastUsedIn bal der m, data', ads @ ads')"
      using scanned_extend [OF bal Suc.prems(1), of m] to(2) by auto
    have "K + gap \<le> length (ads @ ads') + fuel" using Suc.prems(2) ext(2) to(2) by simp
    from Suc.IH [OF ext(3) this] show ?thesis
      using True d ext(1) to_def [symmetric] by (simp add: Let_def del: deriveMissing.simps(2) add: deriveMissing.simps(2) [of _ _ _ _ _ _ "Suc fuel"])
  qed
qed


text \<open>An account whose address 3 has a balance of 5, in an index that holds nothing else.\<close>

definition sampleWorker :: "(alist_db, bytes, u32) worker" where
  "sampleWorker = \<lparr>wk_deps = sampleDeps, wk_mempool = \<lparr>mp_txEntries = [], mp_addrDescToTx = []\<rparr>, wk_lib = sampleLib, wk_parser = sampleBtc\<rparr>"

definition sampleAccount :: alist_db where
  "sampleAccount = [((cfAddressBalance, packUint 3), [1, 0, 1, 5])]"

definition sampleAccountBalance :: "AddressDescriptor \<Rightarrow> AddrBalance option" where
  "sampleAccountBalance d =
     (if d = packUint 3 then Some \<lparr>ab_Txs = 1, ab_SentSat = 0, ab_BalanceSat = 5, ab_Utxos = [], ab_utxosMap = []\<rparr> else None)"

definition sampleDerived :: "nat \<Rightarrow> AddressDescriptor" where
  "sampleDerived i = (if i < 2 ^ 32 then packUint (of_nat i) else [])"

lemma sample_derives: "derives sampleWorker xpub 0 sampleDerived"
  using unsigned_less [where ?'a = nat and ?'b = 32]
  by (auto simp: sampleDerived_def derives_def sampleWorker_def sampleLib_def sampleBtc_def NewBitcoinParser_def deriveIndex_def addrDescFromExtKey_def)

lemma sample_balances: "balancesOf sampleWorker sampleAccount sampleAccountBalance"
proof -
  have "unpackAddrBalance vlq128 [1, 0, 1, 5] (cp_PackedTxidLen sampleParser) AddressBalanceDetailUTXO
      = Ok \<lparr>ab_Txs = 1, ab_SentSat = 0, ab_BalanceSat = 5, ab_Utxos = [], ab_utxosMap = []\<rparr>"
    by code_simp
  then have used: "GetAddrDescBalance sampleDeps sampleAccount (packUint 3) AddressBalanceDetailUTXO = Ok (sampleAccountBalance (packUint 3))"
    by (simp add: GetAddrDescBalance_def sampleDeps_def alistStore_def sampleAccount_def sampleAccountBalance_def dataOf_def)
  have other: "GetAddrDescBalance sampleDeps sampleAccount d AddressBalanceDetailUTXO = Ok (sampleAccountBalance d)" if "d \<noteq> packUint 3" for d
    using that by (simp add: GetAddrDescBalance_def sampleDeps_def alistStore_def sampleAccount_def sampleAccountBalance_def dataOf_def)
  have "wk_deps sampleWorker = sampleDeps" by (simp add: sampleWorker_def)
  with used other show ?thesis unfolding balancesOf_def by metis
qed


section \<open>The cache stays small\<close>

lemma evictLoop_shape:
  "case evictLoop now es (cache, oldestKey, oldest) of (cache', key, time) \<Rightarrow>
     (\<forall>k. mapGet cache' k = (if \<exists>v. (k, v) \<in> set es \<and> xd_accessed v + xpubCacheExpirationSeconds < now then None else mapGet cache k))
     \<and> (wfMap cache \<longrightarrow> wfMap cache') \<and> time \<le> oldest \<and> (\<forall>(k, v) \<in> set es. time \<le> xd_accessed v)
     \<and> ((key, time) = (oldestKey, oldest) \<or> (\<exists>v. (key, v) \<in> set es \<and> xd_accessed v = time))"
proof (induction es arbitrary: cache oldestKey oldest)
  case (Cons e es)
  obtain k v where e: "e = (k, v)" by (cases e)
  show ?case
    using Cons [where cache = "if xd_accessed v + xpubCacheExpirationSeconds < now then mapDelete k cache else cache"
        and oldestKey = "if xd_accessed v < oldest then k else oldestKey" and oldest = "if xd_accessed v < oldest then xd_accessed v else oldest"]
    by (auto simp: e split: prod.splits if_splits)
qed simp

lemma length_wfMap: "wfMap m \<Longrightarrow> length m = card (dom (mapGet m))"
  unfolding wfMap_def by (simp add: dom_map_of_conv_image_fst distinct_card flip: set_map)

lemma length_mapPut: "length (mapPut k v m) \<le> Suc (length m)"
  by (induction m) auto

text \<open>The entries of a cache: accounts under their keys, used before the end of time.\<close>

definition okCache :: "xpub_cache \<Rightarrow> bool" where
  "okCache cache \<longleftrightarrow> wfMap cache \<and> (\<forall>(k, v) \<in> set cache. k \<noteq> [] \<and> xd_accessed v < maxInt)"

definition expired :: "int \<Rightarrow> xpubData \<Rightarrow> bool" where
  "expired now v \<longleftrightarrow> xd_accessed v + xpubCacheExpirationSeconds < now"

definition oldestIn :: "xpub_cache \<Rightarrow> xpubData \<Rightarrow> bool" where
  "oldestIn cache v \<longleftrightarrow> (\<forall>(k, v') \<in> set cache. xd_accessed v \<le> xd_accessed v')"

lemma evict_keeps:
  assumes ok: "okCache cache" and entries: "set entries = set cache"
  shows "wfMap (evictXpubCacheItems now entries cache)"
    "mapGet (evictXpubCacheItems now entries cache) k \<noteq> mapGet cache k
      \<Longrightarrow> mapGet (evictXpubCacheItems now entries cache) k = None \<and> (\<exists>v. mapGet cache k = Some v \<and> (expired now v \<or> oldestIn cache v))"
    "cache \<noteq> [] \<Longrightarrow> \<exists>k. mapGet cache k \<noteq> None \<and> mapGet (evictXpubCacheItems now entries cache) k = None"
proof -
  obtain c1 key time where loop: "evictLoop now entries (cache, [], maxInt) = (c1, key, time)" by (metis prod_cases3)
  have wf: "wfMap cache" using ok by (simp add: okCache_def)
  have get: "mapGet cache k = Some v \<longleftrightarrow> (k, v) \<in> set cache" for k v
    using wf by (simp add: wfMap_def)
  have c1: "mapGet c1 k = (if \<exists>v. (k, v) \<in> set cache \<and> expired now v then None else mapGet cache k)" for k
    using evictLoop_shape [where now = now and es = entries and cache = cache and oldestKey = "[]" and oldest = maxInt] by (simp add: loop entries expired_def)
  have old: "\<forall>(k, v) \<in> set cache. time \<le> xd_accessed v"
      "(key, time) = ([], maxInt) \<or> (\<exists>v. (key, v) \<in> set cache \<and> xd_accessed v = time)" "wfMap c1"
    using evictLoop_shape [where now = now and es = entries and cache = cache and oldestKey = "[]" and oldest = maxInt] wf by (simp_all add: loop entries)
  have r: "evictXpubCacheItems now entries cache = (if key \<noteq> [] \<and> time + xpubCacheExpirationSeconds \<ge> now then mapDelete key c1 else c1)"
    by (simp add: evictXpubCacheItems_def loop)
  show "wfMap (evictXpubCacheItems now entries cache)" using old(3) by (simp add: r)
  show "mapGet (evictXpubCacheItems now entries cache) k = None \<and> (\<exists>v. mapGet cache k = Some v \<and> (expired now v \<or> oldestIn cache v))"
    if "mapGet (evictXpubCacheItems now entries cache) k \<noteq> mapGet cache k"
  proof (cases "\<exists>v. (k, v) \<in> set cache \<and> expired now v")
    case True
    then show ?thesis by (auto simp: r c1 get)
  next
    case False
    then have k: "key = k" "key \<noteq> []" "time + xpubCacheExpirationSeconds \<ge> now"
      using that by (auto simp: r c1 split: if_splits)
    then obtain v where "(key, v) \<in> set cache" "xd_accessed v = time" using old(2) by auto
    then show ?thesis using k old(1) by (auto simp: r oldestIn_def get [symmetric])
  qed
  show "\<exists>k. mapGet cache k \<noteq> None \<and> mapGet (evictXpubCacheItems now entries cache) k = None" if ne: "cache \<noteq> []"
  proof -
    obtain k0 v0 where e: "(k0, v0) \<in> set cache" using ne by (cases cache) auto
    then have "time < maxInt" using old(1) ok by (fastforce simp: okCache_def)
    then obtain v where v: "(key, v) \<in> set cache" "xd_accessed v = time" using old(2) by auto
    then have "key \<noteq> []" "mapGet cache key \<noteq> None" using ok get [of key v] by (auto simp: okCache_def)
    moreover have "mapGet (evictXpubCacheItems now entries cache) key = None"
      using v \<open>key \<noteq> []\<close> by (auto simp: r c1 expired_def)
    ultimately show ?thesis by blast
  qed
qed

text \<open>
  C29: storing an account keeps the cache at 512 accounts at most, whatever the order in which it
  is searched for something to remove; the account is found afterwards, and every account that is
  gone had expired or was the one not used for longest.
\<close>

theorem cacheXpub_bounded:
  assumes ok: "okCache cache" and size: "length cache \<le> 512" and entries: "set entries = set cache"
  shows "length (cacheXpub now entries xpub data cache) \<le> 512 \<and> mapGet (cacheXpub now entries xpub data cache) xpub = Some data
    \<and> (\<forall>k. k \<noteq> xpub \<and> mapGet (cacheXpub now entries xpub data cache) k \<noteq> mapGet cache k
         \<longrightarrow> mapGet (cacheXpub now entries xpub data cache) k = None
             \<and> (\<exists>v. mapGet cache k = Some v \<and> (expired now v \<or> oldestIn cache v)))"
proof (cases "length cache \<ge> xpubCacheSize")
  case True
  then have full: "length cache = 512" "cache \<noteq> []" using size by (auto simp: xpubCacheSize_def)
  let ?e = "evictXpubCacheItems now entries cache"
  have wf: "wfMap cache" "wfMap ?e" using ok evict_keeps(1) [OF ok entries] by (simp_all add: okCache_def)
  have sub: "dom (mapGet ?e) \<subseteq> dom (mapGet cache)"
  proof
    fix k assume "k \<in> dom (mapGet ?e)"
    then show "k \<in> dom (mapGet cache)"
      using evict_keeps(2) [OF ok entries, of now k] by (metis domIff)
  qed
  obtain k where "k \<in> dom (mapGet cache)" "k \<notin> dom (mapGet ?e)" using evict_keeps(3) [OF ok entries full(2)] by blast
  then have "dom (mapGet ?e) \<subset> dom (mapGet cache)" using sub by blast
  then have "length ?e < length cache"
    using psubset_card_mono [of "dom (mapGet cache)" "dom (mapGet ?e)"] wf by (simp add: length_wfMap finite_dom_map_of)
  then have "length (mapPut xpub data ?e) \<le> 512" using length_mapPut [of xpub data ?e] full by linarith
  with True evict_keeps(2) [OF ok entries] show ?thesis by (auto simp: cacheXpub_def)
next
  case False
  then show ?thesis using length_mapPut [of xpub data cache] by (auto simp: cacheXpub_def xpubCacheSize_def)
qed

text \<open>C29 at a cache of one account.\<close>

theorem cacheXpub_bounded_witness:
  "let cache = [(''xpubA'', emptyXpubData)]
   in okCache cache \<and> length (cacheXpub 5 cache ''xpubB'' emptyXpubData cache) \<le> 512
      \<and> mapGet (cacheXpub 5 cache ''xpubB'' emptyXpubData cache) ''xpubB'' = Some emptyXpubData"
proof -
  have ok: "okCache [(''xpubA'', emptyXpubData)]"
    by (simp add: okCache_def wfMap_def emptyXpubData_def maxInt_def)
  from cacheXpub_bounded [OF ok, of "[(''xpubA'', emptyXpubData)]" 5 "''xpubB''" emptyXpubData] ok show ?thesis
    by (simp add: Let_def)
qed

section \<open>Mempool transactions of an address\<close>

text \<open>
  The place of a mempool transaction in the list is remembered one too low, so the account
  whose address has two outputs of the same first transaction in the mempool cannot be loaded: the
  request panics.
\<close>

theorem xpubGetAddressTxids_mempool_panics:
  assumes "GetAddrDescTransactions_mempool addrDesc (wk_mempool w) = \<lparr>op_Txid = t, op_Vout = v\<rparr> # \<lparr>op_Txid = t, op_Vout = v'\<rparr> # rest"
    and "0 < maxResults"
  shows "xpubGetAddressTxids w db addrDesc True fromHeight toHeight maxResults = Err (Panic ''index out of range'')"
  using assms by (simp add: xpubGetAddressTxids_def mempoolTxid_def txidsCallback_def indexR_def Let_def)

text \<open>The panic at a transaction with two outputs to the same address.\<close>

theorem xpubGetAddressTxids_mempool_panics_witness:
  "let w = sampleWorker\<lparr>wk_mempool := \<lparr>mp_txEntries = [], mp_addrDescToTx = [([7], [\<lparr>op_Txid = ''t'', op_Vout = 1\<rparr>, \<lparr>op_Txid = ''t'', op_Vout = 0\<rparr>])]\<rparr>\<rparr>
   in xpubGetAddressTxids w [] [7] True 0 0 maxInt = Err (Panic ''index out of range'')"
  unfolding Let_def
  by (rule xpubGetAddressTxids_mempool_panics [where t = "''t''" and v = 0 and v' = 1 and rest = "[]"])
    (simp_all add: GetAddrDescTransactions_mempool_def outpointsAt_def maxInt_def)

end
