(* ===== verification/ApiXpub.thy ===== *)
theory ApiXpub
  imports ApiAddress Xpub
begin

text \<open>
  The answers on an account of an extended key (\<open>src/api/xpub.go\<close>): its history merged from the
  histories of its addresses, the list of its addresses, and its unspent outputs. A request works on
  one state of the index. \<open>sort.Stable\<close> is a parameter, since the orders it is given do not tell
  equal heights apart.
\<close>

section \<open>Data\<close>

record ('db, 'a, 'k) account_worker =
  acw_api :: "'db api_worker"
  acw_lib :: "('a, 'k) btc_lib"
  acw_parser :: BitcoinParser
  acw_fuel :: nat
  acw_sortTxids :: "xpubTxid list \<Rightarrow> xpubTxid list"
  acw_sortUtxos :: "api_utxo list \<Rightarrow> api_utxo list"

definition xpubWorker :: "('db, 'a, 'k) account_worker \<Rightarrow> ('db, 'a, 'k) worker" where
  "xpubWorker a = \<lparr>wk_deps = aw_deps (acw_api a), wk_mempool = aw_mempool (acw_api a), wk_lib = acw_lib a, wk_parser = acw_parser a\<rparr>"

record Token =
  tk_Name :: string
  tk_Path :: string
  tk_Transfers :: int
  tk_Decimals :: int
  tk_BalanceSat :: amount
  tk_TotalReceivedSat :: amount
  tk_TotalSentSat :: amount

record Account = Address +
  ac_UsedTokens :: int
  ac_Tokens :: "Token list"
  ac_XPubAddresses :: "(string, unit) gomap"

definition tokenFromXpubAddress :: "('db, 'a, 'k) account_worker \<Rightarrow> xpubData \<Rightarrow> xpubAddress \<Rightarrow> nat \<Rightarrow> nat \<Rightarrow> AccountDetails \<Rightarrow> Token res" where
  "tokenFromXpubAddress a data ad changeIndex index details =
     bindR (addressesOf (chainParser (acw_api a)) (xa_addrDesc ad)) (\<lambda>(as, _).
     let address = (if as \<noteq> [] then as ! 0 else []);
         shown = (\<lambda>f. case xa_balance ad of Some b \<Rightarrow> if details \<ge> AccountDetailsTokenBalances then Some (f b) else None | None \<Rightarrow> None)
     in Ok \<lparr>tk_Name = address, tk_Path = xd_basePath data @ ''/'' @ natString changeIndex @ ''/'' @ natString index,
            tk_Transfers = (case xa_balance ad of None \<Rightarrow> 0 | Some b \<Rightarrow> uint (ab_Txs b)),
            tk_Decimals = cp_AmountDecimals (chainParser (acw_api a)),
            tk_BalanceSat = shown ab_BalanceSat, tk_TotalReceivedSat = shown ReceivedSat, tk_TotalSentSat = shown ab_SentSat\<rparr>)"

text \<open>The addresses of both branches with the number of the branch and the index, in the order of the loops.\<close>

definition branches :: "xpubData \<Rightarrow> (nat \<times> nat \<times> xpubAddress) list" where
  "branches data = map (\<lambda>(i, ad). (0, i, ad)) (indexed (xd_addresses data)) @ map (\<lambda>(i, ad). (1, i, ad)) (indexed (xd_changeAddresses data))"

section \<open>The history\<close>

definition notFiltered :: "AddressFilter \<Rightarrow> bool" where
  "notFiltered filt \<longleftrightarrow> af_FromHeight filt = 0 \<and> af_ToHeight filt = 0 \<and> af_Vout filt = AddressFilterVoutOff"

definition txidFilter :: "AddressFilter \<Rightarrow> xpubTxid \<Rightarrow> bool" where
  "txidFilter filt txid \<longleftrightarrow>
     notFiltered filt
     \<or> (let toHeight = (if af_ToHeight filt \<noteq> 0 then af_ToHeight filt else maxUint32)
        in \<not> (xt_height txid < af_FromHeight filt \<or> xt_height txid > toHeight)
           \<and> \<not> (af_Vout filt \<noteq> AddressFilterVoutOff
                \<and> (af_Vout filt = AddressFilterVoutInputs \<and> xt_inputOutput txid AND txInput = 0
                   \<or> af_Vout filt = AddressFilterVoutOutputs \<and> xt_inputOutput txid AND txOutput = 0)))"

text \<open>What the loops over the mempool collect.\<close>

record xpubMempool =
  xm_txmMap :: "(string, api_tx) gomap"
  xm_entries :: "MempoolTxidEntry list"
  xm_unconfirmedTxs :: int
  xm_uBalSat :: int

definition countUnconfirmed :: "AddressFilter \<Rightarrow> int \<Rightarrow> AddressDescriptor \<Rightarrow> xpubTxid \<Rightarrow> bool \<Rightarrow> api_tx \<Rightarrow> xpubMempool \<Rightarrow> xpubMempool" where
  "countUnconfirmed filt page addrDesc txid foundTx tx s =
     (if at_Confirmations tx = 0
      then let s = (if \<not> foundTx then s\<lparr>xm_unconfirmedTxs := xm_unconfirmedTxs s + 1\<rparr> else s);
               s = s\<lparr>xm_uBalSat := xm_uBalSat s + getAddrVoutValue tx addrDesc - getAddrVinValue tx addrDesc\<rparr>
           in if page = 0 \<and> \<not> foundTx \<and> txidFilter filt txid
              then s\<lparr>xm_entries := xm_entries s @ [\<lparr>mte_Txid = xt_txid txid, mte_Time = ucast (at_Blocktime tx)\<rparr>]\<rparr>
              else s
      else s)"

definition xpubMempoolTx :: "'db api_worker \<Rightarrow> AddressFilter \<Rightarrow> int \<Rightarrow> AddressDescriptor \<Rightarrow> xpubTxid \<Rightarrow> xpubMempool \<Rightarrow> ('db, xpubMempool) act" where
  "xpubMempoolTx w filt page addrDesc txid s =
     (case mapGet (xm_txmMap s) (xt_txid txid) of
        Some tx \<Rightarrow> liftA (Ok (countUnconfirmed filt page addrDesc txid True tx s))
      | None \<Rightarrow>
          catchA (GetTransaction_api w (xt_txid txid) False False) (\<lambda>_. liftA (Ok s)) (\<lambda>tx.
          liftA (Ok (countUnconfirmed filt page addrDesc txid False tx (s\<lparr>xm_txmMap := mapPut (xt_txid txid) tx (xm_txmMap s)\<rparr>)))))"

definition xpubMempoolTxs :: "('db, 'a, 'k) account_worker \<Rightarrow> AddressFilter \<Rightarrow> int \<Rightarrow> nat \<times> nat \<times> xpubAddress \<Rightarrow> xpubMempool \<Rightarrow> ('db, xpubMempool) act" where
  "xpubMempoolTxs a filt page = (\<lambda>(_, _, ad) s.
     bindA (readA (\<lambda>db. xpubGetAddressTxids (xpubWorker a) db (xa_addrDesc ad) True 0 0 maxInt)) (\<lambda>(newTxids, _).
     foldA (xpubMempoolTx (acw_api a) filt page (xa_addrDesc ad)) newTxids s))"

text \<open>
  Merging the histories: \<open>txcMap\<close> tells whether a transaction was seen and whether it was added.
\<close>

definition mergeTxid :: "AddressFilter \<Rightarrow> xpubTxid \<Rightarrow> (string, bool) gomap \<times> xpubTxid list \<Rightarrow> (string, bool) gomap \<times> xpubTxid list" where
  "mergeTxid filt txid = (\<lambda>(txcMap, txc).
     if mapGet txcMap (xt_txid txid) = Some True then (txcMap, txc)
     else let add = txidFilter filt txid
          in (mapPut (xt_txid txid) add txcMap, if add then txc @ [txid] else txc))"

definition mergeTxids :: "AddressFilter \<Rightarrow> xpubData \<Rightarrow> (string, bool) gomap \<times> xpubTxid list" where
  "mergeTxids filt data = fold (mergeTxid filt) (concat (map (\<lambda>(_, _, ad). xa_txids ad) (branches data))) ([], [])"

definition xpubHistory :: "('db, 'a, 'k) account_worker \<Rightarrow> xpubData \<Rightarrow> u32 \<Rightarrow> int \<Rightarrow> int \<Rightarrow> AccountDetails \<Rightarrow> AddressFilter
    \<Rightarrow> ('db, int \<times> Paging \<times> string list \<times> api_tx list) act" where
  "xpubHistory a data bestheight page txsOnPage details filt =
     (let (txcMap, txc) = mergeTxids filt data;
          txc = acw_sortTxids a txc;
          txCount = int (length txcMap);
          totalResults = (if notFiltered filt then txCount else - 1);
          (pg, from, to, page) = computePaging (int (length txc)) page txsOnPage;
          pg = (if int (length txc) \<ge> txsOnPage
                then if totalResults < 0 then pg\<lparr>pg_TotalPages := - 1\<rparr> else fst (computePaging totalResults page txsOnPage)
                else pg)
      in bindA (liftA (sliceR txc from to)) (\<lambda>ts.
         if details = AccountDetailsTxidHistory then liftA (Ok (txCount, pg, map xt_txid ts, []))
         else bindA (mapA (\<lambda>t. txFromTxid (acw_api a) (xt_txid t) bestheight details None) ts) (\<lambda>txs. liftA (Ok (txCount, pg, [], txs)))))"

section \<open>The account\<close>

definition returnsToken :: "AddressFilter \<Rightarrow> xpubAddress \<Rightarrow> bool" where
  "returnsToken filt ad \<longleftrightarrow>
     (case af_TokensToReturn filt of
        TokensToReturnDerived \<Rightarrow> True
      | TokensToReturnUsed \<Rightarrow> xa_balance ad \<noteq> None
      | TokensToReturnNonzeroBalance \<Rightarrow> (case xa_balance ad of None \<Rightarrow> False | Some b \<Rightarrow> \<not> IsZeroBigInt (ab_BalanceSat b)))"

definition accountToken :: "('db, 'a, 'k) account_worker \<Rightarrow> xpubData \<Rightarrow> AccountDetails \<Rightarrow> AddressFilter \<Rightarrow> nat \<times> nat \<times> xpubAddress
    \<Rightarrow> Token list \<times> (string, unit) gomap \<Rightarrow> (Token list \<times> (string, unit) gomap) res" where
  "accountToken a data details filt = (\<lambda>(ci, i, ad) (tokens, xpubAddresses).
     bindR (tokenFromXpubAddress a data ad ci i details) (\<lambda>token.
     Ok (if returnsToken filt ad then tokens @ [token] else tokens, mapPut (tk_Name token) () xpubAddresses)))"

definition xpubAnswer :: "('db, 'a, 'k) account_worker \<Rightarrow> string \<Rightarrow> xpubData \<Rightarrow> u32 \<Rightarrow> int \<Rightarrow> int \<Rightarrow> AccountDetails \<Rightarrow> AddressFilter \<Rightarrow> ('db, Account) act" where
  "xpubAnswer a xpub data bestheight page txsOnPage details filt =
     (let s = \<lparr>xm_txmMap = [], xm_entries = [], xm_unconfirmedTxs = 0, xm_uBalSat = 0\<rparr>
      in bindA (if af_ToHeight filt = 0 \<and> \<not> af_OnlyConfirmed filt
                then foldA (xpubMempoolTxs a filt page) (branches data) s else liftA (Ok s)) (\<lambda>s.
         let entries = sortEntries (xm_entries s);
             mtxids = (if details = AccountDetailsTxidHistory then map mte_Txid entries else []);
             mtxs = (if details \<ge> AccountDetailsTxHistoryLight then map (\<lambda>e. the (mapGet (xm_txmMap s) (mte_Txid e))) entries else [])
         in bindA (if details \<ge> AccountDetailsTxidHistory then xpubHistory a data bestheight page txsOnPage details filt
                   else liftA (Ok (uint (xd_txCountEstimate data), \<lparr>pg_Page = 0, pg_TotalPages = 0, pg_ItemsOnPage = 0\<rparr>, [], [])))
              (\<lambda>(txCount, pg, txids, txs).
            bindA (if details > AccountDetailsBasic then liftA (foldR (accountToken a data details filt) (branches data) ([], [])) else liftA (Ok ([], [])))
              (\<lambda>(tokens, xpubAddresses).
            liftA (Ok \<lparr>pg_Page = pg_Page pg, pg_TotalPages = pg_TotalPages pg, pg_ItemsOnPage = pg_ItemsOnPage pg,
              ad_AddrStr = xpub, ad_BalanceSat = Some (xd_balanceSat data), ad_TotalReceivedSat = Some (xd_balanceSat data + xd_sentSat data),
              ad_TotalSentSat = Some (xd_sentSat data), ad_UnconfirmedBalanceSat = Some (xm_uBalSat s),
              ad_UnconfirmedTxs = xm_unconfirmedTxs s, ad_Txs = txCount, ad_Transactions = mtxs @ txs, ad_Txids = mtxids @ txids,
              ac_UsedTokens = int (length (filter (\<lambda>(_, _, ad). xa_balance ad \<noteq> None) (branches data))),
              ac_Tokens = tokens, ac_XPubAddresses = xpubAddresses\<rparr>)))))"

text \<open>
  The cache of accounts is passed along; \<open>entries\<close> are its entries in the order in which it is
  searched for something to remove.
\<close>

definition loadAccount :: "('db, 'a, 'k) account_worker \<Rightarrow> 'db RocksDB \<Rightarrow> int \<Rightarrow> (string \<times> xpubData) list \<Rightarrow> string \<Rightarrow> bool \<Rightarrow> int \<Rightarrow> xpub_cache
    \<Rightarrow> xpub_cache \<times> (xpubData \<times> u32) res" where
  "loadAccount a d now entries xpub loadTxids gap cache =
     getXpubData (xpubWorker a) (acw_fuel a) [d_db d, d_db d] now entries xpub loadTxids gap cache"

definition GetXpubAddress :: "('db, 'a, 'k) account_worker \<Rightarrow> int \<Rightarrow> (string \<times> xpubData) list \<Rightarrow> string \<Rightarrow> int \<Rightarrow> int \<Rightarrow> AccountDetails \<Rightarrow> AddressFilter \<Rightarrow> int
    \<Rightarrow> xpub_cache \<Rightarrow> 'db RocksDB \<Rightarrow> xpub_cache \<times> 'db RocksDB \<times> Account res" where
  "GetXpubAddress a now entries xpub page txsOnPage details filt gap cache d =
     (case loadAccount a d now entries xpub (details \<ge> AccountDetailsTxidHistory) gap cache of
        (cache, Inl e) \<Rightarrow> (cache, d, Err e)
      | (cache, Inr (data, bestheight)) \<Rightarrow> (cache, xpubAnswer a xpub data bestheight (firstPage page) txsOnPage details filt d))"

section \<open>Unspent outputs\<close>

definition accountUtxos :: "('db, 'a, 'k) account_worker \<Rightarrow> xpubData \<Rightarrow> bool \<Rightarrow> nat \<times> nat \<times> xpubAddress \<Rightarrow> api_utxo list \<Rightarrow> ('db, api_utxo list) act" where
  "accountUtxos a data onlyConfirmed = (\<lambda>(ci, i, ad) r.
     if xa_balance ad = None \<and> onlyConfirmed then liftA (Ok r)
     else bindA (getAddrDescUtxo (acw_api a) (xa_addrDesc ad) (xa_balance ad) onlyConfirmed (xa_balance ad = None)) (\<lambda>utxos.
          if utxos = [] then liftA (Ok r)
          else bindA (liftA (tokenFromXpubAddress a data ad ci i AccountDetailsTokens)) (\<lambda>t.
               liftA (Ok (r @ map (\<lambda>u. u\<lparr>au_Address := tk_Name t, au_Path := tk_Path t\<rparr>) utxos)))))"

definition GetXpubUtxo :: "('db, 'a, 'k) account_worker \<Rightarrow> int \<Rightarrow> (string \<times> xpubData) list \<Rightarrow> string \<Rightarrow> bool \<Rightarrow> int
    \<Rightarrow> xpub_cache \<Rightarrow> 'db RocksDB \<Rightarrow> xpub_cache \<times> 'db RocksDB \<times> api_utxo list res" where
  "GetXpubUtxo a now entries xpub onlyConfirmed gap cache d =
     (case loadAccount a d now entries xpub False gap cache of
        (cache, Inl e) \<Rightarrow> (cache, d, Err e)
      | (cache, Inr (data, _)) \<Rightarrow>
          (cache, bindA (foldA (accountUtxos a data onlyConfirmed) (branches data) []) (\<lambda>r. liftA (Ok (acw_sortUtxos a r))) d))"

section \<open>The merged history\<close>

text \<open>The first element with each key.\<close>

definition firstsOn :: "('a \<Rightarrow> 'k) \<Rightarrow> 'a list \<Rightarrow> 'a list" where
  "firstsOn key xs = foldl (\<lambda>r x. if key x \<in> key ` set r then r else r @ [x]) [] xs"

lemma firstsOn_Nil [simp]: "firstsOn key [] = []"
  by (simp add: firstsOn_def)

lemma firstsOn_snoc: "firstsOn key (xs @ [x]) = (if key x \<in> key ` set (firstsOn key xs) then firstsOn key xs else firstsOn key xs @ [x])"
  by (simp add: firstsOn_def)

lemma firstsOn_keys: "key ` set (firstsOn key xs) = key ` set xs \<and> distinct (map key (firstsOn key xs)) \<and> set (firstsOn key xs) \<subseteq> set xs"
  by (induction xs rule: rev_induct) (auto simp: firstsOn_snoc)

text \<open>The account has each transaction once, the first entry that passes.\<close>

lemma mergeTxid_fold:
  "case fold (mergeTxid filt) ts ([], []) of (txcMap, txc) \<Rightarrow>
     txc = firstsOn xt_txid (filter (txidFilter filt) ts) \<and> wfMap txcMap \<and> dom (mapGet txcMap) = xt_txid ` set ts
     \<and> (\<forall>k. mapGet txcMap k = Some True \<longleftrightarrow> k \<in> xt_txid ` set txc)"
proof (induction ts rule: rev_induct)
  case (snoc t ts)
  obtain m txc where run: "fold (mergeTxid filt) ts ([], []) = (m, txc)" by (cases "fold (mergeTxid filt) ts ([], [])")
  with snoc have IH: "txc = firstsOn xt_txid (filter (txidFilter filt) ts)" "wfMap m" "dom (mapGet m) = xt_txid ` set ts"
      "\<And>k. mapGet m k = Some True \<longleftrightarrow> k \<in> xt_txid ` set txc" by auto
  show ?case
  proof (cases "mapGet m (xt_txid t) = Some True")
    case True
    have seen: "xt_txid t \<in> xt_txid ` set txc" "xt_txid t \<in> xt_txid ` set ts" using True IH(4) IH(3) by (blast, metis domI)
    then have "firstsOn xt_txid (filter (txidFilter filt) (ts @ [t])) = txc" using IH(1) by (simp add: firstsOn_snoc)
    then show ?thesis using True seen IH by (simp add: run mergeTxid_def [of filt t] insert_absorb)
  next
    case False
    then have "xt_txid t \<notin> xt_txid ` set txc" using IH(4) by blast
    then show ?thesis using False IH by (auto simp: run mergeTxid_def [of filt t] Let_def firstsOn_snoc dom_def mapGet_mapPut)
  qed
qed (simp add: wfMap_def)

definition accountIds :: "xpubData \<Rightarrow> xpubTxid list" where
  "accountIds data = concat (map (\<lambda>(_, _, ad). xa_txids ad) (branches data))"

text \<open>What is used of \<open>sort.Stable\<close>: it permutes and puts higher blocks first.\<close>

definition sortsNewestFirst :: "(xpubTxid list \<Rightarrow> xpubTxid list) \<Rightarrow> bool" where
  "sortsNewestFirst srt \<longleftrightarrow> (\<forall>xs. mset (srt xs) = mset xs \<and> sorted_wrt (\<lambda>x y. xt_height x \<ge> xt_height y) (srt xs))"

lemma mergeTxids_count:
  assumes "mergeTxids filt data = (txcMap, txc)"
  shows "txc = firstsOn xt_txid (filter (txidFilter filt) (accountIds data))"
    "length txcMap = card (xt_txid ` set (accountIds data))"
    "notFiltered filt \<Longrightarrow> length txcMap = length txc"
proof -
  have f: "txc = firstsOn xt_txid (filter (txidFilter filt) (accountIds data))" "wfMap txcMap" "dom (mapGet txcMap) = xt_txid ` set (accountIds data)"
    using mergeTxid_fold [of filt "accountIds data"] assms by (auto simp: mergeTxids_def accountIds_def)
  show "txc = firstsOn xt_txid (filter (txidFilter filt) (accountIds data))" by (rule f(1))
  show len: "length txcMap = card (xt_txid ` set (accountIds data))" using f(2,3) by (simp add: length_wfMap)
  show "length txcMap = length txc" if "notFiltered filt"
  proof -
    have "txidFilter filt = (\<lambda>_. True)" using that by (auto simp: txidFilter_def)
    then show ?thesis using f(1) len firstsOn_keys [of xt_txid "accountIds data"] by (metis distinct_card filter_True length_map set_map)
  qed
qed

lemma slice_page:
  assumes "0 < n" "0 \<le> lo" "lo < int (length xs)"
  shows "sliceR xs lo (min (int (length xs)) (lo + n)) = Ok (take (nat n) (drop (nat lo) xs))"
proof -
  have "nat (min (int (length xs)) (lo + n)) - nat lo = min (length xs - nat lo) (nat n)" using assms by auto
  then show ?thesis using assms by (auto simp: sliceR_def min_def)
qed

lemma xpubHistory_run:
  assumes sorts: "sortsNewestFirst (acw_sortTxids a)"
    and T: "T = firstsOn xt_txid (filter (txidFilter filt) (accountIds data))"
    and page: "0 < n" "n < 2 ^ 63" "1 \<le> page" "(page - 1) * n < int (length T)" "int (length T) < 2 ^ 63"
  shows "xpubHistory a data bestheight (page - 1) n AccountDetailsTxidHistory filt d
    = (d, Ok (int (card (xt_txid ` set (accountIds data))),
        \<lparr>pg_Page = page, pg_TotalPages = (if \<not> notFiltered filt \<and> n \<le> int (length T) then - 1 else 1 + (int (length T) - 1) div n), pg_ItemsOnPage = n\<rparr>,
        map xt_txid (take (nat n) (drop (nat ((page - 1) * n)) (acw_sortTxids a T))), []))"
proof -
  obtain txcMap txc where merge: "mergeTxids filt data = (txcMap, txc)" by (cases "mergeTxids filt data")
  note count = mergeTxids_count [OF merge]
  have txc: "txc = T" using count(1) T by simp
  have len: "length (acw_sortTxids a T) = length T" using sorts by (metis mset_eq_length sortsNewestFirst_def)
  note paging = computePaging_page [OF page(1,2,3,4,5)]
  have lo: "0 \<le> (page - 1) * n" using page(1,3) by simp
  have slice: "sliceR (acw_sortTxids a T) ((page - 1) * n) (min (int (length T)) ((page - 1) * n + n))
      = Ok (take (nat n) (drop (nat ((page - 1) * n)) (acw_sortTxids a T)))"
    using slice_page [of n "(page - 1) * n" "acw_sortTxids a T"] page(1,4) lo len by simp
  show ?thesis
    using count(3) by (auto simp: xpubHistory_def merge txc len paging slice Let_def count(2))
qed

lemma accountTokens_Ok:
  assumes "printsAll (chainParser (acw_api a)) A"
  shows "\<exists>r. foldR (accountToken a data details filt) bs s = Ok r"
proof (induction bs arbitrary: s)
  case (Cons b bs)
  obtain ci i ad where b: "b = (ci, i, ad)" by (metis prod_cases3)
  obtain t m where s: "s = (t, m)" by (cases s)
  have "addressesOf (chainParser (acw_api a)) (xa_addrDesc ad) = Ok (A (xa_addrDesc ad))" using assms by (simp add: printsAll_def)
  then show ?case using Cons by (simp add: b s accountToken_def tokenFromXpubAddress_def Let_def split_beta)
qed simp


text \<open>
  A cached account of two addresses with two transactions, one of which is in both.
\<close>

definition accountKey :: string where
  "accountKey = replicate 111 (CHR ''x'')"

definition accountData :: xpubData where
  "accountData = emptyXpubData\<lparr>xd_gap := 21, xd_dataHeight := 2, xd_dataHash := ''cc'', xd_sentSat := 5, xd_balanceSat := 9,
     xd_addresses := [\<lparr>xa_addrDesc = [7], xa_balance = Some (emptyAddrBalance\<lparr>ab_Txs := 2\<rparr>), xa_txs = 2, xa_maxHeight = 2, xa_complete = True,
       xa_txids = [\<lparr>xt_txid = ''02'', xt_height = 2, xt_inputOutput = txOutput\<rparr>, \<lparr>xt_txid = ''01'', xt_height = 1, xt_inputOutput = txInput\<rparr>]\<rparr>],
     xd_changeAddresses := [\<lparr>xa_addrDesc = [8], xa_balance = Some (emptyAddrBalance\<lparr>ab_Txs := 1\<rparr>), xa_txs = 1, xa_maxHeight = 2, xa_complete = True,
       xa_txids = [\<lparr>xt_txid = ''01'', xt_height = 1, xt_inputOutput = txOutput\<rparr>]\<rparr>]\<rparr>"

definition accountWorker :: "(alist_db, bytes, u32) account_worker" where
  "accountWorker = \<lparr>acw_api = viewWorker, acw_lib = wk_lib sampleWorker, acw_parser = wk_parser sampleWorker, acw_fuel = 0,
     acw_sortTxids = \<lambda>ts. rev (sort_key xt_height ts), acw_sortUtxos = \<lambda>us. rev (sort_key au_Height us)\<rparr>"

lemma rev_sort_newest: "sortsNewestFirst (\<lambda>ts. rev (sort_key xt_height ts))"
proof -
  have "sorted_wrt (\<lambda>x y. xt_height x \<le> xt_height y) (sort_key xt_height xs)" for xs :: "xpubTxid list"
    using sorted_sort_key [of xt_height xs] by (simp add: sorted_map)
  then show ?thesis unfolding sortsNewestFirst_def by (simp add: sorted_wrt_rev)
qed

lemma accountData_loaded:
  "loadAccount accountWorker (cacheRocks\<lparr>d_db := pagesDb\<rparr>) 7 [] accountKey True 0 [(accountKey, accountData)]
    = (mapPut accountKey (accountData\<lparr>xd_accessed := 7\<rparr>) [(accountKey, accountData)], Ok (accountData\<lparr>xd_accessed := 7\<rparr>, 2))"
proof -
  have best: "GetBestBlock viewDeps pagesDb = Ok (2, ''cc'')" by code_simp
  have hash: "GetBlockHash viewDeps pagesDb 2 = Ok ''cc''" by code_simp
  have key: "length accountKey = xpubLen" by (simp add: accountKey_def xpubLen_def)
  have gap: "limitGap 0 = 21" by (simp add: limitGap_def defaultAddressesGap_def)
  have same: "mapR (xpubCheckAndLoadTxids w db 2) (xd_addresses accountData) = Ok (xd_addresses accountData)"
      "mapR (xpubCheckAndLoadTxids w db 2) (xd_changeAddresses accountData) = Ok (xd_changeAddresses accountData)" for w :: "(alist_db, bytes, u32) worker" and db
    by (simp_all add: accountData_def xpubCheckAndLoadTxids_def emptyAddrBalance_def)
  have fields: "xd_gap accountData = 21" "xd_dataHeight accountData = 2" "xd_dataHash accountData = ''cc''"
    by (simp_all add: accountData_def)
  have deps: "wk_deps (xpubWorker accountWorker) = viewDeps" by (simp add: xpubWorker_def accountWorker_def viewWorker_def)
  have round: "xpubRound (xpubWorker accountWorker) pagesDb fuel accountKey 21 True (2, ''cc'') (Some accountData) = Ok accountData" for fuel
    by (simp add: xpubRound_def fields deps hash same)
  show ?thesis
    by (simp add: loadAccount_def getXpubData_def key gap deps best round cacheXpub_def xpubCacheSize_def Let_def)
qed


end
