(* ===== verification/Websocket.thy ===== *)
theory Websocket
  imports ApiXpub
begin

text \<open>
  The websocket server (\<open>src/server/websocket.go\<close>): the queue of answers of every connection, the
  subscriptions to new blocks and to addresses, the handlers of requests, and the goroutines of a
  connection as a step relation. JSON, the calls of the node and the connection itself are
  parameters; deadlines, pings and metrics are left out.
\<close>

section \<open>Data\<close>

definition outChannelSize :: nat where "outChannelSize = 16"
definition wsTxsOnPage :: int where "wsTxsOnPage = 25"

datatype ws_data =
    WsAccount Account
  | WsAddress Address
  | WsUtxos "api_utxo list"
  | WsTx api_tx
  | WsSpecific string
  | WsInfo string string int string int string string bool
  | WsHash string
  | WsFees "(string \<times> string) list"
  | WsSent string
  | WsSubscribed bool
  | WsNewBlock u32 string
  | WsNewTx string api_tx
  | WsError string

record websocketReq =
  wq_ID :: string
  wq_Method :: string
  wq_Params :: bytes

record websocketRes =
  wr_ID :: string
  wr_Data :: ws_data

text \<open>
  A connection: its queue, whether it is closed, whether its subscriptions were removed after that,
  and whether its input loop still runs.
\<close>

record websocketChannel =
  wc_out :: "websocketRes list"
  wc_closed :: bool
  wc_cleaned :: bool
  wc_reading :: bool

type_synonym chan_id = u64
type_synonym address_subs = "(bytes, (chan_id, string) gomap) gomap"

record WebsocketServer =
  ws_channels :: "(chan_id, websocketChannel) gomap"
  ws_newBlock :: "(chan_id, string) gomap"
  ws_addresses :: address_subs

section \<open>Queues\<close>

definition IsAlive :: "chan_id \<Rightarrow> WebsocketServer \<Rightarrow> bool" where
  "IsAlive c s = (case mapGet (ws_channels s) c of None \<Rightarrow> False | Some ch \<Rightarrow> \<not> wc_closed ch)"

text \<open>A full queue drops the answer. The result tells whether it was queued.\<close>

definition enqueueResponse :: "chan_id \<Rightarrow> websocketRes \<Rightarrow> WebsocketServer \<Rightarrow> WebsocketServer \<times> bool" where
  "enqueueResponse c response s =
     (case mapGet (ws_channels s) c of
        None \<Rightarrow> (s, False)
      | Some ch \<Rightarrow>
          if wc_closed ch then (s, False)
          else if length (wc_out ch) < outChannelSize
          then (s\<lparr>ws_channels := mapPut c (ch\<lparr>wc_out := wc_out ch @ [response]\<rparr>) (ws_channels s)\<rparr>, True)
          else (s, False))"

definition sendResponse :: "chan_id \<Rightarrow> websocketReq \<Rightarrow> ws_data \<Rightarrow> WebsocketServer \<Rightarrow> WebsocketServer" where
  "sendResponse c req data s = fst (enqueueResponse c \<lparr>wr_ID = wq_ID req, wr_Data = data\<rparr> s)"

section \<open>Subscriptions\<close>

definition subscribeNewBlock :: "chan_id \<Rightarrow> websocketReq \<Rightarrow> WebsocketServer \<Rightarrow> WebsocketServer" where
  "subscribeNewBlock c req s = s\<lparr>ws_newBlock := mapPut c (wq_ID req) (ws_newBlock s)\<rparr>"

definition unsubscribeNewBlock :: "chan_id \<Rightarrow> WebsocketServer \<Rightarrow> WebsocketServer" where
  "unsubscribeNewBlock c s = s\<lparr>ws_newBlock := mapDelete c (ws_newBlock s)\<rparr>"

text \<open>The loops of the two operations on addresses.\<close>

definition addSubscriber :: "chan_id \<Rightarrow> string \<Rightarrow> bytes \<Rightarrow> address_subs \<Rightarrow> address_subs" where
  "addSubscriber c ident ads m =
     (let as = (case mapGet m ads of None \<Rightarrow> [] | Some as \<Rightarrow> as) in mapPut ads (mapPut c ident as) m)"

definition dropSubscriber :: "chan_id \<Rightarrow> address_subs \<Rightarrow> address_subs" where
  "dropSubscriber c m = filter (\<lambda>(_, subscribers). subscribers \<noteq> []) (map (\<lambda>(address, subscribers). (address, mapDelete c subscribers)) m)"

definition unsubscribeAddresses :: "chan_id \<Rightarrow> WebsocketServer \<Rightarrow> WebsocketServer" where
  "unsubscribeAddresses c s = s\<lparr>ws_addresses := dropSubscriber c (ws_addresses s)\<rparr>"

definition addAddresses :: "chan_id \<Rightarrow> bytes list \<Rightarrow> string \<Rightarrow> WebsocketServer \<Rightarrow> WebsocketServer" where
  "addAddresses c addrDesc ident s = s\<lparr>ws_addresses := fold (addSubscriber c ident) addrDesc (ws_addresses s)\<rparr>"

definition subscribeAddresses :: "chan_id \<Rightarrow> bytes list \<Rightarrow> websocketReq \<Rightarrow> WebsocketServer \<Rightarrow> WebsocketServer" where
  "subscribeAddresses c addrDesc req s = addAddresses c addrDesc (wq_ID req) (unsubscribeAddresses c s)"

definition onDisconnect :: "chan_id \<Rightarrow> WebsocketServer \<Rightarrow> WebsocketServer" where
  "onDisconnect c s = unsubscribeAddresses c (unsubscribeNewBlock c s)"

text \<open>\<open>closeChannel\<close>: the first caller marks the connection closed and then removes its subscriptions.\<close>

definition markClosed :: "chan_id \<Rightarrow> WebsocketServer \<Rightarrow> WebsocketServer" where
  "markClosed c s =
     (case mapGet (ws_channels s) c of None \<Rightarrow> s | Some ch \<Rightarrow> s\<lparr>ws_channels := mapPut c (ch\<lparr>wc_closed := True\<rparr>) (ws_channels s)\<rparr>)"

definition cleanUp :: "chan_id \<Rightarrow> WebsocketServer \<Rightarrow> WebsocketServer" where
  "cleanUp c s =
     (case mapGet (ws_channels s) c of
        None \<Rightarrow> s
      | Some ch \<Rightarrow> onDisconnect c (s\<lparr>ws_channels := mapPut c (ch\<lparr>wc_cleaned := True\<rparr>) (ws_channels s)\<rparr>))"

definition closeChannel :: "chan_id \<Rightarrow> WebsocketServer \<Rightarrow> WebsocketServer" where
  "closeChannel c s = (if IsAlive c s then cleanUp c (markClosed c s) else s)"

section \<open>Notifications\<close>

definition broadcast :: "(chan_id, string) gomap \<Rightarrow> ws_data \<Rightarrow> WebsocketServer \<Rightarrow> WebsocketServer" where
  "broadcast subscribers data s =
     fold (\<lambda>(c, ident) s. if IsAlive c s then fst (enqueueResponse c \<lparr>wr_ID = ident, wr_Data = data\<rparr> s) else s) subscribers s"

definition OnNewBlock :: "string \<Rightarrow> u32 \<Rightarrow> WebsocketServer \<Rightarrow> WebsocketServer" where
  "OnNewBlock hash height s = broadcast (ws_newBlock s) (WsNewBlock height hash) s"

text \<open>
  A transaction of an address: between the two looks at the subscriptions the transaction is read.
  \<open>broadcastTx\<close> is the second one.
\<close>

definition broadcastTx :: "bytes \<Rightarrow> ws_data \<Rightarrow> WebsocketServer \<Rightarrow> WebsocketServer" where
  "broadcastTx addrDesc data s = (case mapGet (ws_addresses s) addrDesc of None \<Rightarrow> s | Some as \<Rightarrow> broadcast as data s)"

definition OnNewTxAddr :: "'db api_worker \<Rightarrow> Tx \<Rightarrow> bytes \<Rightarrow> WebsocketServer \<Rightarrow> 'db RocksDB \<Rightarrow> 'db RocksDB \<times> WebsocketServer res" where
  "OnNewTxAddr w tx addrDesc s d =
     (if mapGet (ws_addresses s) addrDesc = None then (d, Ok s)
      else catchA (liftA (cp_GetAddressesFromAddrDesc (chainParser w) addrDesc)) (\<lambda>_. liftA (Ok s)) (\<lambda>(addr, _).
           if length addr = 1
           then catchA (GetTransactionFromBchainTx w tx 0 False False) (\<lambda>_. liftA (Ok s)) (\<lambda>atx.
                liftA (Ok (broadcastTx addrDesc (WsNewTx (addr ! 0) atx) s)))
           else liftA (Ok s)) d)"

section \<open>Requests\<close>

record accountInfoReq =
  ai_Descriptor :: string
  ai_Details :: string
  ai_Tokens :: string
  ai_PageSize :: int
  ai_Page :: int
  ai_FromHeight :: int
  ai_ToHeight :: int

record estimateFeeReq =
  ef_Blocks :: "int list"
  ef_conservative :: "bool option"
  ef_txsize :: "int option"

text \<open>
  What a handler uses: the worker for accounts, \<open>json.Unmarshal\<close> for the parameters of the
  requests, the calls of the node, the version, and the time and order of entries for the cache of
  accounts.
\<close>

record ('db, 'a, 'k) ws_env =
  we_account :: "('db, 'a, 'k) account_worker"
  we_accountInfo :: "bytes \<Rightarrow> accountInfoReq res"
  we_height :: "bytes \<Rightarrow> int res"
  we_descriptor :: "bytes \<Rightarrow> string res"
  we_txid :: "bytes \<Rightarrow> string res"
  we_hex :: "bytes \<Rightarrow> string res"
  we_addresses :: "bytes \<Rightarrow> string list res"
  we_estimateFee :: "bytes \<Rightarrow> estimateFeeReq res"
  we_EstimateSmartFee :: "int \<Rightarrow> bool \<Rightarrow> int res"
  we_SendRawTransaction :: "string \<Rightarrow> string res"
  we_IsTestnet :: bool
  we_version :: string
  we_block0hash :: string
  we_now :: int
  we_entries :: "(string \<times> xpubData) list"
  we_emptyTx :: Tx

abbreviation apiOf :: "('db, 'a, 'k) ws_env \<Rightarrow> 'db api_worker" where
  "apiOf E \<equiv> acw_api (we_account E)"

definition detailsOf :: "string \<Rightarrow> AccountDetails" where
  "detailsOf d = (if d = ''tokens'' then AccountDetailsTokens else if d = ''tokenBalances'' then AccountDetailsTokenBalances
     else if d = ''txids'' then AccountDetailsTxidHistory else if d = ''txs'' then AccountDetailsTxHistory else AccountDetailsBasic)"

definition tokensOf :: "string \<Rightarrow> TokensToReturn" where
  "tokensOf t = (if t = ''used'' then TokensToReturnUsed else if t = ''nonzero'' then TokensToReturnNonzeroBalance else TokensToReturnDerived)"

text \<open>
  The state of a handler: the server, the cache of accounts and the index. A descriptor that is not
  an account is tried as an address; a panic is not caught here.
\<close>

type_synonym 'db ws_state = "WebsocketServer \<times> xpub_cache \<times> 'db RocksDB"

definition elseTry :: "xpub_cache \<times> 'db RocksDB \<times> 'x res \<Rightarrow> ('x \<Rightarrow> ws_data) \<Rightarrow> ('db, 'y) act \<Rightarrow> ('y \<Rightarrow> ws_data) \<Rightarrow> xpub_cache \<times> 'db RocksDB \<times> ws_data res" where
  "elseTry r f m g = (case r of (cache, d, x) \<Rightarrow>
     (cache, catchA (\<lambda>d. (d, x)) (\<lambda>_. bindA m (\<lambda>y. liftA (Ok (g y)))) (\<lambda>x. liftA (Ok (f x))) d))"

definition getAccountInfo :: "('db, 'a, 'k) ws_env \<Rightarrow> accountInfoReq \<Rightarrow> xpub_cache \<Rightarrow> 'db RocksDB \<Rightarrow> xpub_cache \<times> 'db RocksDB \<times> ws_data res" where
  "getAccountInfo E req cache d =
     (case normalizeAddressPaging (ai_Page req) (ai_PageSize req) wsTxsOnPage maxWebsocketPageSize of
        Inl e \<Rightarrow> (cache, d, Err e)
      | Inr (page, pageSize) \<Rightarrow>
          let details = detailsOf (ai_Details req);
              filt = \<lparr>af_Vout = AddressFilterVoutOff, af_FromHeight = normalizeBlockHeight (ai_FromHeight req),
                      af_ToHeight = normalizeBlockHeight (ai_ToHeight req), af_TokensToReturn = tokensOf (ai_Tokens req), af_OnlyConfirmed = False\<rparr>
          in elseTry (GetXpubAddress (we_account E) (we_now E) (we_entries E) (ai_Descriptor req) page pageSize details filt 0 cache d) WsAccount
               (GetAddress (apiOf E) (ai_Descriptor req) page pageSize details filt) WsAddress)"

definition getAccountUtxo :: "('db, 'a, 'k) ws_env \<Rightarrow> string \<Rightarrow> xpub_cache \<Rightarrow> 'db RocksDB \<Rightarrow> xpub_cache \<times> 'db RocksDB \<times> ws_data res" where
  "getAccountUtxo E descriptor cache d =
     elseTry (GetXpubUtxo (we_account E) (we_now E) (we_entries E) descriptor False 0 cache d) WsUtxos
       (GetAddressUtxo (apiOf E) descriptor False) WsUtxos"

definition getInfo :: "('db, 'a, 'k) ws_env \<Rightarrow> ('db, ws_data) act" where
  "getInfo E = bindA (readA (\<lambda>db. GetBestBlock (aw_deps (apiOf E)) db)) (\<lambda>(height, hash) d.
     case d_is d of
       None \<Rightarrow> (d, Err (Panic ''nil pointer dereference''))
     | Some is \<Rightarrow> (d, Ok (WsInfo (is_Coin is) (is_CoinShortcut is) (cp_AmountDecimals (chainParser (apiOf E))) (we_version E)
                        (uint height) hash (we_block0hash E) (we_IsTestnet E))))"

definition getBlockHash_ws :: "('db, 'a, 'k) ws_env \<Rightarrow> int \<Rightarrow> ('db, ws_data) act" where
  "getBlockHash_ws E height = bindA (readA (\<lambda>db. GetBlockHash (aw_deps (apiOf E)) db (of_int height))) (\<lambda>h. liftA (Ok (WsHash h)))"

definition feeOf :: "('db, 'a, 'k) ws_env \<Rightarrow> bool \<Rightarrow> int \<Rightarrow> int \<Rightarrow> (string \<times> string) res" where
  "feeOf E conservative txSize b =
     bindR (we_EstimateSmartFee E b conservative) (\<lambda>fee.
     Ok (bigString fee, if txSize > 0 then bigString ((fee * txSize + 500) div 1000) else []))"

definition estimateFee :: "('db, 'a, 'k) ws_env \<Rightarrow> bytes \<Rightarrow> ws_data res" where
  "estimateFee E params =
     bindR (we_estimateFee E params) (\<lambda>r.
     bindR (validateWebsocketFeeTargets (ef_Blocks r)) (\<lambda>_.
     let conservative = (case ef_conservative r of None \<Rightarrow> True | Some vc \<Rightarrow> vc);
         txSize = (case ef_txsize r of None \<Rightarrow> 0 | Some f \<Rightarrow> f)
     in bindR (mapR (feeOf E conservative txSize) (ef_Blocks r)) (\<lambda>res. Ok (WsFees res))))"

definition sendTransaction_ws :: "('db, 'a, 'k) ws_env \<Rightarrow> string \<Rightarrow> ws_data res" where
  "sendTransaction_ws E tx =
     bindR (validateSignedTransactionHex tx) (\<lambda>_. bindR (we_SendRawTransaction E tx) (\<lambda>txid. Ok (WsSent txid)))"

definition unmarshalAddresses :: "('db, 'a, 'k) ws_env \<Rightarrow> bytes \<Rightarrow> bytes list res" where
  "unmarshalAddresses E params =
     bindR (we_addresses E params) (\<lambda>addresses.
     bindR (validateWebsocketAddressCount (int (length addresses))) (\<lambda>_.
     mapR (\<lambda>a. bindR (ValidateAddressLength a) (\<lambda>_. cp_GetAddrDescFromAddress (chainParser (apiOf E)) a)) addresses))"

text \<open>The handlers by the name of the method; none for an unknown one.\<close>

definition onIndex :: "('db, ws_data) act \<Rightarrow> 'db ws_state \<Rightarrow> 'db ws_state \<times> ws_data res" where
  "onIndex m = (\<lambda>(s, cache, d). case m d of (d, r) \<Rightarrow> ((s, cache, d), r))"

definition onAccount :: "(xpub_cache \<Rightarrow> 'db RocksDB \<Rightarrow> xpub_cache \<times> 'db RocksDB \<times> ws_data res) \<Rightarrow> 'db ws_state \<Rightarrow> 'db ws_state \<times> ws_data res" where
  "onAccount m = (\<lambda>(s, cache, d). case m cache d of (cache, d, r) \<Rightarrow> ((s, cache, d), r))"

definition onServer :: "(WebsocketServer \<Rightarrow> WebsocketServer) \<Rightarrow> bool \<Rightarrow> 'db ws_state \<Rightarrow> 'db ws_state \<times> ws_data res" where
  "onServer f subscribed = (\<lambda>(s, cache, d). ((f s, cache, d), Ok (WsSubscribed subscribed)))"

definition withParam :: "'p res \<Rightarrow> ('p \<Rightarrow> 'db ws_state \<Rightarrow> 'db ws_state \<times> ws_data res) \<Rightarrow> 'db ws_state \<Rightarrow> 'db ws_state \<times> ws_data res" where
  "withParam p f st = (case p of Inl e \<Rightarrow> (st, Err e) | Inr x \<Rightarrow> f x st)"

definition requestHandlers :: "('db, 'a, 'k) ws_env \<Rightarrow> chan_id \<Rightarrow> websocketReq \<Rightarrow> (string, 'db ws_state \<Rightarrow> 'db ws_state \<times> ws_data res) gomap" where
  "requestHandlers E c req =
     [(''getAccountInfo'', withParam (we_accountInfo E (wq_Params req)) (\<lambda>r. onAccount (getAccountInfo E r))),
      (''getInfo'', onIndex (getInfo E)),
      (''getBlockHash'', withParam (we_height E (wq_Params req)) (\<lambda>h. onIndex (getBlockHash_ws E h))),
      (''getAccountUtxo'', withParam (we_descriptor E (wq_Params req)) (\<lambda>r. onAccount (getAccountUtxo E r))),
      (''getTransaction'', withParam (we_txid E (wq_Params req)) (\<lambda>t. onIndex (bindA (GetTransaction_api (apiOf E) t False False) (\<lambda>tx. liftA (Ok (WsTx tx)))))),
      (''getTransactionSpecific'', withParam (we_txid E (wq_Params req)) (\<lambda>t.
         onIndex (liftA (bindR (aw_GetTransactionSpecific (apiOf E) ((we_emptyTx E)\<lparr>tx_Txid := t\<rparr>)) (\<lambda>j. Ok (WsSpecific j)))))),
      (''estimateFee'', onIndex (liftA (estimateFee E (wq_Params req)))),
      (''sendTransaction'', withParam (we_hex E (wq_Params req)) (\<lambda>h. onIndex (liftA (sendTransaction_ws E h)))),
      (''subscribeNewBlock'', onServer (subscribeNewBlock c req) True),
      (''unsubscribeNewBlock'', onServer (unsubscribeNewBlock c) False),
      (''subscribeAddresses'', withParam (unmarshalAddresses E (wq_Params req)) (\<lambda>ad. onServer (subscribeAddresses c ad req) True)),
      (''unsubscribeAddresses'', onServer (unsubscribeAddresses c) False)]"

text \<open>A panic of a handler is recovered and answered; an error is answered by its text.\<close>

fun answerOf :: "ws_data res \<Rightarrow> ws_data" where
  "answerOf (Inr data) = data"
| "answerOf (Inl (Panic m)) = WsError ''Internal error''"
| "answerOf (Inl e) = WsError (errorText e)"

definition onRequest :: "('db, 'a, 'k) ws_env \<Rightarrow> chan_id \<Rightarrow> websocketReq \<Rightarrow> 'db ws_state \<Rightarrow> 'db ws_state" where
  "onRequest E c req st =
     (case (case mapGet (requestHandlers E c req) (wq_Method req) of None \<Rightarrow> (st, Err (ErrMsg ''unknown method'')) | Some f \<Rightarrow> f st) of
        ((s, cache, d), r) \<Rightarrow> (sendResponse c req (answerOf r) s, cache, d))"

datatype ws_message = TextMessage bytes | BinaryMessage | PingMessage | PongMessage | CloseMessage

text \<open>
  One round of the input loop; \<open>None\<close> stands for an error of reading and \<open>unmarshalReq\<close> for
  \<open>json.Unmarshal\<close>. The result tells whether the loop goes on.
\<close>

definition inputMessage :: "('db, 'a, 'k) ws_env \<Rightarrow> (bytes \<Rightarrow> websocketReq res) \<Rightarrow> chan_id \<Rightarrow> ws_message option \<Rightarrow> 'db ws_state \<Rightarrow> 'db ws_state \<times> bool" where
  "inputMessage E unmarshalReq c t = (\<lambda>(s, cache, d).
     case t of
       None \<Rightarrow> ((closeChannel c s, cache, d), False)
     | Some (TextMessage b) \<Rightarrow>
         (case bindR (unmarshalReq b) (\<lambda>req. bindR (validateWebsocketRequestMetadata (wq_ID req) (wq_Method req)) (\<lambda>_. Ok req)) of
            Inl e \<Rightarrow> ((closeChannel c s, cache, d), False)
          | Inr req \<Rightarrow> (onRequest E c req (s, cache, d), True))
     | Some BinaryMessage \<Rightarrow> ((closeChannel c s, cache, d), False)
     | Some CloseMessage \<Rightarrow> ((closeChannel c s, cache, d), False)
     | Some PingMessage \<Rightarrow> ((s, cache, d), True)
     | Some PongMessage \<Rightarrow> ((s, cache, d), True))"

section \<open>A registry of subscriptions\<close>

text \<open>
  What the server needs of its two registries: who subscribed to what under which id. Adding under
  some keys replaces the ids of these keys, dropping a connection removes all of its own.
\<close>

locale registry =
  fixes subs :: "'m \<Rightarrow> ('key \<times> chan_id \<times> string) set"
    and add :: "chan_id \<Rightarrow> 'key list \<Rightarrow> string \<Rightarrow> 'm \<Rightarrow> 'm"
    and drop_all :: "chan_id \<Rightarrow> 'm \<Rightarrow> 'm"
    and ok :: "'m \<Rightarrow> bool"
  assumes ok_add: "ok m \<Longrightarrow> ok (add c ks ident m)"
    and ok_drop: "ok m \<Longrightarrow> ok (drop_all c m)"
    and subs_add: "ok m \<Longrightarrow> subs (add c ks ident m) = {(k, c', i) \<in> subs m. \<not> (c' = c \<and> k \<in> set ks)} \<union> {(k, c, ident) | k. k \<in> set ks}"
    and subs_drop: "ok m \<Longrightarrow> subs (drop_all c m) = {(k, c', i) \<in> subs m. c' \<noteq> c}"
begin

lemma renew: "ok m \<Longrightarrow> subs (add c ks ident (drop_all c m)) = {(k, c', i) \<in> subs m. c' \<noteq> c} \<union> {(k, c, ident) | k. k \<in> set ks}"
  by (auto simp: subs_add ok_drop subs_drop)

lemma gone: "ok m \<Longrightarrow> (k, c, i) \<notin> subs (drop_all c m)"
  by (simp add: subs_drop)

lemma drop_add: "ok m \<Longrightarrow> subs (drop_all c (add c ks ident m)) = subs (drop_all c m)"
  by (auto simp: subs_add ok_add subs_drop)

lemma others_kept: "ok m \<Longrightarrow> c' \<noteq> c \<Longrightarrow> (k, c', i) \<in> subs (add c ks ident (drop_all c m)) \<longleftrightarrow> (k, c', i) \<in> subs m"
  by (auto simp: renew)

end

definition addrSubs :: "address_subs \<Rightarrow> (bytes \<times> chan_id \<times> string) set" where
  "addrSubs m = {(a, c, i). \<exists>as. mapGet m a = Some as \<and> mapGet as c = Some i}"

definition okSubs :: "address_subs \<Rightarrow> bool" where
  "okSubs m \<longleftrightarrow> wfMap m \<and> (\<forall>a as. mapGet m a = Some as \<longrightarrow> wfMap as \<and> as \<noteq> [])"

lemma dom_dropSubscriber: "fst ` set (dropSubscriber c m) \<subseteq> fst ` set m"
  by (auto simp: dropSubscriber_def image_iff) (metis fst_conv)

lemma mapGet_dropSubscriber:
  "wfMap m \<Longrightarrow> wfMap (dropSubscriber c m)
    \<and> mapGet (dropSubscriber c m) a = (case mapGet m a of None \<Rightarrow> None | Some as \<Rightarrow> if mapDelete c as = [] then None else Some (mapDelete c as))"
proof (induction m)
  case (Cons e m)
  obtain b as where e: "e = (b, as)" by (cases e)
  have b: "b \<notin> fst ` set m" and wf: "wfMap m" using Cons.prems by (simp_all add: e wfMap_def)
  then have none: "mapGet (dropSubscriber c m) b = None" "b \<notin> fst ` set (dropSubscriber c m)"
    using dom_dropSubscriber [of c m] by (auto simp: map_of_eq_None_iff)
  have step: "dropSubscriber c ((b, as) # m) = (if mapDelete c as = [] then dropSubscriber c m else (b, mapDelete c as) # dropSubscriber c m)"
    by (simp add: dropSubscriber_def)
  show ?case using Cons.IH [OF wf] none unfolding e step by (simp add: wfMap_def)
qed (simp add: dropSubscriber_def wfMap_def)

lemma addSubscriber_subs:
  assumes "okSubs m"
  shows "okSubs (addSubscriber c ident a m)"
    "addrSubs (addSubscriber c ident a m) = {(k, c', i) \<in> addrSubs m. \<not> (c' = c \<and> k = a)} \<union> {(a, c, ident)}"
proof -
  have "mapPut c ident xs \<noteq> []" for xs :: "(chan_id \<times> string) list" by (cases xs) auto
  then show "okSubs (addSubscriber c ident a m)"
    using assms by (auto simp: okSubs_def addSubscriber_def Let_def mapGet_mapPut wfMap_mapPut split: option.splits if_splits)
  show "addrSubs (addSubscriber c ident a m) = {(k, c', i) \<in> addrSubs m. \<not> (c' = c \<and> k = a)} \<union> {(a, c, ident)}"
    by (auto simp: addrSubs_def addSubscriber_def Let_def mapGet_mapPut split: option.splits if_splits)
qed

lemma mapDelete_Nil: "mapDelete c as = [] \<Longrightarrow> mapGet as c' = Some i \<Longrightarrow> c' = c"
  using mapGet_mapDelete [of c as] by (metis fun_upd_other map_of.simps(1) option.distinct(1))

lemma dropSubscriber_subs:
  assumes "okSubs m"
  shows "okSubs (dropSubscriber c m)"
    "addrSubs (dropSubscriber c m) = {(k, c', i) \<in> addrSubs m. c' \<noteq> c}"
proof -
  have wf: "wfMap (dropSubscriber c m)" and get: "mapGet (dropSubscriber c m) a =
      (case mapGet m a of None \<Rightarrow> None | Some as \<Rightarrow> if mapDelete c as = [] then None else Some (mapDelete c as))" for a
    using assms mapGet_dropSubscriber by (auto simp: okSubs_def)
  show "okSubs (dropSubscriber c m)"
    using assms wf by (auto simp: okSubs_def get split: option.splits if_splits)
  show "addrSubs (dropSubscriber c m) = {(k, c', i) \<in> addrSubs m. c' \<noteq> c}"
    by (auto simp: addrSubs_def get dest: mapDelete_Nil split: option.splits if_splits)
qed

interpretation address_registry: registry addrSubs "\<lambda>c ks ident. fold (addSubscriber c ident) ks" dropSubscriber okSubs
proof
  fix m :: address_subs and c ks ident
  assume ok: "okSubs m"
  have both: "okSubs (fold (addSubscriber c ident) ks m)
      \<and> addrSubs (fold (addSubscriber c ident) ks m) = {(k, c', i) \<in> addrSubs m. \<not> (c' = c \<and> k \<in> set ks)} \<union> {(k, c, ident) | k. k \<in> set ks}"
    using ok
  proof (induction ks arbitrary: m)
    case (Cons k ks)
    note step = addSubscriber_subs [OF Cons.prems, of c ident k]
    show ?case using Cons.IH [OF step(1)] unfolding step(2) by auto
  qed auto
  then show "okSubs (fold (addSubscriber c ident) ks m)"
    "addrSubs (fold (addSubscriber c ident) ks m) = {(k, c', i) \<in> addrSubs m. \<not> (c' = c \<and> k \<in> set ks)} \<union> {(k, c, ident) | k. k \<in> set ks}"
    by blast+
  show "okSubs (dropSubscriber c m)" "addrSubs (dropSubscriber c m) = {(k, c', i) \<in> addrSubs m. c' \<noteq> c}"
    using dropSubscriber_subs [OF ok] by blast+
qed

text \<open>Subscriptions to new blocks have one key.\<close>

definition blockSubs :: "(chan_id, string) gomap \<Rightarrow> (unit \<times> chan_id \<times> string) set" where
  "blockSubs m = {((), c, i) | c i. mapGet m c = Some i}"

interpretation block_registry: registry blockSubs "\<lambda>c ks ident m. if ks = [] then m else mapPut c ident m" mapDelete wfMap
proof
  fix m :: "(chan_id, string) gomap" and c ident and ks :: "unit list"
  have "k \<in> set ks \<longleftrightarrow> ks \<noteq> []" for k by (cases ks) auto
  then show "blockSubs (if ks = [] then m else mapPut c ident m)
      = {(k, c', i) \<in> blockSubs m. \<not> (c' = c \<and> k \<in> set ks)} \<union> {(k, c, ident) | k. k \<in> set ks}"
    by (auto simp: blockSubs_def split: if_splits)
qed (auto simp: blockSubs_def split: if_splits)

section \<open>Queues and notifications\<close>

text \<open>The abstract view of one queue: an open connection with room gets the answer.\<close>

definition hasRoom :: "websocketChannel \<Rightarrow> bool" where
  "hasRoom ch \<longleftrightarrow> \<not> wc_closed ch \<and> length (wc_out ch) < outChannelSize"

definition queued :: "websocketRes \<Rightarrow> websocketChannel \<Rightarrow> websocketChannel" where
  "queued r ch = (if hasRoom ch then ch\<lparr>wc_out := wc_out ch @ [r]\<rparr> else ch)"

definition notified :: "string option \<Rightarrow> ws_data \<Rightarrow> websocketChannel \<Rightarrow> websocketChannel" where
  "notified subscription data ch = (case subscription of None \<Rightarrow> ch | Some ident \<Rightarrow> queued \<lparr>wr_ID = ident, wr_Data = data\<rparr> ch)"

lemma notified_simps [simp]:
  "wc_closed (queued r ch) = wc_closed ch" "wc_cleaned (queued r ch) = wc_cleaned ch" "wc_reading (queued r ch) = wc_reading ch"
  "wc_closed (notified i data ch) = wc_closed ch" "wc_cleaned (notified i data ch) = wc_cleaned ch" "wc_reading (notified i data ch) = wc_reading ch"
  by (auto simp: queued_def notified_def split: option.splits)

lemma notified_None [simp]: "map_option (notified None data) x = x"
  by (cases x) (simp_all add: notified_def)

lemma queued_bound: "length (wc_out ch) \<le> outChannelSize \<Longrightarrow> length (wc_out (queued r ch)) \<le> outChannelSize"
  by (auto simp: queued_def hasRoom_def)

lemma notified_bound: "length (wc_out ch) \<le> outChannelSize \<Longrightarrow> length (wc_out (notified i data ch)) \<le> outChannelSize"
  by (auto simp: notified_def queued_bound split: option.splits)

lemma enqueue_channels:
  "mapGet (ws_channels (fst (enqueueResponse c r s))) = (mapGet (ws_channels s))(c := map_option (queued r) (mapGet (ws_channels s) c))"
  by (auto simp: enqueueResponse_def queued_def hasRoom_def fun_upd_idem split: option.splits)

lemma enqueue_subs [simp]:
  "ws_newBlock (fst (enqueueResponse c r s)) = ws_newBlock s" "ws_addresses (fst (enqueueResponse c r s)) = ws_addresses s"
  by (auto simp: enqueueResponse_def split: option.splits)

lemma enqueue_dead: "\<not> IsAlive c s \<Longrightarrow> fst (enqueueResponse c r s) = s"
  by (auto simp: IsAlive_def enqueueResponse_def split: option.splits)

lemma broadcast_Cons: "broadcast ((c, ident) # m) data s = broadcast m data (fst (enqueueResponse c \<lparr>wr_ID = ident, wr_Data = data\<rparr> s))"
  by (simp add: broadcast_def enqueue_dead)

lemma broadcast_subs [simp]: "ws_newBlock (broadcast m data s) = ws_newBlock s" "ws_addresses (broadcast m data s) = ws_addresses s"
proof (induction m arbitrary: s)
  case (Cons e m)
  { case 1 show ?case using Cons by (cases e) (simp add: broadcast_Cons) }
  { case 2 show ?case using Cons by (cases e) (simp add: broadcast_Cons) }
qed (simp_all add: broadcast_def)

lemma broadcast_channels:
  "wfMap m \<Longrightarrow> mapGet (ws_channels (broadcast m data s)) c = map_option (notified (mapGet m c) data) (mapGet (ws_channels s) c)"
proof (induction m arbitrary: s)
  case Nil
  show ?case by (simp add: broadcast_def notified_def option.map_ident)
next
  case (Cons e m)
  obtain b ident where e: "e = (b, ident)" by (cases e)
  have "mapGet m b = None" "wfMap m" using Cons.prems by (simp_all add: e wfMap_def map_of_eq_None_iff)
  then show ?case using Cons.IH
    by (auto simp: e broadcast_Cons enqueue_channels notified_def option.map_comp comp_def)
qed

section \<open>The goroutines of the connections\<close>

text \<open>
  The steps of the server under every interleaving: a client connects; the input loop of a
  connection runs the parts of a handler that hold one lock each and queues the answer; blocks and
  transactions are announced; the output loop writes the first answer; one of the loops marks the
  connection closed and removes its subscriptions, which are two steps; the input loop ends.
  \<open>enqueueResponse\<close> looks at the connection before it queues, so an answer may still
  be queued after the close.
\<close>

definition emptyServer :: WebsocketServer where
  "emptyServer = \<lparr>ws_channels = [], ws_newBlock = [], ws_addresses = []\<rparr>"

definition onConnect :: "chan_id \<Rightarrow> WebsocketServer \<Rightarrow> WebsocketServer" where
  "onConnect c s = s\<lparr>ws_channels := mapPut c \<lparr>wc_out = [], wc_closed = False, wc_cleaned = False, wc_reading = True\<rparr> (ws_channels s)\<rparr>"

definition setChannel :: "chan_id \<Rightarrow> websocketChannel \<Rightarrow> WebsocketServer \<Rightarrow> WebsocketServer" where
  "setChannel c ch s = s\<lparr>ws_channels := mapPut c ch (ws_channels s)\<rparr>"

definition isReading :: "chan_id \<Rightarrow> WebsocketServer \<Rightarrow> bool" where
  "isReading c s = (case mapGet (ws_channels s) c of None \<Rightarrow> False | Some ch \<Rightarrow> wc_reading ch)"

inductive ws_step :: "WebsocketServer \<Rightarrow> WebsocketServer \<Rightarrow> bool" where
  connect: "mapGet (ws_channels s) c = None \<Longrightarrow> ws_step s (onConnect c s)"
| subBlock: "isReading c s \<Longrightarrow> ws_step s (subscribeNewBlock c req s)"
| unsubBlock: "isReading c s \<Longrightarrow> ws_step s (unsubscribeNewBlock c s)"
| dropAddresses: "isReading c s \<Longrightarrow> ws_step s (unsubscribeAddresses c s)"
| newAddresses: "isReading c s \<Longrightarrow> ws_step s (addAddresses c ad ident s)"
| answer: "isReading c s \<Longrightarrow> ws_step s (sendResponse c req data s)"
| newBlock: "ws_step s (OnNewBlock hash height s)"
| newTx: "ws_step s (broadcastTx addrDesc data s)"
| late: "mapGet (ws_channels s) c = Some ch \<Longrightarrow> wc_closed ch \<Longrightarrow> length (wc_out ch) < outChannelSize
    \<Longrightarrow> ws_step s (setChannel c (ch\<lparr>wc_out := wc_out ch @ [r]\<rparr>) s)"
| writeOut: "mapGet (ws_channels s) c = Some ch \<Longrightarrow> wc_out ch = m # ms \<Longrightarrow> ws_step s (setChannel c (ch\<lparr>wc_out := ms\<rparr>) s)"
| close: "IsAlive c s \<Longrightarrow> ws_step s (markClosed c s)"
| clean: "mapGet (ws_channels s) c = Some ch \<Longrightarrow> wc_closed ch \<Longrightarrow> \<not> wc_cleaned ch \<Longrightarrow> ws_step s (cleanUp c s)"
| endInput: "mapGet (ws_channels s) c = Some ch \<Longrightarrow> ws_step s (setChannel c (ch\<lparr>wc_reading := False\<rparr>) s)"

abbreviation ws_steps :: "WebsocketServer \<Rightarrow> WebsocketServer \<Rightarrow> bool" where
  "ws_steps \<equiv> ws_step\<^sup>*\<^sup>*"

text \<open>All subscriptions of the server: \<open>None\<close> is the one to new blocks.\<close>

definition subscribed :: "WebsocketServer \<Rightarrow> (bytes option \<times> chan_id \<times> string) set" where
  "subscribed s = {(None, c, i) | c i. ((), c, i) \<in> blockSubs (ws_newBlock s)} \<union> {(Some a, c, i) | a c i. (a, c, i) \<in> addrSubs (ws_addresses s)}"

definition wsInv :: "WebsocketServer \<Rightarrow> bool" where
  "wsInv s \<longleftrightarrow> wfMap (ws_newBlock s) \<and> okSubs (ws_addresses s)
     \<and> (\<forall>c ch. mapGet (ws_channels s) c = Some ch \<longrightarrow> length (wc_out ch) \<le> outChannelSize \<and> (wc_cleaned ch \<longrightarrow> wc_closed ch))
     \<and> (\<forall>k c i. (k, c, i) \<in> subscribed s \<longrightarrow> mapGet (ws_channels s) c \<noteq> None)"

lemmas ws_defs = onConnect_def subscribeNewBlock_def unsubscribeNewBlock_def unsubscribeAddresses_def addAddresses_def
  sendResponse_def OnNewBlock_def setChannel_def markClosed_def onDisconnect_def

text \<open>What the operations on the registries do to the subscriptions of a server.\<close>

lemma subscribed_cong: "ws_newBlock s = ws_newBlock s' \<Longrightarrow> ws_addresses s = ws_addresses s' \<Longrightarrow> subscribed s = subscribed s'"
  by (simp add: subscribed_def)

lemma subscribed_newBlock:
  assumes "wsInv s"
  shows "subscribed (subscribeNewBlock c req s) = {(k, c', i) \<in> subscribed s. \<not> (c' = c \<and> k = None)} \<union> {(None, c, wq_ID req)}"
    "subscribed (unsubscribeNewBlock c s) = {(k, c', i) \<in> subscribed s. \<not> (c' = c \<and> k = None)}"
  using assms block_registry.subs_add [where m = "ws_newBlock s" and c = c and ks = "[()]" and ident = "wq_ID req"]
    block_registry.subs_drop [where m = "ws_newBlock s" and c = c]
  by (auto simp: subscribed_def wsInv_def ws_defs)

lemma subscribed_addresses:
  assumes "wsInv s"
  shows "subscribed (addAddresses c ad ident s) = {(k, c', i) \<in> subscribed s. \<not> (c' = c \<and> k \<in> Some ` set ad)} \<union> {(Some a, c, ident) | a. a \<in> set ad}"
    "subscribed (unsubscribeAddresses c s) = {(k, c', i) \<in> subscribed s. \<not> (c' = c \<and> k \<noteq> None)}"
  using assms address_registry.subs_add [where m = "ws_addresses s" and c = c and ks = ad and ident = ident]
    address_registry.subs_drop [where m = "ws_addresses s" and c = c]
  by (auto simp: subscribed_def wsInv_def ws_defs)

lemma subscribed_same [simp]:
  "subscribed (onConnect c s) = subscribed s" "subscribed (sendResponse c req data s) = subscribed s"
  "subscribed (OnNewBlock hash height s) = subscribed s" "subscribed (broadcastTx a data s) = subscribed s"
  "subscribed (setChannel c ch s) = subscribed s" "subscribed (markClosed c s) = subscribed s"
  by (auto intro!: subscribed_cong simp: ws_defs broadcastTx_def split: option.splits)

lemma registries_same [simp]:
  "ws_newBlock (sendResponse c req data s) = ws_newBlock s" "ws_addresses (sendResponse c req data s) = ws_addresses s"
  "ws_newBlock (OnNewBlock hash height s) = ws_newBlock s" "ws_addresses (OnNewBlock hash height s) = ws_addresses s"
  "ws_newBlock (broadcastTx a data s) = ws_newBlock s" "ws_addresses (broadcastTx a data s) = ws_addresses s"
  by (auto simp: ws_defs broadcastTx_def split: option.splits)

text \<open>The channels after each operation.\<close>

lemma channels_same [simp]:
  "ws_channels (subscribeNewBlock c req s) = ws_channels s" "ws_channels (unsubscribeNewBlock c s) = ws_channels s"
  "ws_channels (unsubscribeAddresses c s) = ws_channels s" "ws_channels (addAddresses c ad ident s) = ws_channels s"
  "ws_channels (onDisconnect c s) = ws_channels s"
  by (simp_all add: ws_defs)

lemma send_channels:
  "mapGet (ws_channels (sendResponse c req data s)) =
     (mapGet (ws_channels s))(c := map_option (queued \<lparr>wr_ID = wq_ID req, wr_Data = data\<rparr>) (mapGet (ws_channels s) c))"
  unfolding sendResponse_def by (rule enqueue_channels)

lemma block_channels:
  "wsInv s \<Longrightarrow> mapGet (ws_channels (OnNewBlock hash height s)) c =
     map_option (notified (mapGet (ws_newBlock s) c) (WsNewBlock height hash)) (mapGet (ws_channels s) c)"
  by (simp add: OnNewBlock_def broadcast_channels wsInv_def)

lemma tx_channels:
  "wsInv s \<Longrightarrow> mapGet (ws_channels (broadcastTx a data s)) c =
     map_option (notified (Option.bind (mapGet (ws_addresses s) a) (\<lambda>as. mapGet as c)) data) (mapGet (ws_channels s) c)"
  by (auto simp: broadcastTx_def broadcast_channels wsInv_def okSubs_def split: option.splits)

text \<open>A connection that is known stays known, and an input loop that ended stays ended.\<close>

definition ended :: "chan_id \<Rightarrow> WebsocketServer \<Rightarrow> bool" where
  "ended c s \<longleftrightarrow> (\<exists>ch. mapGet (ws_channels s) c = Some ch \<and> \<not> wc_reading ch)"

lemma cleanUp_eq: "mapGet (ws_channels s) c = Some ch \<Longrightarrow> cleanUp c s = onDisconnect c (setChannel c (ch\<lparr>wc_cleaned := True\<rparr>) s)"
  by (simp add: cleanUp_def setChannel_def)

lemma markClosed_eq: "IsAlive c s \<Longrightarrow> \<exists>ch. mapGet (ws_channels s) c = Some ch \<and> markClosed c s = setChannel c (ch\<lparr>wc_closed := True\<rparr>) s"
  by (auto simp: IsAlive_def markClosed_def setChannel_def split: option.splits)

lemma mapGet_setChannel [simp]:
  "mapGet (ws_channels (setChannel c ch s)) c' = (if c' = c then Some ch else mapGet (ws_channels s) c')"
  "ws_newBlock (setChannel c ch s) = ws_newBlock s" "ws_addresses (setChannel c ch s) = ws_addresses s"
  by (simp_all add: setChannel_def)

lemma known_step: "ws_step s s' \<Longrightarrow> wsInv s \<Longrightarrow> mapGet (ws_channels s) c \<noteq> None \<Longrightarrow> mapGet (ws_channels s') c \<noteq> None"
  by (induction rule: ws_step.induct)
    (auto simp: onConnect_def send_channels block_channels tx_channels cleanUp_eq dest: markClosed_eq)

lemma ended_step: "ws_step s s' \<Longrightarrow> wsInv s \<Longrightarrow> ended c s \<Longrightarrow> ended c s'"
  by (induction rule: ws_step.induct)
    (auto simp: ended_def onConnect_def send_channels block_channels tx_channels cleanUp_eq dest!: markClosed_eq)

lemma wsInv_channels:
  assumes "wsInv s" "subscribed s' \<subseteq> subscribed s" "wfMap (ws_newBlock s')" "okSubs (ws_addresses s')"
    and "\<And>c ch. mapGet (ws_channels s') c = Some ch \<Longrightarrow> length (wc_out ch) \<le> outChannelSize \<and> (wc_cleaned ch \<longrightarrow> wc_closed ch)"
    and "\<And>c. mapGet (ws_channels s) c \<noteq> None \<Longrightarrow> mapGet (ws_channels s') c \<noteq> None"
  shows "wsInv s'"
  using assms unfolding wsInv_def by blast

lemma wsInv_queues:
  "wsInv s \<Longrightarrow> mapGet (ws_channels s) c = Some ch \<Longrightarrow> length (wc_out ch) \<le> outChannelSize"
  "wsInv s \<Longrightarrow> mapGet (ws_channels s) c = Some ch \<Longrightarrow> wc_cleaned ch \<Longrightarrow> wc_closed ch"
  by (auto simp: wsInv_def)

lemma wsInv_subs: "wsInv s \<Longrightarrow> wfMap (ws_newBlock s)" "wsInv s \<Longrightarrow> okSubs (ws_addresses s)"
  by (simp_all add: wsInv_def)

lemma wsInv_setChannel:
  assumes "wsInv s" "length (wc_out ch) \<le> outChannelSize" "wc_cleaned ch \<longrightarrow> wc_closed ch"
  shows "wsInv (setChannel c ch s)"
  using assms by (auto intro!: wsInv_channels [where s = s] dest: wsInv_queues wsInv_subs split: if_splits)

lemma wf_ops:
  assumes "wsInv s"
  shows "wfMap (ws_newBlock (subscribeNewBlock c req s))" "okSubs (ws_addresses (subscribeNewBlock c req s))"
    "wfMap (ws_newBlock (unsubscribeNewBlock c s))" "okSubs (ws_addresses (unsubscribeNewBlock c s))"
    "wfMap (ws_newBlock (unsubscribeAddresses c s))" "okSubs (ws_addresses (unsubscribeAddresses c s))"
    "wfMap (ws_newBlock (addAddresses c ad ident s))" "okSubs (ws_addresses (addAddresses c ad ident s))"
  using wsInv_subs [OF assms] by (simp_all add: ws_defs address_registry.ok_add address_registry.ok_drop)

lemma wsInv_subscriptions:
  assumes "wsInv s" "ws_channels s' = ws_channels s" "wfMap (ws_newBlock s')" "okSubs (ws_addresses s')"
    and "\<And>k c i. (k, c, i) \<in> subscribed s' \<Longrightarrow> (k, c, i) \<in> subscribed s \<or> mapGet (ws_channels s) c \<noteq> None"
  shows "wsInv s'"
  using assms unfolding wsInv_def by metis

lemma wsInv_drop: "wsInv s \<Longrightarrow> wsInv (unsubscribeNewBlock c s)" "wsInv s \<Longrightarrow> wsInv (unsubscribeAddresses c s)"
  by (rule wsInv_subscriptions [of s], simp_all add: wf_ops subscribed_newBlock subscribed_addresses)+

lemma reading_known: "isReading c s \<Longrightarrow> mapGet (ws_channels s) c \<noteq> None"
  by (auto simp: isReading_def split: option.splits)

lemma wsInv_add:
  assumes "wsInv s" "isReading c s"
  shows "wsInv (subscribeNewBlock c req s)" "wsInv (addAddresses c ad ident s)"
  by (rule wsInv_subscriptions [OF assms(1)], use assms reading_known [OF assms(2)] in \<open>auto simp: wf_ops subscribed_newBlock subscribed_addresses\<close>)+

lemma wsInv_queue:
  assumes inv: "wsInv s" and same: "ws_newBlock s' = ws_newBlock s" "ws_addresses s' = ws_addresses s"
    and get: "\<And>c. mapGet (ws_channels s') c = map_option (f c) (mapGet (ws_channels s) c)"
    and f: "\<And>c ch. length (wc_out ch) \<le> outChannelSize \<Longrightarrow> length (wc_out (f c ch)) \<le> outChannelSize"
      "\<And>c ch. wc_closed (f c ch) = wc_closed ch" "\<And>c ch. wc_cleaned (f c ch) = wc_cleaned ch"
  shows "wsInv s'"
proof (rule wsInv_channels [OF inv])
  fix c ch assume "mapGet (ws_channels s') c = Some ch"
  then show "length (wc_out ch) \<le> outChannelSize \<and> (wc_cleaned ch \<longrightarrow> wc_closed ch)"
    using wsInv_queues [OF inv] by (auto simp: get f)
qed (use wsInv_subs [OF inv] subscribed_cong [OF same] in \<open>auto simp: get same\<close>)

lemma wsInv_cleanUp:
  assumes "wsInv s" "mapGet (ws_channels s) c = Some ch" "wc_closed ch"
  shows "wsInv (setChannel c (ch\<lparr>wc_cleaned := True\<rparr>) s)" "wsInv (cleanUp c s)"
proof -
  show "wsInv (setChannel c (ch\<lparr>wc_cleaned := True\<rparr>) s)" using assms by (auto intro!: wsInv_setChannel dest: wsInv_queues)
  then show "wsInv (cleanUp c s)" using assms by (simp add: cleanUp_eq onDisconnect_def wsInv_drop)
qed

lemma wsInv_step:
  assumes "ws_step s s'" "wsInv s"
  shows "wsInv s'"
  using assms
proof (induction rule: ws_step.induct)
  case (connect s c)
  have "onConnect c s = setChannel c \<lparr>wc_out = [], wc_closed = False, wc_cleaned = False, wc_reading = True\<rparr> s"
    by (simp add: onConnect_def setChannel_def)
  then show ?case using connect by (simp add: wsInv_setChannel)
next
  case (subBlock c s req)
  then show ?case by (simp add: wsInv_add)
next
  case (unsubBlock c s)
  then show ?case by (simp add: wsInv_drop)
next
  case (dropAddresses c s)
  then show ?case by (simp add: wsInv_drop)
next
  case (newAddresses c s ad ident)
  then show ?case by (simp add: wsInv_add)
next
  case (answer c s req data)
  show ?case
    by (rule wsInv_queue [OF answer.prems, where f = "\<lambda>c'. if c' = c then queued \<lparr>wr_ID = wq_ID req, wr_Data = data\<rparr> else (\<lambda>ch. ch)"])
      (auto simp: send_channels queued_bound option.map_ident)
next
  case (newBlock s hash height)
  show ?case by (rule wsInv_queue [OF newBlock.prems _ _ block_channels [OF newBlock.prems]]) (simp_all add: notified_bound)
next
  case (newTx s addrDesc data)
  show ?case by (rule wsInv_queue [OF newTx.prems _ _ tx_channels [OF newTx.prems]]) (simp_all add: notified_bound)
next
  case (late s c ch r)
  then show ?case by (auto intro!: wsInv_setChannel dest: wsInv_queues)
next
  case (writeOut s c ch m ms)
  then show ?case using wsInv_queues [where s = s and c = c and ch = ch] by (auto intro!: wsInv_setChannel)
next
  case (close c s)
  then obtain ch where "mapGet (ws_channels s) c = Some ch" "markClosed c s = setChannel c (ch\<lparr>wc_closed := True\<rparr>) s"
    by (blast dest: markClosed_eq)
  then show ?case using close wsInv_queues(1) by (simp add: wsInv_setChannel)
next
  case (clean s c ch)
  then show ?case by (auto intro: wsInv_cleanUp)
next
  case (endInput s c ch)
  then show ?case by (auto intro!: wsInv_setChannel dest: wsInv_queues)
qed

lemma wsInv_empty: "wsInv emptyServer"
  by (simp add: wsInv_def emptyServer_def okSubs_def subscribed_def blockSubs_def addrSubs_def)

lemma wsInv_steps: "ws_steps s s' \<Longrightarrow> wsInv s \<Longrightarrow> wsInv s'"
  by (induction rule: rtranclp_induct) (auto intro: wsInv_step)

lemma subscribed_cleanUp:
  assumes "wsInv s" "mapGet (ws_channels s) c = Some ch" "wc_closed ch"
  shows "subscribed (cleanUp c s) = {(k, c', i) \<in> subscribed s. c' \<noteq> c}"
  using assms wsInv_cleanUp(1) [OF assms]
  by (auto simp: cleanUp_eq onDisconnect_def wsInv_drop subscribed_newBlock subscribed_addresses)

text \<open>A connection whose input loop ended gets no new subscriptions.\<close>

lemma ended_quiet: "ws_step s s' \<Longrightarrow> wsInv s \<Longrightarrow> ended c s \<Longrightarrow> (k, c, i) \<in> subscribed s' \<Longrightarrow> (k, c, i) \<in> subscribed s"
  by (induction rule: ws_step.induct)
    (auto simp: subscribed_newBlock subscribed_addresses subscribed_cleanUp ended_def isReading_def)

lemma ended_forgotten:
  assumes "ws_steps s s'" "wsInv s" "ended c s" "\<And>k i. (k, c, i) \<notin> subscribed s"
  shows "ended c s' \<and> (k, c, i) \<notin> subscribed s'"
  using assms
proof (induction rule: rtranclp_induct)
  case (step s' s'')
  have "wsInv s'" using step.hyps(1) step.prems(1) by (rule wsInv_steps)
  then show ?case using step by (meson ended_step ended_quiet)
qed simp

section \<open>Handlers\<close>

lemma handler_server [simp]:
  "fst (fst (onIndex m (s, cache, d))) = s" "fst (fst (onAccount m' (s, cache, d))) = s" "fst (fst (onServer f b (s, cache, d))) = f s"
  by (simp_all add: onIndex_def onAccount_def onServer_def split: prod.splits)

lemma withParam_server [simp]:
  "fst (fst (withParam p (\<lambda>x. onIndex (g x)) (s, cache, d))) = s"
  "fst (fst (withParam p (\<lambda>x. onAccount (h x)) (s, cache, d))) = s"
  by (simp_all add: withParam_def split: sum.splits)

text \<open>A handler changes the server by one of the operations on subscriptions of its own connection, or not at all.\<close>

lemma requestHandlers_server:
  assumes "mapGet (requestHandlers E c req) m = Some f"
  obtains "fst (fst (f (s, cache, d))) = s"
  | "fst (fst (f (s, cache, d))) = subscribeNewBlock c req s"
  | "fst (fst (f (s, cache, d))) = unsubscribeNewBlock c s"
  | ad where "fst (fst (f (s, cache, d))) = subscribeAddresses c ad req s"
  | "fst (fst (f (s, cache, d))) = unsubscribeAddresses c s"
  proof (cases "m = ''subscribeAddresses''")
  case True
  then show thesis
    using that assms by (cases "unmarshalAddresses E (wq_Params req)") (auto simp: requestHandlers_def withParam_def)
next
  case False
  then show thesis using that assms by (auto simp: requestHandlers_def split: if_splits)
qed

lemma handler_subs:
  assumes inv: "wsInv s" and f: "mapGet (requestHandlers E c req) m = Some f" and s': "s' = fst (fst (f (s, cache, d)))"
  shows "ws_channels s' = ws_channels s" "c' \<noteq> c \<Longrightarrow> (k, c', i) \<in> subscribed s' \<longleftrightarrow> (k, c', i) \<in> subscribed s"
    "isReading c s \<Longrightarrow> ws_steps s s'"
proof -
  have "ws_channels s' = ws_channels s \<and> (c' \<noteq> c \<longrightarrow> (k, c', i) \<in> subscribed s' \<longleftrightarrow> (k, c', i) \<in> subscribed s) \<and> (isReading c s \<longrightarrow> ws_steps s s')"
    using f
  proof (cases rule: requestHandlers_server [where s = s and cache = cache and d = d])
    case (4 ad)
    have "ws_steps s (subscribeAddresses c ad req s)" if r: "isReading c s"
    proof -
      have "isReading c (unsubscribeAddresses c s)" using r by (simp add: isReading_def)
      then show ?thesis
        using ws_step.dropAddresses [OF r] ws_step.newAddresses unfolding subscribeAddresses_def
        by (blast intro: converse_rtranclp_into_rtranclp)
    qed
    then show ?thesis by (auto simp: s' 4 subscribeAddresses_def subscribed_addresses wsInv_drop inv)
  qed (auto simp: s' subscribed_newBlock subscribed_addresses inv intro: r_into_rtranclp ws_step.intros)
  then show "ws_channels s' = ws_channels s" "c' \<noteq> c \<Longrightarrow> (k, c', i) \<in> subscribed s' \<longleftrightarrow> (k, c', i) \<in> subscribed s"
    "isReading c s \<Longrightarrow> ws_steps s s'" by blast+
qed

text \<open>A request is its handler followed by one answer.\<close>

lemma onRequest_cases:
  assumes inv: "wsInv s" and reading: "isReading c s"
  obtains s1 r where "fst (onRequest E c req (s, cache, d)) = sendResponse c req (answerOf r) s1"
    "answerOf r = (case mapGet (requestHandlers E c req) (wq_Method req) of None \<Rightarrow> WsError ''unknown method''
      | Some f \<Rightarrow> answerOf (snd (f (s, cache, d))))"
    "ws_channels s1 = ws_channels s" "\<And>c' k i. c' \<noteq> c \<Longrightarrow> (k, c', i) \<in> subscribed s1 \<longleftrightarrow> (k, c', i) \<in> subscribed s"
    "ws_steps s (sendResponse c req (answerOf r) s1)"
proof (cases "mapGet (requestHandlers E c req) (wq_Method req)")
  case None
  then show thesis
    using r_into_rtranclp [of ws_step, OF ws_step.answer [OF reading]]
    by (intro that [of "Err (ErrMsg ''unknown method'')" s]) (simp_all add: onRequest_def)
next
  case (Some f)
  let ?s1 = "fst (fst (f (s, cache, d)))"
  note subs = handler_subs [OF inv Some refl, where cache = cache and d = d]
  have "isReading c ?s1" using reading by (simp add: isReading_def subs(1))
  then have "ws_steps s (sendResponse c req (answerOf (snd (f (s, cache, d)))) ?s1)"
    by (rule rtranclp.rtrancl_into_rtrancl [OF subs(3) [OF reading] ws_step.answer])
  then show thesis
    using Some subs(1,2) by (intro that [of "snd (f (s, cache, d))" ?s1]) (auto simp: onRequest_def split: prod.splits)
qed

text \<open>The input loop and the callback for transactions act by steps as well.\<close>

lemma closeChannel_steps:
  assumes "wsInv s"
  shows "ws_steps s (closeChannel c s)"
proof (cases "IsAlive c s")
  case True
  then obtain ch where ch: "mapGet (ws_channels s) c = Some ch" "markClosed c s = setChannel c (ch\<lparr>wc_closed := True\<rparr>) s"
    by (blast dest: markClosed_eq)
  have "\<not> wc_cleaned ch" using wsInv_queues(2) [OF assms ch(1)] True by (auto simp: IsAlive_def ch(1))
  then have "ws_step (markClosed c s) (cleanUp c (markClosed c s))"
    using ws_step.clean [of "markClosed c s" c "ch\<lparr>wc_closed := True\<rparr>"] ch(2) by simp
  then show ?thesis
    using ws_step.close [OF True] True unfolding closeChannel_def by (simp add: converse_rtranclp_into_rtranclp)
qed (simp add: closeChannel_def)

lemma inputMessage_steps:
  assumes inv: "wsInv s" and reading: "isReading c s"
  shows "ws_steps s (fst (fst (inputMessage E unmarshalReq c t (s, cache, d))))"
proof -
  have "ws_steps s (fst (onRequest E c req (s, cache, d)))" for req
    by (rule onRequest_cases [OF inv reading, where E = E and req = req and cache = cache and d = d]) simp
  then show ?thesis
    using closeChannel_steps [OF inv]
    by (simp add: inputMessage_def split: option.splits ws_message.splits sum.splits)
qed

lemma OnNewTxAddr_steps:
  assumes "snd (OnNewTxAddr w tx addrDesc s d) = Ok s'"
  shows "ws_steps s s'"
  using assms
  by (auto simp: OnNewTxAddr_def catchA_def liftA_def split: if_splits prod.splits sum.splits go_error.splits intro: ws_step.newTx)

section \<open>Properties\<close>

lemma notified_eq: "notified subscription data = (\<lambda>ch. if \<not> wc_closed ch \<and> length (wc_out ch) < 16
    then case subscription of None \<Rightarrow> ch | Some ident \<Rightarrow> ch\<lparr>wc_out := wc_out ch @ [\<lparr>wr_ID = ident, wr_Data = data\<rparr>]\<rparr>
    else ch)"
  by (auto simp: fun_eq_iff notified_def queued_def hasRoom_def outChannelSize_def split: option.splits)

text \<open>Two connections, the first subscribed to blocks, the second to an address.\<close>

definition exampleServer :: WebsocketServer where
  "exampleServer = addAddresses 2 [[7]] ''b'' (subscribeNewBlock 1 \<lparr>wq_ID = ''a'', wq_Method = [], wq_Params = []\<rparr>
     (onConnect 2 (onConnect 1 emptyServer)))"

lemmas exampleServer_eval = exampleServer_def emptyServer_def onConnect_def subscribeNewBlock_def addAddresses_def addSubscriber_def

lemma exampleServer_reachable: "ws_steps emptyServer exampleServer"
proof -
  have "ws_steps emptyServer (onConnect 1 emptyServer)"
    by (rule r_into_rtranclp, rule ws_step.connect) (simp add: emptyServer_def)
  then have "ws_steps emptyServer (onConnect 2 (onConnect 1 emptyServer))"
    by (rule rtranclp.rtrancl_into_rtrancl, intro ws_step.connect) (simp add: emptyServer_def onConnect_def)
  then have "ws_steps emptyServer (subscribeNewBlock 1 \<lparr>wq_ID = ''a'', wq_Method = [], wq_Params = []\<rparr> (onConnect 2 (onConnect 1 emptyServer)))"
    by (rule rtranclp.rtrancl_into_rtrancl, intro ws_step.subBlock) (simp add: emptyServer_def onConnect_def isReading_def)
  then show ?thesis unfolding exampleServer_def
    by (rule rtranclp.rtrancl_into_rtrancl, intro ws_step.newAddresses)
      (simp add: emptyServer_def onConnect_def isReading_def subscribeNewBlock_def)
qed

lemma exampleServer_get:
  "mapGet (ws_channels exampleServer) 1 = Some \<lparr>wc_out = [], wc_closed = False, wc_cleaned = False, wc_reading = True\<rparr>"
  "mapGet (ws_channels exampleServer) 2 = Some \<lparr>wc_out = [], wc_closed = False, wc_cleaned = False, wc_reading = True\<rparr>"
  "ws_newBlock exampleServer = [(1, ''a'')]" "ws_addresses exampleServer = [([7], [(2, ''b'')])]"
  by (simp_all add: exampleServer_eval)

lemmas exampleServer_inv = wsInv_steps [OF exampleServer_reachable wsInv_empty]



text \<open>
  C36: a new block is queued exactly for the open connections with room that subscribed to blocks,
  and a transaction of an address exactly for those that subscribed to this address, each time under
  the id of the subscription; other queues and all subscriptions stay as they are.
\<close>

theorem notify_exact:
  assumes "wsInv s"
  shows "mapGet (ws_channels (OnNewBlock hash height s)) c =
      map_option (\<lambda>ch. if \<not> wc_closed ch \<and> length (wc_out ch) < 16
        then case mapGet (ws_newBlock s) c of
               None \<Rightarrow> ch | Some ident \<Rightarrow> ch\<lparr>wc_out := wc_out ch @ [\<lparr>wr_ID = ident, wr_Data = WsNewBlock height hash\<rparr>]\<rparr>
        else ch) (mapGet (ws_channels s) c)
    \<and> mapGet (ws_channels (broadcastTx addrDesc data s)) c =
      map_option (\<lambda>ch. if \<not> wc_closed ch \<and> length (wc_out ch) < 16
        then case Option.bind (mapGet (ws_addresses s) addrDesc) (\<lambda>as. mapGet as c) of
               None \<Rightarrow> ch | Some ident \<Rightarrow> ch\<lparr>wc_out := wc_out ch @ [\<lparr>wr_ID = ident, wr_Data = data\<rparr>]\<rparr>
        else ch) (mapGet (ws_channels s) c)
    \<and> subscribed (OnNewBlock hash height s) = subscribed s \<and> subscribed (broadcastTx addrDesc data s) = subscribed s"
  by (simp add: block_channels tx_channels assms notified_eq)

text \<open>C36: only the first of two connections hears of a block, only the second of a transaction.\<close>

theorem notify_exact_witness:
  "wsInv exampleServer
    \<and> map_option (length \<circ> wc_out) (mapGet (ws_channels (OnNewBlock ''h'' 5 exampleServer)) 1) = Some 1
    \<and> map_option (length \<circ> wc_out) (mapGet (ws_channels (OnNewBlock ''h'' 5 exampleServer)) 2) = Some 0
    \<and> map_option (length \<circ> wc_out) (mapGet (ws_channels (broadcastTx [7] (WsHash ''t'') exampleServer)) 1) = Some 0
    \<and> map_option (length \<circ> wc_out) (mapGet (ws_channels (broadcastTx [7] (WsHash ''t'') exampleServer)) 2) = Some 1"
  using notify_exact [OF exampleServer_inv, where hash = "''h''" and height = 5 and addrDesc = "[7]" and data = "WsHash ''t''" and c = 1]
    notify_exact [OF exampleServer_inv, where hash = "''h''" and height = 5 and addrDesc = "[7]" and data = "WsHash ''t''" and c = 2]
  by (simp add: exampleServer_inv exampleServer_get)



text \<open>
  C38: when the subscriptions of a closed connection are removed after its input loop has ended, it
  has no subscription from then on, whatever the other goroutines do.
\<close>

theorem disconnect_final:
  assumes "ws_steps emptyServer s" "mapGet (ws_channels s) c = Some ch" "wc_closed ch" "\<not> wc_reading ch"
    and "ws_steps (cleanUp c s) s'"
  shows "(k, c, i) \<notin> subscribed s'"
proof -
  have inv: "wsInv s" using assms(1) wsInv_empty by (rule wsInv_steps)
  have "ended c (cleanUp c s)" using assms by (simp add: ended_def cleanUp_eq)
  then show ?thesis
    using ended_forgotten [OF assms(5) wsInv_cleanUp(2) [OF inv assms(2,3)]] subscribed_cleanUp [OF inv assms(2,3)] by auto
qed

text \<open>C38: a connection that closes loses its subscription to an address.\<close>

theorem disconnect_final_witness:
  "(Some [7], 2, ''b'') \<in> subscribed exampleServer
    \<and> (Some [7], 2, ''b'') \<notin> subscribed (cleanUp 2 (setChannel 2 \<lparr>wc_out = [], wc_closed = True, wc_cleaned = False, wc_reading = False\<rparr> exampleServer))"
proof
  let ?m = "setChannel 2 \<lparr>wc_out = [], wc_closed = True, wc_cleaned = False, wc_reading = True\<rparr> exampleServer"
  let ?s = "setChannel 2 \<lparr>wc_out = [], wc_closed = True, wc_cleaned = False, wc_reading = False\<rparr> exampleServer"
  show "(Some [7], 2, ''b'') \<in> subscribed exampleServer" by (simp add: subscribed_def addrSubs_def exampleServer_get)
  have "ws_step exampleServer ?m"
    using ws_step.close [of 2 exampleServer] by (simp add: IsAlive_def markClosed_def setChannel_def exampleServer_get)
  moreover have "ws_step ?m (setChannel 2 \<lparr>wc_out = [], wc_closed = True, wc_cleaned = False, wc_reading = False\<rparr> ?m)"
    using ws_step.endInput [of ?m 2 "\<lparr>wc_out = [], wc_closed = True, wc_cleaned = False, wc_reading = True\<rparr>"] by simp
  moreover have "setChannel 2 \<lparr>wc_out = [], wc_closed = True, wc_cleaned = False, wc_reading = False\<rparr> ?m = ?s"
    by (simp add: setChannel_def exampleServer_eval)
  ultimately have "ws_steps emptyServer ?s"
    using exampleServer_reachable by (metis rtranclp.rtrancl_into_rtrancl)
  then show "(Some [7], 2, ''b'') \<notin> subscribed (cleanUp 2 ?s)"
    using disconnect_final [of ?s 2 "\<lparr>wc_out = [], wc_closed = True, wc_cleaned = False, wc_reading = False\<rparr>" "cleanUp 2 ?s"] by simp
qed

text \<open>
  Without the order of that property the subscription stays: the output loop closes the connection
  while the input loop still works on a request to subscribe. When the input loop calls
  \<open>closeChannel\<close> after that, the connection is closed already and nothing is removed.
\<close>

lemma late_subscription_kept:
  "\<exists>s ch. ws_steps emptyServer s \<and> mapGet (ws_channels s) 1 = Some ch \<and> wc_closed ch \<and> wc_cleaned ch \<and> \<not> wc_reading ch
    \<and> (None, 1, ''a'') \<in> subscribed s \<and> closeChannel 1 s = s"
proof -
  let ?ch = "\<lambda>closed cleaned reading. \<lparr>wc_out = [], wc_closed = closed, wc_cleaned = cleaned, wc_reading = reading\<rparr>"
  let ?s = "\<lambda>ch m. \<lparr>ws_channels = [(1, ch)], ws_newBlock = m, ws_addresses = []\<rparr>"
  let ?req = "\<lparr>wq_ID = ''a'', wq_Method = [], wq_Params = []\<rparr>"
  have "ws_step emptyServer (?s (?ch False False True) [])"
    using ws_step.connect [of emptyServer 1] by (simp add: emptyServer_def onConnect_def)
  moreover have "ws_step (?s (?ch False False True) []) (?s (?ch True False True) [])"
    using ws_step.close [of 1 "?s (?ch False False True) []"] by (simp add: IsAlive_def markClosed_def)
  moreover have "ws_step (?s (?ch True False True) []) (?s (?ch True True True) [])"
    using ws_step.clean [of "?s (?ch True False True) []" 1 "?ch True False True"]
    by (simp add: cleanUp_def onDisconnect_def unsubscribeNewBlock_def unsubscribeAddresses_def dropSubscriber_def)
  moreover have "ws_step (?s (?ch True True True) []) (?s (?ch True True True) [(1, ''a'')])"
    using ws_step.subBlock [of 1 "?s (?ch True True True) []" ?req] by (simp add: isReading_def subscribeNewBlock_def)
  moreover have "ws_step (?s (?ch True True True) [(1, ''a'')]) (?s (?ch True True False) [(1, ''a'')])"
    using ws_step.endInput [of "?s (?ch True True True) [(1, ''a'')]" 1 "?ch True True True"] by (simp add: setChannel_def)
  ultimately have "ws_steps emptyServer (?s (?ch True True False) [(1, ''a'')])"
    by (meson rtranclp.rtrancl_refl converse_rtranclp_into_rtranclp)
  then show ?thesis
    by (intro exI [of _ "?s (?ch True True False) [(1, ''a'')]"] exI [of _ "?ch True True False"])
      (simp add: subscribed_def blockSubs_def closeChannel_def IsAlive_def)
qed

end
