(* ===== verification/PublicApi.thy ===== *)
theory PublicApi
  imports Websocket
begin

text \<open>
  The interface for programs of the web server (\<open>src/server/public.go\<close>): its handlers, the routes
  to them, and the answers with their status. The older format of answers (\<open>src/api/typesv1.go\<close>) and
  the information on the system (\<open>src/api/worker.go\<close>) belong to it. \<open>net/http\<close> gives the path, the
  parameters and the body of a request; the node is a parameter. Metrics are left out, and so are the
  fields \<open>Asm\<close>, \<open>Type\<close> and \<open>Size\<close>, which are always empty.
\<close>

section \<open>The older format\<close>

definition DecimalString :: "amount \<Rightarrow> int \<Rightarrow> string res" where
  "DecimalString a d = AmountToDecimalString a d"

record VinV1 =
  v1i_Txid :: string
  v1i_Vout :: u32
  v1i_Sequence :: int64
  v1i_N :: nat
  v1i_Hex :: string
  v1i_AddrDesc :: AddressDescriptor
  v1i_Addresses :: "string list"
  v1i_Searchable :: bool
  v1i_Value :: string
  v1i_ValueSat :: int

record VoutV1 =
  v1o_Value :: string
  v1o_ValueSat :: int
  v1o_N :: nat
  v1o_Hex :: string
  v1o_AddrDesc :: AddressDescriptor
  v1o_Addresses :: "string list"
  v1o_Searchable :: bool
  v1o_Spent :: bool
  v1o_SpentTxID :: string
  v1o_SpentIndex :: int
  v1o_SpentHeight :: int

record TxV1 =
  v1t_Txid :: string
  v1t_Version :: int32
  v1t_Locktime :: u32
  v1t_Vin :: "VinV1 list"
  v1t_Vout :: "VoutV1 list"
  v1t_Blockhash :: string
  v1t_Blockheight :: int
  v1t_Confirmations :: u32
  v1t_Time :: int64
  v1t_Blocktime :: int64
  v1t_ValueOut :: string
  v1t_ValueOutSat :: int
  v1t_ValueIn :: string
  v1t_ValueInSat :: int
  v1t_Fees :: string
  v1t_FeesSat :: int
  v1t_Hex :: string

record AddressV1 = Paging +
  v1a_AddrStr :: string
  v1a_Balance :: string
  v1a_TotalReceived :: string
  v1a_TotalSent :: string
  v1a_UnconfirmedBalance :: string
  v1a_UnconfirmedTxApperances :: int
  v1a_TxApperances :: int
  v1a_Transactions :: "TxV1 list"
  v1a_Txids :: "string list"

record AddressUtxoV1 =
  v1u_Txid :: string
  v1u_Vout :: u32
  v1u_Amount :: string
  v1u_AmountSat :: int
  v1u_Height :: int
  v1u_Confirmations :: int

type_synonym block_answer = "Paging \<times> chain_block_info \<times> int \<times> api_tx list"
type_synonym BlockV1 = "Paging \<times> chain_block_info \<times> int \<times> TxV1 list"

definition vinToV1 :: "int \<Rightarrow> api_vin \<Rightarrow> VinV1 res" where
  "vinToV1 d v =
     bindR (DecimalString (av_ValueSat v) d) (\<lambda>value.
     Ok \<lparr>v1i_Txid = av_Txid v, v1i_Vout = av_Vout v, v1i_Sequence = av_Sequence v, v1i_N = av_N v, v1i_Hex = av_Hex v,
         v1i_AddrDesc = av_AddrDesc v, v1i_Addresses = av_Addresses v, v1i_Searchable = av_Searchable v,
         v1i_Value = value, v1i_ValueSat = AsBigInt (av_ValueSat v)\<rparr>)"

definition voutToV1 :: "int \<Rightarrow> api_vout \<Rightarrow> VoutV1 res" where
  "voutToV1 d v =
     bindR (DecimalString (ao_ValueSat v) d) (\<lambda>value.
     Ok \<lparr>v1o_Value = value, v1o_ValueSat = AsBigInt (ao_ValueSat v), v1o_N = ao_N v, v1o_Hex = ao_Hex v,
         v1o_AddrDesc = ao_AddrDesc v, v1o_Addresses = ao_Addresses v, v1o_Searchable = ao_Searchable v, v1o_Spent = ao_Spent v,
         v1o_SpentTxID = ao_SpentTxID v, v1o_SpentIndex = ao_SpentIndex v, v1o_SpentHeight = ao_SpentHeight v\<rparr>)"

definition TxToV1 :: "int \<Rightarrow> api_tx \<Rightarrow> TxV1 res" where
  "TxToV1 d tx =
     bindR (mapR (vinToV1 d) (at_Vin tx)) (\<lambda>vinV1.
     bindR (mapR (voutToV1 d) (at_Vout tx)) (\<lambda>voutV1.
     bindR (DecimalString (at_FeesSat tx) d) (\<lambda>fees.
     bindR (DecimalString (at_ValueInSat tx) d) (\<lambda>valueIn.
     bindR (DecimalString (at_ValueOutSat tx) d) (\<lambda>valueOut.
     Ok \<lparr>v1t_Txid = at_Txid tx, v1t_Version = at_Version tx, v1t_Locktime = at_Locktime tx, v1t_Vin = vinV1, v1t_Vout = voutV1,
         v1t_Blockhash = at_Blockhash tx, v1t_Blockheight = at_Blockheight tx, v1t_Confirmations = at_Confirmations tx,
         v1t_Time = at_Blocktime tx, v1t_Blocktime = at_Blocktime tx, v1t_ValueOut = valueOut, v1t_ValueOutSat = AsBigInt (at_ValueOutSat tx),
         v1t_ValueIn = valueIn, v1t_ValueInSat = AsBigInt (at_ValueInSat tx), v1t_Fees = fees, v1t_FeesSat = AsBigInt (at_FeesSat tx),
         v1t_Hex = at_Hex tx\<rparr>)))))"

definition transactionsToV1 :: "int \<Rightarrow> api_tx list \<Rightarrow> TxV1 list res" where
  "transactionsToV1 d txs = mapR (TxToV1 d) txs"

definition AddressToV1 :: "int \<Rightarrow> 'a Address_scheme \<Rightarrow> AddressV1 res" where
  "AddressToV1 d a =
     bindR (DecimalString (ad_BalanceSat a) d) (\<lambda>balance.
     bindR (DecimalString (ad_TotalReceivedSat a) d) (\<lambda>totalReceived.
     bindR (DecimalString (ad_TotalSentSat a) d) (\<lambda>totalSent.
     bindR (transactionsToV1 d (ad_Transactions a)) (\<lambda>txs.
     bindR (DecimalString (ad_UnconfirmedBalanceSat a) d) (\<lambda>unconfirmed.
     Ok \<lparr>pg_Page = pg_Page a, pg_TotalPages = pg_TotalPages a, pg_ItemsOnPage = pg_ItemsOnPage a, v1a_AddrStr = ad_AddrStr a,
         v1a_Balance = balance, v1a_TotalReceived = totalReceived, v1a_TotalSent = totalSent, v1a_UnconfirmedBalance = unconfirmed,
         v1a_UnconfirmedTxApperances = ad_UnconfirmedTxs a, v1a_TxApperances = ad_Txs a, v1a_Transactions = txs, v1a_Txids = ad_Txids a\<rparr>)))))"

definition AddressUtxoToV1 :: "int \<Rightarrow> api_utxo list \<Rightarrow> AddressUtxoV1 list res" where
  "AddressUtxoToV1 d au =
     mapR (\<lambda>utxo. bindR (DecimalString (au_AmountSat utxo) d) (\<lambda>amount.
       Ok \<lparr>v1u_Txid = au_Txid utxo, v1u_Vout = au_Vout utxo, v1u_Amount = amount, v1u_AmountSat = AsBigInt (au_AmountSat utxo),
           v1u_Height = au_Height utxo, v1u_Confirmations = au_Confirmations utxo\<rparr>)) au"

definition BlockToV1 :: "int \<Rightarrow> block_answer \<Rightarrow> BlockV1 res" where
  "BlockToV1 d = (\<lambda>(pg, bi, txCount, txs). bindR (transactionsToV1 d txs) (\<lambda>txs. Ok (pg, bi, txCount, txs)))"

section \<open>The state of the system\<close>

record BackendInfo =
  be_Chain :: string
  be_Blocks :: int
  be_Headers :: int
  be_Bestblockhash :: string
  be_Difficulty :: string
  be_SizeOnDisk :: int64
  be_Version :: string
  be_Subversion :: string
  be_ProtocolVersion :: string
  be_Timeoffset :: string
  be_Warnings :: string
  be_TransparentSupply :: string
  be_ShieldSupply :: string
  be_MoneySupply :: string
  be_MasternodeCount :: int
  be_NextSuperBlock :: int

record BlockbookInfo =
  bb_Coin :: string
  bb_Host :: string
  bb_Version :: string
  bb_GitCommit :: string
  bb_BuildTime :: string
  bb_SyncMode :: bool
  bb_InitialSync :: bool
  bb_InSync :: bool
  bb_BestHeight :: u32
  bb_LastBlockTime :: go_time
  bb_InSyncMempool :: bool
  bb_LastMempoolTime :: go_time
  bb_MempoolSize :: int
  bb_Decimals :: int
  bb_DbSize :: int64
  bb_DbSizeFromColumns :: int64
  bb_DbColumns :: "InternalStateColumn list"
  bb_About :: string

text \<open>
  The server: the environment it shares with the websocket server, more calls of the node, the
  version, the texts, and what \<open>fmt\<close> prints of an error when debugging.
\<close>

record ('db, 'a, 'k) public_env =
  pe_ws :: "('db, 'a, 'k) ws_env"
  pe_EstimateFee :: "int \<Rightarrow> int res"
  pe_Findzcserial :: "string \<Rightarrow> string res"
  pe_GetChainInfo :: "BackendInfo res"
  pe_GitCommit :: string
  pe_BuildTime :: string
  pe_DatabaseSizeOnDisk :: int64
  pe_debug :: bool
  pe_debugText :: "go_error \<Rightarrow> string"
  pe_explorerURL :: string
  pe_binding :: string

definition BlockbookAbout :: string where "BlockbookAbout = ''OrganicLifeCoin Blockbook indexer and explorer.''"
definition TOSLink :: string where "TOSLink = ''https://github.com/OrganicLifeCoin/organic-blockbook''"

abbreviation pubApi :: "('db, 'a, 'k) public_env \<Rightarrow> 'db api_worker" where
  "pubApi E \<equiv> apiOf (pe_ws E)"

abbreviation pubDecimals :: "('db, 'a, 'k) public_env \<Rightarrow> int" where
  "pubDecimals E \<equiv> cp_AmountDecimals (chainParser (pubApi E))"

text \<open>\<open>errors.Annotatef\<close> wraps an error under a text.\<close>

definition GetSystemInfo :: "('db, 'a, 'k) public_env \<Rightarrow> bool \<Rightarrow> ('db, BlockbookInfo \<times> BackendInfo) act" where
  "GetSystemInfo E internal =
     bindA (liftA (catchR (pe_GetChainInfo E) (\<lambda>e. Err (ErrMsg (''GetChainInfo: '' @ errorText e))) Ok)) (\<lambda>ci d.
     case d_is d of
       None \<Rightarrow> (d, Err (Panic ''nil pointer dereference''))
     | Some is \<Rightarrow>
         let (inSync, bestHeight, lastBlockTime) = GetSyncState is;
             (inSyncMempool, lastMempoolTime, mempoolSize) = GetMempoolSyncState is
         in (d, Ok (\<lparr>bb_Coin = is_Coin is, bb_Host = is_Host is, bb_Version = we_version (pe_ws E), bb_GitCommit = pe_GitCommit E,
              bb_BuildTime = pe_BuildTime E, bb_SyncMode = is_SyncMode is, bb_InitialSync = is_InitialSync is, bb_InSync = inSync,
              bb_BestHeight = bestHeight, bb_LastBlockTime = lastBlockTime, bb_InSyncMempool = inSyncMempool,
              bb_LastMempoolTime = lastMempoolTime, bb_MempoolSize = mempoolSize, bb_Decimals = pubDecimals E,
              bb_DbSize = pe_DatabaseSizeOnDisk E, bb_DbSizeFromColumns = (if internal then DBSizeTotal is else 0),
              bb_DbColumns = (if internal then GetAllDBColumnStats is else []), bb_About = BlockbookAbout\<rparr>, ci)))"

section \<open>Requests\<close>

text \<open>
  The method, the path, the first value of each parameter, the body (see \<open>readSignedTransactionBody\<close>)
  and the field \<open>hex\<close> of a form, or the error of reading the form.
\<close>

record http_request =
  hr_Method :: string
  hr_Path :: string
  hr_Query :: "(string, string) gomap"
  hr_Body :: "string \<times> go_error option"
  hr_FormHex :: "string res"

definition queryGet :: "http_request \<Rightarrow> string \<Rightarrow> string" where
  "queryGet r k = (case mapGet (hr_Query r) k of None \<Rightarrow> [] | Some v \<Rightarrow> v)"

text \<open>\<open>r.URL.Path[i+1:]\<close> when the last slash stands at an index \<open>i\<close> above 0.\<close>

definition lastPart :: "string \<Rightarrow> string option" where
  "lastPart path =
     (let p = takeWhile (\<lambda>c. c \<noteq> CHR ''/'') (rev path)
      in if length p + 1 < length path then Some (rev p) else None)"

definition pathParam :: "http_request \<Rightarrow> string" where
  "pathParam r = (case lastPart (hr_Path r) of None \<Rightarrow> [] | Some p \<Rightarrow> p)"

text \<open>\<open>strconv.ParseBool\<close>.\<close>

definition parseBool :: "string \<Rightarrow> bool option" where
  "parseBool s = (if s \<in> {''1'', ''t'', ''T'', ''TRUE'', ''true'', ''True''} then Some True
     else if s \<in> {''0'', ''f'', ''F'', ''FALSE'', ''false'', ''False''} then Some False else None)"

definition boolParam :: "http_request \<Rightarrow> string \<Rightarrow> bool \<Rightarrow> bool res" where
  "boolParam r name dflt =
     (if queryGet r name = [] then Ok dflt
      else case parseBool (queryGet r name) of
             Some b \<Rightarrow> Ok b
           | None \<Rightarrow> Err (NewAPIError (''Parameter '' @ quoted name @ '' cannot be converted to boolean'') True))"

definition intParam :: "http_request \<Rightarrow> string \<Rightarrow> int \<Rightarrow> int" where
  "intParam r name dflt = (case atoi (queryGet r name) of None \<Rightarrow> dflt | Some n \<Rightarrow> n)"

definition txsInAPI :: int where "txsInAPI = 1000"

definition voutFilterOf :: "string \<Rightarrow> int" where
  "voutFilterOf filterParam =
     (if filterParam = [] then AddressFilterVoutOff
      else if filterParam = ''inputs'' then AddressFilterVoutInputs
      else if filterParam = ''outputs'' then AddressFilterVoutOutputs
      else case atoi filterParam of None \<Rightarrow> AddressFilterVoutOff | Some v \<Rightarrow> if v < 0 then AddressFilterVoutOff else v)"

definition queryDetails :: "string \<Rightarrow> AccountDetails \<Rightarrow> AccountDetails" where
  "queryDetails q dflt = (if q = ''basic'' then AccountDetailsBasic else if q = ''tokens'' then AccountDetailsTokens
     else if q = ''tokenBalances'' then AccountDetailsTokenBalances else if q = ''txids'' then AccountDetailsTxidHistory
     else if q = ''txs'' then AccountDetailsTxHistory else dflt)"

definition queryTokens :: "string \<Rightarrow> TokensToReturn" where
  "queryTokens q = (if q = ''derived'' then TokensToReturnDerived else if q = ''used'' then TokensToReturnUsed else TokensToReturnNonzeroBalance)"

record address_query =
  aq_page :: int
  aq_pageSize :: int
  aq_details :: AccountDetails
  aq_filter :: AddressFilter
  aq_filterParam :: string
  aq_gap :: int

definition getAddressQueryParams :: "http_request \<Rightarrow> AccountDetails \<Rightarrow> int \<Rightarrow> address_query res" where
  "getAddressQueryParams r accountDetails maxPageSize =
     bindR (normalizeAddressPaging (intParam r ''page'' 1) (intParam r ''pageSize'' 0) maxPageSize maxPageSize) (\<lambda>(page, pageSize).
     let fromH = intParam r ''from'' 0; fromH = (if fromH < 0 then 0 else fromH);
         toH = intParam r ''to'' 0; toH = (if toH < 0 then 0 else toH);
         filterParam = queryGet r ''filter''
     in Ok \<lparr>aq_page = page, aq_pageSize = pageSize, aq_details = queryDetails (queryGet r ''details'') accountDetails,
            aq_filter = \<lparr>af_Vout = voutFilterOf filterParam, af_FromHeight = normalizeBlockHeight fromH,
                         af_ToHeight = normalizeBlockHeight toH, af_TokensToReturn = queryTokens (queryGet r ''tokens''), af_OnlyConfirmed = False\<rparr>,
            aq_filterParam = filterParam, aq_gap = intParam r ''gap'' 0\<rparr>)"

section \<open>Handlers\<close>

text \<open>A request reads the cache of accounts and the index and may change both.\<close>

type_synonym ('db, 'x) req = "xpub_cache \<Rightarrow> 'db RocksDB \<Rightarrow> xpub_cache \<times> 'db RocksDB \<times> 'x res"

definition onDb :: "('db, 'x) act \<Rightarrow> ('db, 'x) req" where "onDb m cache d = (cache, m d)"
definition onRes :: "'x res \<Rightarrow> ('db, 'x) req" where "onRes x cache d = (cache, d, x)"

definition bindQ :: "('db, 'x) req \<Rightarrow> ('x \<Rightarrow> ('db, 'y) req) \<Rightarrow> ('db, 'y) req" where
  "bindQ m f cache d = (case m cache d of (cache, d, Inl e) \<Rightarrow> (cache, d, Err e) | (cache, d, Inr x) \<Rightarrow> f x cache d)"

definition catchQ :: "('db, 'x) req \<Rightarrow> (go_error \<Rightarrow> ('db, 'y) req) \<Rightarrow> ('x \<Rightarrow> ('db, 'y) req) \<Rightarrow> ('db, 'y) req" where
  "catchQ m h f cache d = (case m cache d of
     (cache, d, Inl e) \<Rightarrow> (case e of Panic msg \<Rightarrow> (cache, d, Err e) | OutOfFuel \<Rightarrow> (cache, d, Err e) | _ \<Rightarrow> h e cache d)
   | (cache, d, Inr x) \<Rightarrow> f x cache d)"

abbreviation failQ :: "string \<Rightarrow> ('db, 'x) req" where
  "failQ text \<equiv> onRes (Err (NewAPIError text True))"

datatype api_version = apiV1 | apiV2

text \<open>\<open>DataNull\<close> is a nil pointer or slice of some type.\<close>

datatype api_data =
    DataInfo "BlockbookInfo \<times> BackendInfo"
  | DataBlockIndex string
  | DataTx api_tx
  | DataTxV1 TxV1
  | DataSpecific string
  | DataAddress Address
  | DataAccount Account
  | DataAddressV1 AddressV1
  | DataUtxos "api_utxo list"
  | DataUtxosV1 "AddressUtxoV1 list"
  | DataBlock block_answer
  | DataBlockV1 BlockV1
  | DataResult string
  | DataSerial string
  | DataNull

definition inVersion :: "api_version \<Rightarrow> ('x \<Rightarrow> api_data) \<Rightarrow> ('x \<Rightarrow> api_data res) \<Rightarrow> 'x \<Rightarrow> ('db, api_data) req" where
  "inVersion v new old x = onRes (if v = apiV1 then old x else Ok (new x))"

definition accountReq :: "('db, 'a, 'k) public_env \<Rightarrow> string \<Rightarrow> int \<Rightarrow> int \<Rightarrow> AccountDetails \<Rightarrow> AddressFilter \<Rightarrow> int \<Rightarrow> ('db, Account) req" where
  "accountReq E xpub page pageSize details filt gap =
     GetXpubAddress (we_account (pe_ws E)) (we_now (pe_ws E)) (we_entries (pe_ws E)) xpub page pageSize details filt gap"

definition accountUtxoReq :: "('db, 'a, 'k) public_env \<Rightarrow> string \<Rightarrow> bool \<Rightarrow> int \<Rightarrow> ('db, api_utxo list) req" where
  "accountUtxoReq E xpub onlyConfirmed gap =
     GetXpubUtxo (we_account (pe_ws E)) (we_now (pe_ws E)) (we_entries (pe_ws E)) xpub onlyConfirmed gap"

definition apiIndex :: "('db, 'a, 'k) public_env \<Rightarrow> http_request \<Rightarrow> api_version \<Rightarrow> ('db, api_data) req" where
  "apiIndex E r v = bindQ (onDb (GetSystemInfo E False)) (\<lambda>info. onRes (Ok (DataInfo info)))"

definition apiBlockIndex :: "('db, 'a, 'k) public_env \<Rightarrow> http_request \<Rightarrow> api_version \<Rightarrow> ('db, api_data) req" where
  "apiBlockIndex E r v =
     (let height = (case lastPart (hr_Path r) of None \<Rightarrow> - 1 | Some p \<Rightarrow> (case atoi p of None \<Rightarrow> - 1 | Some h \<Rightarrow> h));
          D = aw_deps (pubApi E)
      in bindQ (onDb (if height \<ge> 0 then readA (\<lambda>db. GetBlockHash D db (of_int height))
                      else bindA (readA (\<lambda>db. GetBestBlock D db)) (\<lambda>(_, hash). liftA (Ok hash)))) (\<lambda>hash.
         onRes (Ok (DataBlockIndex hash))))"

definition apiTx :: "('db, 'a, 'k) public_env \<Rightarrow> http_request \<Rightarrow> api_version \<Rightarrow> ('db, api_data) req" where
  "apiTx E r v =
     (let txid = pathParam r
      in if txid = [] then failQ ''Missing txid''
         else bindQ (onRes (boolParam r ''spending'' False)) (\<lambda>spendingTxs.
              bindQ (onDb (GetTransaction_api (pubApi E) txid spendingTxs False)) (\<lambda>tx.
              inVersion v DataTx (\<lambda>tx. bindR (TxToV1 (pubDecimals E) tx) (\<lambda>t. Ok (DataTxV1 t))) tx)))"

definition apiTxSpecific :: "('db, 'a, 'k) public_env \<Rightarrow> http_request \<Rightarrow> api_version \<Rightarrow> ('db, api_data) req" where
  "apiTxSpecific E r v =
     (let txid = pathParam r
      in if txid = [] then failQ ''Missing txid''
         else bindQ (onRes (aw_GetTransactionSpecific (pubApi E) ((we_emptyTx (pe_ws E))\<lparr>tx_Txid := txid\<rparr>))) (\<lambda>tx. onRes (Ok (DataSpecific tx))))"

definition apiAddress :: "('db, 'a, 'k) public_env \<Rightarrow> http_request \<Rightarrow> api_version \<Rightarrow> ('db, api_data) req" where
  "apiAddress E r v =
     (let addressParam = pathParam r
      in if addressParam = [] then failQ ''Missing address''
         else bindQ (onRes (getAddressQueryParams r AccountDetailsTxidHistory txsInAPI)) (\<lambda>q.
              bindQ (onDb (GetAddress (pubApi E) addressParam (aq_page q) (aq_pageSize q) (aq_details q) (aq_filter q)))
                (inVersion v DataAddress (\<lambda>a. bindR (AddressToV1 (pubDecimals E) a) (\<lambda>x. Ok (DataAddressV1 x))))))"

definition apiXpub :: "('db, 'a, 'k) public_env \<Rightarrow> http_request \<Rightarrow> api_version \<Rightarrow> ('db, api_data) req" where
  "apiXpub E r v =
     (let xpub = pathParam r
      in if xpub = [] then failQ ''Missing xpub''
         else bindQ (onRes (getAddressQueryParams r AccountDetailsTxidHistory txsInAPI)) (\<lambda>q.
              bindQ (accountReq E xpub (aq_page q) (aq_pageSize q) (aq_details q) (aq_filter q) (aq_gap q))
                (inVersion v DataAccount (\<lambda>a. bindR (AddressToV1 (pubDecimals E) a) (\<lambda>x. Ok (DataAddressV1 x))))))"

definition apiUtxo :: "('db, 'a, 'k) public_env \<Rightarrow> http_request \<Rightarrow> api_version \<Rightarrow> ('db, api_data) req" where
  "apiUtxo E r v =
     (case lastPart (hr_Path r) of
        None \<Rightarrow> onRes (Ok DataNull)
      | Some p \<Rightarrow>
          bindQ (onRes (boolParam r ''confirmed'' False)) (\<lambda>onlyConfirmed.
          bindQ (catchQ (accountUtxoReq E p onlyConfirmed (intParam r ''gap'' 0))
                   (\<lambda>_. onDb (GetAddressUtxo (pubApi E) p onlyConfirmed)) (\<lambda>utxo. onRes (Ok utxo)))
            (inVersion v DataUtxos (\<lambda>utxo. bindR (AddressUtxoToV1 (pubDecimals E) utxo) (\<lambda>x. Ok (DataUtxosV1 x))))))"

definition apiBlock :: "('db, 'a, 'k) public_env \<Rightarrow> http_request \<Rightarrow> api_version \<Rightarrow> ('db, api_data) req" where
  "apiBlock E r v =
     (case lastPart (hr_Path r) of
        None \<Rightarrow> onRes (Ok DataNull)
      | Some p \<Rightarrow>
          bindQ (onDb (GetBlock_api (pubApi E) p (intParam r ''page'' 0) txsInAPI))
            (inVersion v DataBlock (\<lambda>b. bindR (BlockToV1 (pubDecimals E) b) (\<lambda>x. Ok (DataBlockV1 x)))))"

abbreviation publicError :: "go_error \<Rightarrow> 'x res" where
  "publicError e \<equiv> Err (NewAPIError (errorText e) True)"

definition apiSendTx :: "('db, 'a, 'k) public_env \<Rightarrow> http_request \<Rightarrow> api_version \<Rightarrow> ('db, api_data) req" where
  "apiSendTx E r v =
     onRes (bindR (if hr_Method r = ''POST'' then catchR (readSignedTransactionBody (hr_Body r)) publicError Ok else Ok (pathParam r)) (\<lambda>hex.
       catchR (validateSignedTransactionHex hex) publicError (\<lambda>_.
       if hex \<noteq> [] then catchR (we_SendRawTransaction (pe_ws E) hex) publicError (\<lambda>txid. Ok (DataResult txid))
       else Err (NewAPIError ''Missing tx blob'' True))))"

definition apiEstimateFee :: "('db, 'a, 'k) public_env \<Rightarrow> http_request \<Rightarrow> api_version \<Rightarrow> ('db, api_data) req" where
  "apiEstimateFee E r v =
     (let b = pathParam r
      in if b = [] then failQ (''Missing parameter '' @ quoted ''number of blocks'')
         else case atoi b of
                None \<Rightarrow> failQ (''Parameter '' @ quoted ''number of blocks'' @ '' is not a number'')
              | Some blocks \<Rightarrow>
                  onRes (bindR (boolParam r ''conservative'' True) (\<lambda>conservative.
                    bindR (catchR (we_EstimateSmartFee (pe_ws E) blocks conservative) (\<lambda>_. pe_EstimateFee E blocks) Ok) (\<lambda>fee.
                    bindR (AmountToDecimalString (Some fee) (pubDecimals E)) (\<lambda>s. Ok (DataResult s))))))"

definition apiFindzcserial :: "('db, 'a, 'k) public_env \<Rightarrow> http_request \<Rightarrow> api_version \<Rightarrow> ('db, api_data) req" where
  "apiFindzcserial E r v =
     (case lastPart (hr_Path r) of
        None \<Rightarrow> failQ (''Missing parameter '' @ quoted ''serialHex'')
      | Some serialHex \<Rightarrow> onRes (bindR (pe_Findzcserial E serialHex) (\<lambda>txid. Ok (DataSerial txid))))"

section \<open>Answers\<close>

datatype json_answer = JsonData api_data | JsonError string int

fun jsonAnswer :: "('db, 'a, 'k) public_env \<Rightarrow> api_data res \<Rightarrow> json_answer" where
  "jsonAnswer E (Inr data) = JsonData data"
| "jsonAnswer E (Inl (APIError text public)) = JsonError text (if public then 400 else 500)"
| "jsonAnswer E (Inl (Panic m)) =
     JsonError (if pe_debug E then ''Internal server error: recovered from panic '' @ m else ''Internal server error'') 500"
| "jsonAnswer E (Inl e) = JsonError (if pe_debug E then ''Internal server error: '' @ pe_debugText E e else ''Internal server error'') 500"

definition jsonHandler :: "('db, 'a, 'k) public_env \<Rightarrow> ('db, api_data) req \<Rightarrow> xpub_cache \<Rightarrow> 'db RocksDB \<Rightarrow> xpub_cache \<times> 'db RocksDB \<times> json_answer" where
  "jsonHandler E m cache d = (case m cache d of (cache, d, r) \<Rightarrow> (cache, d, jsonAnswer E r))"

definition splitBinding :: "string \<Rightarrow> string \<times> string" where
  "splitBinding binding =
     (let addr = takeWhile (\<lambda>c. c \<noteq> CHR ''/'') binding
      in if length addr < length binding then (addr, drop (length addr) binding) else (binding, ''/''))"

type_synonym ('db, 'a, 'k) api_handler = "('db, 'a, 'k) public_env \<Rightarrow> http_request \<Rightarrow> api_version \<Rightarrow> ('db, api_data) req"

definition apiRoutes :: "string \<Rightarrow> (string \<times> ('db, 'a, 'k) api_handler \<times> api_version) list" where
  "apiRoutes path =
     [(path @ ''api/'', apiIndex, apiV2),
      (path @ ''api/v1/block-index/'', apiBlockIndex, apiV1),
      (path @ ''api/v1/tx-specific/'', apiTxSpecific, apiV1),
      (path @ ''api/v1/tx/'', apiTx, apiV1),
      (path @ ''api/v1/address/'', apiAddress, apiV1),
      (path @ ''api/v1/utxo/'', apiUtxo, apiV1),
      (path @ ''api/v1/block/'', apiBlock, apiV1),
      (path @ ''api/v1/sendtx/'', apiSendTx, apiV1),
      (path @ ''api/v1/estimatefee/'', apiEstimateFee, apiV1),
      (path @ ''api/v1/findzcserial/'', apiFindzcserial, apiV1),
      (path @ ''api/block-index/'', apiBlockIndex, apiV1),
      (path @ ''api/tx-specific/'', apiTxSpecific, apiV1),
      (path @ ''api/tx/'', apiTx, apiV1),
      (path @ ''api/address/'', apiAddress, apiV1),
      (path @ ''api/xpub/'', apiXpub, apiV1),
      (path @ ''api/utxo/'', apiUtxo, apiV1),
      (path @ ''api/block/'', apiBlock, apiV1),
      (path @ ''api/sendtx/'', apiSendTx, apiV1),
      (path @ ''api/estimatefee/'', apiEstimateFee, apiV1),
      (path @ ''api/findzcserial/'', apiFindzcserial, apiV1),
      (path @ ''api/v2/block-index/'', apiBlockIndex, apiV2),
      (path @ ''api/v2/tx-specific/'', apiTxSpecific, apiV2),
      (path @ ''api/v2/tx/'', apiTx, apiV2),
      (path @ ''api/v2/address/'', apiAddress, apiV2),
      (path @ ''api/v2/xpub/'', apiXpub, apiV2),
      (path @ ''api/v2/utxo/'', apiUtxo, apiV2),
      (path @ ''api/v2/block/'', apiBlock, apiV2),
      (path @ ''api/v2/sendtx/'', apiSendTx, apiV2),
      (path @ ''api/v2/estimatefee/'', apiEstimateFee, apiV2),
      (path @ ''api/v2/findzcserial/'', apiFindzcserial, apiV2)]"

end
