(* ===== verification/Explorer.thy ===== *)
theory Explorer
  imports PublicApi
begin

text \<open>
  The pages of the web server (\<open>src/server/public.go\<close>): what each page shows, the search, the
  buttons between pages, the errors, and the routes. A page is the name of its template with its
  data; the templates themselves, times and percentages are left out. The answer of the internal
  server (\<open>src/server/internal.go\<close>) is here as well.
\<close>

section \<open>Data of a page\<close>

datatype tpl = errorTpl | errorInternalTpl | indexTpl | statusTpl | txTpl | shieldTxTpl | addressTpl | xpubTpl | blocksTpl
  | blockTpl | sendTransactionTpl | mempoolTpl

record TemplateData =
  td_CoinName :: string
  td_CoinShortcut :: string
  td_CoinLabel :: string
  td_InternalExplorer :: bool
  td_Address :: "Account option"
  td_Filter :: string
  td_AddrStr :: string
  td_Tx :: "api_tx option"
  td_Error :: "(string \<times> bool) option"
  td_Blocks :: "(Paging \<times> BlockInfo list) option"
  td_Block :: "block_answer option"
  td_Info :: "(BlockbookInfo \<times> BackendInfo) option"
  td_MempoolTxids :: "(Paging \<times> int \<times> (string \<times> int64) list) option"
  td_Page :: int
  td_PrevPage :: int
  td_NextPage :: int
  td_PagingRange :: "int list"
  td_PageParams :: string
  td_Hostname :: string
  td_RelativeURL :: string
  td_TOSLink :: string
  td_SendTxHex :: string
  td_Status :: string
  td_NonZeroBalanceTokens :: bool

definition internalExplorer :: "('db, 'a, 'k) public_env \<Rightarrow> bool" where
  "internalExplorer E \<longleftrightarrow> pe_explorerURL E = []"

definition newTemplateData :: "('db, 'a, 'k) public_env \<Rightarrow> InternalState \<Rightarrow> TemplateData" where
  "newTemplateData E is = \<lparr>td_CoinName = is_Coin is, td_CoinShortcut = is_CoinShortcut is, td_CoinLabel = is_CoinLabel is,
     td_InternalExplorer = (internalExplorer E \<and> \<not> is_InitialSync is), td_Address = None, td_Filter = [], td_AddrStr = [], td_Tx = None,
     td_Error = None, td_Blocks = None, td_Block = None, td_Info = None, td_MempoolTxids = None, td_Page = 0, td_PrevPage = 0,
     td_NextPage = 0, td_PagingRange = [], td_PageParams = [], td_Hostname = is_Host is, td_RelativeURL = [], td_TOSLink = TOSLink,
     td_SendTxHex = [], td_Status = [], td_NonZeroBalanceTokens = False\<rparr>"

definition newTemplateDataWithError :: "('db, 'a, 'k) public_env \<Rightarrow> InternalState \<Rightarrow> string \<Rightarrow> TemplateData" where
  "newTemplateDataWithError E is text = (newTemplateData E is)\<lparr>td_Error := Some (text, False)\<rparr>"

text \<open>What a handler returns without an error: a redirection, which it has written itself, or a page.\<close>

datatype page = Redirect string | Page tpl TemplateData

definition pageData :: "('db, 'a, 'k) public_env \<Rightarrow> (TemplateData \<Rightarrow> page) \<Rightarrow> ('db, page) req" where
  "pageData E f cache d = (case d_is d of None \<Rightarrow> (cache, d, Err (Panic ''nil pointer dereference'')) | Some is \<Rightarrow> (cache, d, Ok (f (newTemplateData E is))))"

definition joinURL :: "string \<Rightarrow> string \<Rightarrow> string" where
  "joinURL base part =
     (if base \<noteq> []
      then if last base = CHR ''/'' \<and> part \<noteq> [] \<and> hd part = CHR ''/'' then base @ tl part else base @ part
      else part)"

section \<open>Buttons between pages\<close>

text \<open>The numbers of the pages to show, 0 for dots, and the pages before and after.\<close>

definition getPagingRange :: "int \<Rightarrow> int \<Rightarrow> int list \<times> int \<times> int" where
  "getPagingRange page totalPages =
     (if totalPages \<ge> 0 \<and> totalPages < 2 then ([], 0, 0)
      else let pp = (if page - 1 < 1 then 1 else page - 1);
               np = page + 1
           in if totalPages > 0
              then let np = (if np > totalPages then totalPages else np);
                       r = (if totalPages < 6 then [1..totalPages]
                            else [1] @ (if page > 3 then [0] else [])
                              @ (if pp = 1 then if page = 1 then [np, np + 1, np + 2] else [page, np, np + 1]
                                 else if np = totalPages then if page = totalPages then [pp - 2, pp - 1, pp] else [pp - 1, pp, page]
                                 else [pp, page, np])
                              @ (if page \<le> totalPages - 3 then [0] else []) @ [totalPages])
                   in (r, pp, np)
              else ([], pp, np))"

section \<open>Formats\<close>

definition formatAmount :: "('db, 'a, 'k) public_env \<Rightarrow> amount \<Rightarrow> string res" where
  "formatAmount E a = AmountToDecimalString a (pubDecimals E)"

definition formatAbsAmount :: "('db, 'a, 'k) public_env \<Rightarrow> amount \<Rightarrow> string res" where
  "formatAbsAmount E a = (case a of None \<Rightarrow> Ok [] | Some x \<Rightarrow> formatAmount E (Some \<bar>x\<bar>))"

definition formatNegatedAmount :: "('db, 'a, 'k) public_env \<Rightarrow> amount \<Rightarrow> string res" where
  "formatNegatedAmount E a = (case a of None \<Rightarrow> Ok [] | Some x \<Rightarrow> formatAmount E (Some (- x)))"

definition IsPositive :: "amount \<Rightarrow> bool" where
  "IsPositive a = (case a of None \<Rightarrow> True | Some x \<Rightarrow> x \<ge> 0)"

definition IsShield :: "api_tx \<Rightarrow> bool" where
  "IsShield tx \<longleftrightarrow> at_ShieldIns tx > 0 \<or> at_ShieldOuts tx > 0
     \<or> (case at_ShieldValBal tx of None \<Rightarrow> False | Some b \<Rightarrow> \<not> IsZeroBigInt b)"

definition isP2CS :: "string list \<Rightarrow> bool" where
  "isP2CS addrs \<longleftrightarrow> length addrs = 2 \<and> addrs ! 0 \<noteq> [] \<and> (hd (addrs ! 0) = CHR ''S'' \<or> hd (addrs ! 0) = CHR ''W'')"

definition isOwnAddress :: "TemplateData \<Rightarrow> string \<Rightarrow> bool" where
  "isOwnAddress td a \<longleftrightarrow> a = td_AddrStr td \<or> (case td_Address td of None \<Rightarrow> False | Some ac \<Rightarrow> mapGet (ac_XPubAddresses ac) a \<noteq> None)"

definition isOwnAddresses :: "TemplateData \<Rightarrow> string list \<Rightarrow> bool" where
  "isOwnAddresses td addresses \<longleftrightarrow> length addresses = 1 \<and> isOwnAddress td (addresses ! 0)"

definition setTxToTemplateData :: "TemplateData \<Rightarrow> api_tx \<Rightarrow> TemplateData" where
  "setTxToTemplateData td tx = td\<lparr>td_Tx := Some tx\<rparr>"

text \<open>
  A supply with spaces after thousands. The number is its sign and what \<open>strconv.FormatFloat\<close>
  prints of it. The loop writes \<open>out\<close> from its end: \<open>i\<close> reads the digits, \<open>j\<close> is the place, \<open>k\<close>
  counts the digits of the group.
\<close>

fun supplyLoop :: "string \<Rightarrow> nat \<Rightarrow> int \<Rightarrow> nat \<Rightarrow> string \<Rightarrow> string res" where
  "supplyLoop inp i j k out =
     bindR (indexR inp (int i)) (\<lambda>c.
     bindR (indexR out j) (\<lambda>_.
     let out = out[nat j := c]
     in case i of
          0 \<Rightarrow> Ok out
        | Suc i' \<Rightarrow>
            if k + 1 = 3
            then bindR (indexR out (j - 1)) (\<lambda>_. supplyLoop inp i' (j - 2) 0 (out[nat (j - 1) := CHR '' '']))
            else supplyLoop inp i' (j - 1) (k + 1) out))"

definition splitPoint :: "string \<Rightarrow> string \<times> string option" where
  "splitPoint s =
     (let ip = takeWhile (\<lambda>c. c \<noteq> CHR ''.'') s
      in (ip, if length ip < length s then Some (takeWhile (\<lambda>c. c \<noteq> CHR ''.'') (drop (length ip + 1) s)) else None))"

definition formatSupply :: "int \<Rightarrow> string \<Rightarrow> string res" where
  "formatSupply sign text =
     (if sign = 0 then Ok ''0.00''
      else let (inp, frac) = splitPoint text
           in bindR (case frac of None \<Rightarrow> Ok [] | Some f \<Rightarrow> sliceR f 0 2) (\<lambda>decimals.
              let numOfDigits = int (length inp) - (if sign < 0 then 1 else 0);
                  numOfSpaces = (if numOfDigits \<ge> 1 then (numOfDigits - 1) div 3 else 0);
                  out = replicate (nat (int (length inp) + numOfSpaces)) (CHR 0x00)
              in bindR (if sign < 0 then bindR (sliceFromR inp 1) (\<lambda>inp. Ok (inp, out[0 := CHR ''-''])) else Ok (inp, out)) (\<lambda>(inp, out).
                 bindR (supplyLoop inp (length inp - 1) (int (length out) - 1) 0 out) (\<lambda>out.
                 Ok (if decimals = [] then out else out @ ''.'' @ decimals)))))"

section \<open>Pages\<close>

definition blocksOnPage :: int where "blocksOnPage = 50"
definition mempoolTxsOnPage :: int where "mempoolTxsOnPage = 50"

definition explorerTx :: "('db, 'a, 'k) public_env \<Rightarrow> http_request \<Rightarrow> ('db, page) req" where
  "explorerTx E r =
     (case lastPart (hr_Path r) of
        None \<Rightarrow> onRes (Err (Panic ''nil pointer dereference''))
      | Some txid \<Rightarrow>
          bindQ (onDb (GetTransaction_api (pubApi E) txid False True)) (\<lambda>tx.
          pageData E (\<lambda>data. Page (if IsShield tx then shieldTxTpl else txTpl) (data\<lparr>td_Tx := Some tx\<rparr>))))"

text \<open>\<open>strings.Split\<close> at slashes.\<close>

fun splitSlash :: "string \<Rightarrow> string list" where
  "splitSlash [] = [[]]"
| "splitSlash (c # cs) = (if c = CHR ''/'' then [] # splitSlash cs else (case splitSlash cs of [] \<Rightarrow> [[c]] | p # ps \<Rightarrow> (c # p) # ps))"

definition explorerSpendingTx :: "('db, 'a, 'k) public_env \<Rightarrow> http_request \<Rightarrow> ('db, page) req" where
  "explorerSpendingTx E r =
     (let parts = splitSlash (hr_Path r); notFound = failQ ''Transaction not found''
      in if length parts > 2
         then case atoi (last parts) of
                None \<Rightarrow> notFound
              | Some n \<Rightarrow>
                  catchQ (onDb (GetSpendingTxid (pubApi E) (parts ! (length parts - 2)) n)) (\<lambda>_. notFound)
                    (\<lambda>spendingTx. if spendingTx \<noteq> [] then onRes (Ok (Redirect (joinURL ''/tx/'' spendingTx))) else notFound)
         else notFound)"

definition withPaging :: "int \<Rightarrow> int \<Rightarrow> TemplateData \<Rightarrow> TemplateData" where
  "withPaging page totalPages data =
     (let (r, pp, np) = getPagingRange page totalPages in data\<lparr>td_Page := page, td_PagingRange := r, td_PrevPage := pp, td_NextPage := np\<rparr>)"

definition withFilter :: "string \<Rightarrow> TemplateData \<Rightarrow> TemplateData" where
  "withFilter filterParam data =
     (if filterParam \<noteq> [] then data\<lparr>td_PageParams := ''&filter='' @ filterParam, td_Filter := filterParam\<rparr> else data)"

text \<open>An address is shown as an account without addresses.\<close>

definition asAccount :: "Address \<Rightarrow> Account" where
  "asAccount a = Address.extend a (Account.fields 0 [] [])"

definition explorerAddress :: "('db, 'a, 'k) public_env \<Rightarrow> http_request \<Rightarrow> ('db, page) req" where
  "explorerAddress E r =
     (let addressParam = pathParam r
      in if addressParam = [] then failQ ''Missing address''
         else bindQ (onRes (getAddressQueryParams r AccountDetailsTxHistory wsTxsOnPage)) (\<lambda>q.
              bindQ (onDb (GetAddress (pubApi E) addressParam (aq_page q) wsTxsOnPage AccountDetailsTxHistory (aq_filter q))) (\<lambda>address.
              pageData E (\<lambda>data. Page addressTpl (withFilter (aq_filterParam q) (withPaging (pg_Page address) (pg_TotalPages address)
                (data\<lparr>td_AddrStr := ad_AddrStr address, td_Address := Some (asAccount address)\<rparr>)))))))"

definition explorerXpub :: "('db, 'a, 'k) public_env \<Rightarrow> http_request \<Rightarrow> ('db, page) req" where
  "explorerXpub E r =
     (let xpub = pathParam r
      in if xpub = [] then failQ ''Missing xpub''
         else bindQ (onRes (getAddressQueryParams r AccountDetailsTxHistoryLight wsTxsOnPage)) (\<lambda>q.
              bindQ (accountReq E xpub (aq_page q) wsTxsOnPage AccountDetailsTxHistoryLight (aq_filter q) (aq_gap q)) (\<lambda>address.
              pageData E (\<lambda>data. Page xpubTpl ((withFilter (aq_filterParam q) (withPaging (pg_Page address) (pg_TotalPages address)
                (data\<lparr>td_AddrStr := ad_AddrStr address, td_Address := Some address\<rparr>)))
                \<lparr>td_NonZeroBalanceTokens := (af_TokensToReturn (aq_filter q) = TokensToReturnNonzeroBalance)\<rparr>)))))"

definition explorerBlocks :: "('db, 'a, 'k) public_env \<Rightarrow> http_request \<Rightarrow> ('db, page) req" where
  "explorerBlocks E r =
     bindQ (onDb (readA (\<lambda>db. GetBlocks (aw_deps (pubApi E)) db (intParam r ''page'' 0) blocksOnPage))) (\<lambda>blocks.
     pageData E (\<lambda>data. Page blocksTpl (withPaging (pg_Page (fst blocks)) (pg_TotalPages (fst blocks)) (data\<lparr>td_Blocks := Some blocks\<rparr>))))"

definition explorerBlock :: "('db, 'a, 'k) public_env \<Rightarrow> http_request \<Rightarrow> ('db, page) req" where
  "explorerBlock E r =
     (case lastPart (hr_Path r) of
        None \<Rightarrow> onRes (Err (Panic ''nil pointer dereference''))
      | Some bid \<Rightarrow>
          bindQ (onDb (GetBlock_api (pubApi E) bid (intParam r ''page'' 0) wsTxsOnPage)) (\<lambda>block.
          pageData E (\<lambda>data. Page blockTpl (withPaging (pg_Page (fst block)) (pg_TotalPages (fst block)) (data\<lparr>td_Block := Some block\<rparr>)))))"

definition explorerIndex :: "('db, 'a, 'k) public_env \<Rightarrow> http_request \<Rightarrow> ('db, page) req" where
  "explorerIndex E r =
     bindQ (onDb (GetSystemInfo E False)) (\<lambda>si.
     bindQ (onDb (readA (\<lambda>db. GetBlocks (aw_deps (pubApi E)) db 0 5))) (\<lambda>blocks.
     pageData E (\<lambda>data. Page indexTpl (data\<lparr>td_Info := Some si, td_Blocks := Some blocks\<rparr>))))"

definition explorerStatus :: "('db, 'a, 'k) public_env \<Rightarrow> http_request \<Rightarrow> ('db, page) req" where
  "explorerStatus E r =
     bindQ (onDb (GetSystemInfo E False)) (\<lambda>si. pageData E (\<lambda>data. Page statusTpl (data\<lparr>td_Info := Some si\<rparr>)))"

text \<open>\<open>strings.TrimSpace\<close> on the spaces of ASCII.\<close>

definition isSpace :: "char \<Rightarrow> bool" where
  "isSpace c \<longleftrightarrow> c \<in> {CHR '' '', CHR 0x09, CHR 0x0A, CHR 0x0B, CHR 0x0C, CHR 0x0D}"

definition trimSpace :: "string \<Rightarrow> string" where
  "trimSpace s = rev (dropWhile isSpace (rev (dropWhile isSpace s)))"

definition plainFilter :: AddressFilter where
  "plainFilter = \<lparr>af_Vout = AddressFilterVoutOff, af_FromHeight = 0, af_ToHeight = 0, af_TokensToReturn = TokensToReturnNonzeroBalance, af_OnlyConfirmed = False\<rparr>"

definition explorerSearch :: "('db, 'a, 'k) public_env \<Rightarrow> http_request \<Rightarrow> ('db, page) req" where
  "explorerSearch E r =
     (let q = trimSpace (queryGet r ''q'');
          w = pubApi E;
          notFound = failQ (''No matching records found for '' @ quoted q)
      in if q = [] then notFound
         else catchQ (accountReq E q 0 1 AccountDetailsBasic plainFilter 0)
           (\<lambda>_. catchQ (onDb (GetBlock_api w q 0 1))
             (\<lambda>_. catchQ (onDb (GetTransaction_api w q False False))
               (\<lambda>_. catchQ (onDb (GetAddress w q 0 1 AccountDetailsBasic plainFilter))
                 (\<lambda>_. notFound)
                 (\<lambda>address. onRes (Ok (Redirect (joinURL ''/address/'' (ad_AddrStr address))))))
               (\<lambda>tx. onRes (Ok (Redirect (joinURL ''/tx/'' (at_Txid tx))))))
             (\<lambda>(_, block, _). onRes (Ok (Redirect (joinURL ''/block/'' (cbi_Hash block))))))
           (\<lambda>address. onRes (Ok (Redirect (joinURL ''/xpub/'' (ad_AddrStr address))))))"

definition explorerSendTx :: "('db, 'a, 'k) public_env \<Rightarrow> http_request \<Rightarrow> ('db, page) req" where
  "explorerSendTx E r =
     (let shown = (\<lambda>f. pageData E (\<lambda>data. Page sendTransactionTpl (f data)));
          failed = (\<lambda>text f. shown (\<lambda>data. (f data)\<lparr>td_Error := Some (text, True)\<rparr>))
      in if hr_Method r = ''POST''
         then catchQ (onRes (hr_FormHex r)) (\<lambda>_. failed ''Invalid transaction form'' (\<lambda>data. data)) (\<lambda>hex.
              if hex \<noteq> []
              then catchQ (onRes (validateSignedTransactionHex hex)) (\<lambda>e. failed (errorText e) (\<lambda>data. data)) (\<lambda>_.
                   catchQ (onRes (we_SendRawTransaction (pe_ws E) hex)) (\<lambda>e. failed (errorText e) (\<lambda>data. data\<lparr>td_SendTxHex := hex\<rparr>)) (\<lambda>res.
                   shown (\<lambda>data. data\<lparr>td_Status := ''Transaction sent, result '' @ res\<rparr>)))
              else shown (\<lambda>data. data))
         else shown (\<lambda>data. data))"

definition explorerMempool :: "('db, 'a, 'k) public_env \<Rightarrow> http_request \<Rightarrow> ('db, page) req" where
  "explorerMempool E r =
     bindQ (onRes (GetMempool (aw_mempool (pubApi E)) (intParam r ''page'' 0) mempoolTxsOnPage)) (\<lambda>m.
     pageData E (\<lambda>data. Page mempoolTpl (withPaging (pg_Page (fst m)) (pg_TotalPages (fst m)) (data\<lparr>td_MempoolTxids := Some m\<rparr>))))"

section \<open>Answers and routes\<close>

text \<open>A page with its status; without the shared state even the page of the error cannot be built.\<close>

datatype html_answer = HtmlRedirect string | HtmlPage tpl TemplateData int | HtmlAborted

definition relativeURL :: "http_request \<Rightarrow> TemplateData \<Rightarrow> TemplateData" where
  "relativeURL r data = data\<lparr>td_RelativeURL := (if hr_Path r = ''/'' then [] else hr_Path r)\<rparr>"

fun htmlError :: "('db, 'a, 'k) public_env \<Rightarrow> http_request \<Rightarrow> InternalState \<Rightarrow> go_error \<Rightarrow> html_answer" where
  "htmlError E r is (APIError text public) =
     (let data = relativeURL r ((newTemplateData E is)\<lparr>td_Error := Some (text, public)\<rparr>)
      in if public then HtmlPage errorTpl data 200 else HtmlPage errorInternalTpl data 500)"
| "htmlError E r is (Panic m) =
     HtmlPage errorInternalTpl (newTemplateDataWithError E is
       (if pe_debug E then ''Internal server error: recovered from panic '' @ m else ''Internal server error'')) 500"
| "htmlError E r is e =
     HtmlPage errorInternalTpl (relativeURL r (newTemplateDataWithError E is
       (if pe_debug E then ''Internal server error: '' @ pe_debugText E e else ''Internal server error''))) 500"

definition htmlTemplateHandler :: "('db, 'a, 'k) public_env \<Rightarrow> http_request \<Rightarrow> ('db, page) req \<Rightarrow> xpub_cache \<Rightarrow> 'db RocksDB
    \<Rightarrow> xpub_cache \<times> 'db RocksDB \<times> html_answer" where
  "htmlTemplateHandler E r m cache d =
     (case m cache d of
        (cache, d, Inr (Redirect u)) \<Rightarrow> (cache, d, HtmlRedirect u)
      | (cache, d, Inr (Page t data)) \<Rightarrow> (cache, d, HtmlPage t (relativeURL r data) (if t = errorInternalTpl then 500 else 200))
      | (cache, d, Inl e) \<Rightarrow> (cache, d, case d_is d of None \<Rightarrow> HtmlAborted | Some is \<Rightarrow> htmlError E r is e))"

definition txRedirect :: "('db, 'a, 'k) public_env \<Rightarrow> http_request \<Rightarrow> string" where
  "txRedirect E r = joinURL (pe_explorerURL E) (hr_Path r)"

definition addressRedirect :: "('db, 'a, 'k) public_env \<Rightarrow> http_request \<Rightarrow> string" where
  "addressRedirect E r = joinURL (pe_explorerURL E) (hr_Path r)"

datatype ('db, 'a, 'k) route =
    StaticRoute
  | SocketRoute
  | RedirectRoute "('db, 'a, 'k) public_env \<Rightarrow> http_request \<Rightarrow> string"
  | PageRoute "('db, 'a, 'k) public_env \<Rightarrow> http_request \<Rightarrow> ('db, page) req"
  | JsonRoute "('db, 'a, 'k) api_handler" api_version

definition explorerRoutes :: "string \<Rightarrow> bool \<Rightarrow> (string \<times> ('db, 'a, 'k) route) list" where
  "explorerRoutes path own =
     (if own
      then [(path @ ''tx/'', PageRoute explorerTx), (path @ ''address/'', PageRoute explorerAddress), (path @ ''xpub/'', PageRoute explorerXpub),
            (path @ ''search/'', PageRoute explorerSearch), (path @ ''blocks'', PageRoute explorerBlocks), (path @ ''block/'', PageRoute explorerBlock),
            (path @ ''spending/'', PageRoute explorerSpendingTx), (path @ ''sendtx'', PageRoute explorerSendTx), (path @ ''mempool'', PageRoute explorerMempool)]
      else [(path @ ''tx/'', RedirectRoute txRedirect), (path @ ''address/'', RedirectRoute addressRedirect)])"

definition publicRoutes :: "('db, 'a, 'k) public_env \<Rightarrow> (string \<times> ('db, 'a, 'k) route) list" where
  "publicRoutes E =
     (let path = snd (splitBinding (pe_binding E))
      in [(path @ ''favicon.ico'', StaticRoute), (path @ ''static/'', StaticRoute), (path, PageRoute explorerIndex), (path @ ''status'', PageRoute explorerStatus)]
         @ explorerRoutes path (internalExplorer E)
         @ map (\<lambda>(pattern, h, v). (pattern, JsonRoute h v)) (apiRoutes path)
         @ [(path @ ''websocket'', SocketRoute)])"

text \<open>
  \<open>http.ServeMux\<close>: a pattern that ends with a slash stands for all paths below it, another one for
  itself, and the longest pattern that fits is taken. Registering a pattern twice panics.
\<close>

definition muxFits :: "string \<Rightarrow> string \<Rightarrow> bool" where
  "muxFits pattern path \<longleftrightarrow> pattern = path \<or> pattern \<noteq> [] \<and> last pattern = CHR ''/'' \<and> take (length pattern) path = pattern"

definition muxHandler :: "(string \<times> 'h) list \<Rightarrow> string \<Rightarrow> 'h option" where
  "muxHandler routes path =
     map_option snd (foldl (\<lambda>best (pattern, h). if muxFits pattern path
       then (case best of None \<Rightarrow> Some (pattern, h) | Some (q, g) \<Rightarrow> if length pattern > length q then Some (pattern, h) else best)
       else best) None routes)"

text \<open>The page of the internal server.\<close>

definition internalIndex :: "('db, 'a, 'k) public_env \<Rightarrow> 'db RocksDB \<Rightarrow> 'db RocksDB \<times> (BlockbookInfo \<times> BackendInfo, int) sum" where
  "internalIndex E d = (case GetSystemInfo E True d of (d, Inl e) \<Rightarrow> (d, Inr 500) | (d, Inr si) \<Rightarrow> (d, Inl si))"

section \<open>Properties\<close>

text \<open>
  The neighbours of a list of page numbers: dots stand exactly where numbers are left out.
\<close>

fun dotsExact :: "int list \<Rightarrow> bool" where
  "dotsExact (a # b # xs) =
     (if b = 0 then (case xs of [] \<Rightarrow> False | c # _ \<Rightarrow> a + 1 < c \<and> dotsExact xs) else a + 1 = b \<and> dotsExact (b # xs))"
| "dotsExact xs \<longleftrightarrow> True"

lemma dotsExact_upto: "1 \<le> a \<Longrightarrow> dotsExact [a..b]"
proof (induction "nat (b - a)" arbitrary: a)
  case 0
  then show ?case by (cases "a = b") (simp_all add: upto.simps)
next
  case (Suc n)
  then have "[a..b] = a # (a + 1) # [a + 2..b]" by (simp add: upto_rec1 add.assoc)
  moreover have "dotsExact [a + 1..b]" using Suc by simp
  moreover have "[a + 1..b] = (a + 1) # [a + 2..b]" using Suc by (simp add: upto_rec1 add.assoc)
  ultimately show ?case using Suc by simp
qed

text \<open>
  C40: for a page of at least two pages the buttons run from the first to the last page in order,
  with dots exactly where pages are left out. The page itself and its neighbours are among them, the
  buttons to the pages before and after stay inside, and there are at most seven entries.
\<close>

theorem getPagingRange_exact:
  assumes "2 \<le> totalPages" "1 \<le> page" "page \<le> totalPages"
  shows "case getPagingRange page totalPages of (r, pp, np) \<Rightarrow>
    r \<noteq> [] \<and> hd r = 1 \<and> last r = totalPages \<and> dotsExact r \<and> length r \<le> 7 \<and> {page, pp, np} \<subseteq> set r
    \<and> pp = max 1 (page - 1) \<and> np = min totalPages (page + 1)"
proof (cases "totalPages < 6")
  case True
  have "last [1..totalPages] = totalPages" "hd [1..totalPages] = 1" "[1..totalPages] \<noteq> []"
    using assms(1) by (simp add: upto_rec2, simp_all add: upto_rec1)
  moreover have "length [1..totalPages] \<le> 7" using True by simp
  ultimately show ?thesis using True assms by (auto simp: getPagingRange_def Let_def dotsExact_upto max_def min_def)
next
  case False
  consider "page = 1" | "page = 2" | "page = 3" | "page = totalPages" "4 \<le> page" | "page = totalPages - 1" "4 \<le> page"
    | "4 \<le> page" "page = totalPages - 2" | "4 \<le> page" "page \<le> totalPages - 3"
    using assms by linarith
  then show ?thesis using False assms by cases (auto simp: getPagingRange_def Let_def)
qed

text \<open>C40: the fifth of nine pages.\<close>

theorem getPagingRange_exact_witness:
  "getPagingRange 5 9 = ([1, 0, 4, 5, 6, 0, 9], 4, 6) \<and> (case getPagingRange 5 9 of (r, pp, np) \<Rightarrow> dotsExact r \<and> {5, pp, np} \<subseteq> set r)"
  using getPagingRange_exact [of 9 5] by (auto simp: getPagingRange_def)

text \<open>The reference for supplies: groups of three digits from the right.\<close>

function thousands :: "string \<Rightarrow> string" where
  "thousands s = (if length s \<le> 3 then s else thousands (take (length s - 3) s) @ CHR '' '' # drop (length s - 3) s)"
  by auto
termination by (relation "measure length") auto

declare thousands.simps [simp del]

text \<open>The digits from the right, \<open>k\<close> of the group being written already.\<close>

fun grouped :: "nat \<Rightarrow> string \<Rightarrow> string" where
  "grouped k (x # y # r) = (if k + 1 = 3 then x # CHR '' '' # grouped 0 (y # r) else x # grouped (k + 1) (y # r))"
| "grouped k xs = xs"

lemma grouped_short: "length t \<le> 3 \<Longrightarrow> grouped 0 t = t"
  by (cases t; cases "tl t"; cases "tl (tl t)") auto

lemma drop_written: "n < length xs \<Longrightarrow> drop n (xs[n := v]) = v # drop (Suc n) xs"
  by (metis Cons_nth_drop_Suc drop_update_cancel length_list_update lessI nth_list_update_eq)

declare supplyLoop.simps [simp del]

lemma grouped_thousands: "grouped 0 (rev s) = rev (thousands s)"
proof (induction s rule: thousands.induct)
  case (1 s)
  show ?case
  proof (cases "length s \<le> 3")
    case True
    then show ?thesis by (simp add: thousands.simps grouped_short)
  next
    case False
    then have "4 \<le> length (rev s)" by simp
    then obtain a b c r where r: "rev s = a # b # c # r" "r \<noteq> []"
      by (cases "rev s"; cases "tl (rev s)"; cases "tl (tl (rev s))"; cases "tl (tl (tl (rev s)))") auto
    then have s: "s = rev r @ [c, b, a]" by (metis append.assoc append_Cons append_Nil rev.simps(2) rev_rev_ident)
    have "grouped 0 (rev s) = a # b # c # CHR '' '' # grouped 0 r" using r by (cases r) simp_all
    moreover have "grouped 0 r = rev (thousands (rev r))" using 1 False by (simp add: s)
    ultimately show ?thesis using False by (simp add: s thousands.simps [of "rev r @ [c, b, a]"])
  qed
qed

lemma supplyLoop_run:
  assumes "i < length inp" "k < 3" "j = int (p + i + (i + k) div 3)" "nat j < length out"
  shows "supplyLoop inp i j k out = Ok (take p out @ rev (grouped k (rev (take (Suc i) inp))) @ drop (nat j + 1) out)"
  using assms
proof (induction i arbitrary: j k out)
  case 0
  then have j: "j = int p" by simp
  have "take (Suc 0) inp = [inp ! 0]" using 0(1) by (cases inp) auto
  moreover have "out[p := inp ! 0] = take p out @ inp ! 0 # drop (Suc p) out" using 0 j by (simp add: upd_conv_take_nth_drop)
  ultimately show ?case using 0 j by (simp add: indexR_def supplyLoop.simps [of inp 0])
next
  case (Suc i)
  have tk: "rev (take (Suc (Suc i)) inp) = inp ! Suc i # inp ! i # rev (take i inp)"
    using Suc.prems(1) by (simp add: take_Suc_conv_app_nth)
  have read: "indexR inp (int (Suc i)) = Ok (inp ! Suc i)" "indexR out j = Ok (out ! nat j)"
    using Suc.prems by (simp_all add: indexR_def nat_less_iff del: of_nat_Suc)
  show ?case
  proof (cases "k + 1 = 3")
    case True
    then have j: "j = int (p + i + i div 3 + 2)" using Suc.prems(3) by simp
    have "supplyLoop inp i (j - 2) 0 (out[nat j := inp ! Suc i, nat (j - 1) := CHR '' ''])
        = Ok (take p (out[nat j := inp ! Suc i, nat (j - 1) := CHR '' '']) @ rev (grouped 0 (rev (take (Suc i) inp))) @ drop (nat (j - 2) + 1) (out[nat j := inp ! Suc i, nat (j - 1) := CHR '' '']))"
      using Suc.prems j by (intro Suc.IH) auto
    moreover have "drop (nat (j - 2) + 1) (out[nat j := inp ! Suc i, nat (j - 1) := CHR '' '']) = CHR '' '' # inp ! Suc i # drop (nat j + 1) out"
    proof -
      have n: "nat (j - 2) + 1 = nat (j - 1)" "nat j = Suc (nat (j - 1))" using j by auto
      show ?thesis using Suc.prems(4) n by (simp add: drop_written)
    qed
    moreover have "supplyLoop inp (Suc i) j k out = supplyLoop inp i (j - 2) 0 (out[nat j := inp ! Suc i, nat (j - 1) := CHR '' ''])"
    proof -
      have "\<exists>x. indexR (out[nat j := inp ! Suc i]) (j - 1) = Ok x" using Suc.prems(4) j by (simp add: indexR_def)
      then show ?thesis using True by (auto simp: supplyLoop.simps [of inp "Suc i"] read simp del: of_nat_Suc)
    qed
    moreover have "take p (out[nat j := inp ! Suc i, nat (j - 1) := CHR '' '']) = take p out" using j by simp
    ultimately show ?thesis using True tk by (simp add: take_Suc_conv_app_nth Suc_lessD [OF Suc.prems(1)])
  next
    case False
    then have j: "j - 1 = int (p + i + (i + (k + 1)) div 3)" "0 < j" using Suc.prems(2,3) by auto
    have "supplyLoop inp i (j - 1) (k + 1) (out[nat j := inp ! Suc i])
        = Ok (take p (out[nat j := inp ! Suc i]) @ rev (grouped (k + 1) (rev (take (Suc i) inp))) @ drop (nat (j - 1) + 1) (out[nat j := inp ! Suc i]))"
      using Suc.prems j False by (intro Suc.IH) auto
    moreover have "drop (nat (j - 1) + 1) (out[nat j := inp ! Suc i]) = inp ! Suc i # drop (nat j + 1) out"
      using Suc.prems(4) j(2) by (simp add: drop_written Suc_nat_eq_nat_zadd1)
    moreover have "supplyLoop inp (Suc i) j k out = supplyLoop inp i (j - 1) (k + 1) (out[nat j := inp ! Suc i])"
      using False by (simp add: supplyLoop.simps [of inp "Suc i"] read del: of_nat_Suc)
    moreover have "take p (out[nat j := inp ! Suc i]) = take p out" using j by simp
    ultimately show ?thesis using False tk by (simp add: take_Suc_conv_app_nth Suc_lessD [OF Suc.prems(1)])
  qed
qed

lemma supplyLoop_all:
  assumes "length ip = Suc n" "length zs = Suc n + n div 3"
  shows "supplyLoop ip n (int (length (pre @ zs)) - 1) 0 (pre @ zs) = Ok (pre @ thousands ip)"
  using supplyLoop_run [of n ip 0 "int (length (pre @ zs)) - 1" "length pre" "pre @ zs"] assms by (simp add: grouped_thousands nat_add_distrib)

lemma splitPoint_text:
  assumes "CHR ''.'' \<notin> set ip" "\<And>f. frac = Some f \<Longrightarrow> CHR ''.'' \<notin> set f"
  shows "splitPoint (ip @ (case frac of None \<Rightarrow> [] | Some f \<Rightarrow> CHR ''.'' # f)) = (ip, frac)"
proof -
  have all: "CHR ''.'' \<notin> set xs \<Longrightarrow> takeWhile (\<lambda>c. c \<noteq> CHR ''.'') xs = xs" for xs by (induction xs) auto
  have tail: "takeWhile (\<lambda>c. c \<noteq> CHR ''.'') (ip @ CHR ''.'' # f) = ip" for f using assms(1) by (induction ip) auto
  show ?thesis using assms by (cases frac) (simp_all add: splitPoint_def Let_def all tail)
qed

lemma thousands_digits: "CHR '' '' \<notin> set s \<Longrightarrow> filter (\<lambda>c. c \<noteq> CHR '' '') (thousands s) = s"
proof (induction s rule: thousands.induct)
  case (1 s)
  have all: "filter (\<lambda>c. c \<noteq> CHR '' '') xs = xs" if "CHR '' '' \<notin> set xs" for xs using that by (induction xs) auto
  show ?case
  proof (cases "length s \<le> 3")
    case False
    have "CHR '' '' \<notin> set (take (length s - 3) s)" "CHR '' '' \<notin> set (drop (length s - 3) s)"
      using "1.prems" by (auto dest: in_set_takeD in_set_dropD)
    then show ?thesis using 1 False by (simp add: thousands.simps [of s] all)
  qed (use 1 in \<open>simp add: thousands.simps all\<close>)
qed

text \<open>
  A supply other than 0 is printed with its sign, its integer part in groups of three digits
  from the right, and two decimals if it has any; the array made for it has exactly the size that is
  needed. Without the spaces the integer part is unchanged.
\<close>

theorem formatSupply_groups:
  assumes "sign \<noteq> 0" "ip \<noteq> []" "CHR ''.'' \<notin> set ip" "CHR '' '' \<notin> set ip"
    and "\<And>f. frac = Some f \<Longrightarrow> CHR ''.'' \<notin> set f \<and> 2 \<le> length f"
  shows "formatSupply sign ((if sign < 0 then ''-'' else []) @ ip @ (case frac of None \<Rightarrow> [] | Some f \<Rightarrow> CHR ''.'' # f))
      = Ok ((if sign < 0 then ''-'' else []) @ thousands ip @ (case frac of None \<Rightarrow> [] | Some f \<Rightarrow> CHR ''.'' # take 2 f))
    \<and> filter (\<lambda>c. c \<noteq> CHR '' '') (thousands ip) = ip"
proof -
  let ?sg = "if sign < 0 then ''-'' else ([] :: string)" let ?p = "if sign < 0 then 1 else (0 :: nat)"
  define n where "n = length ip - 1"
  have len: "length ip = Suc n" using assms(2) by (simp add: n_def)
  have split: "splitPoint ((?sg @ ip) @ (case frac of None \<Rightarrow> [] | Some f \<Rightarrow> CHR ''.'' # f)) = (?sg @ ip, frac)"
    using assms(3,5) by (intro splitPoint_text) auto
  have d: "int n div 3 = int (n div 3)" by (simp add: zdiv_int)
  have dec: "(case frac of None \<Rightarrow> Ok [] | Some f \<Rightarrow> sliceR f 0 2) = Ok (case frac of None \<Rightarrow> [] | Some f \<Rightarrow> take 2 f)"
    using assms(5) by (auto simp: sliceR_def split: option.splits)
  have "formatSupply sign ((?sg @ ip) @ (case frac of None \<Rightarrow> [] | Some f \<Rightarrow> CHR ''.'' # f))
      = Ok ((?sg @ thousands ip) @ (case frac of None \<Rightarrow> [] | Some f \<Rightarrow> CHR ''.'' # take 2 f))"
  proof (cases "sign < 0")
    case True
    have "formatSupply sign ((?sg @ ip) @ (case frac of None \<Rightarrow> [] | Some f \<Rightarrow> CHR ''.'' # f))
        = bindR (supplyLoop ip n (int (length (''-'' @ replicate (Suc n + n div 3) (CHR 0x00))) - 1) 0 (''-'' @ replicate (Suc n + n div 3) (CHR 0x00)))
            (\<lambda>out. Ok (if (case frac of None \<Rightarrow> [] | Some f \<Rightarrow> take 2 f) = [] then out else out @ ''.'' @ (case frac of None \<Rightarrow> [] | Some f \<Rightarrow> take 2 f)))"
      unfolding formatSupply_def split using True assms(1) by (simp add: dec sliceFromR_def sliceR_def len n_def [symmetric] d nat_add_distrib)
    then show ?thesis using True assms(5) unfolding supplyLoop_all [OF len length_replicate] by (auto split: option.splits)
  next
    case False
    have "formatSupply sign ((?sg @ ip) @ (case frac of None \<Rightarrow> [] | Some f \<Rightarrow> CHR ''.'' # f))
        = bindR (supplyLoop ip n (int (length ([] @ replicate (Suc n + n div 3) (CHR 0x00))) - 1) 0 ([] @ replicate (Suc n + n div 3) (CHR 0x00)))
            (\<lambda>out. Ok (if (case frac of None \<Rightarrow> [] | Some f \<Rightarrow> take 2 f) = [] then out else out @ ''.'' @ (case frac of None \<Rightarrow> [] | Some f \<Rightarrow> take 2 f)))"
      unfolding formatSupply_def split using False assms(1) by (simp add: dec len n_def [symmetric] d nat_add_distrib)
    then show ?thesis using False assms(5) unfolding supplyLoop_all [OF len length_replicate] by (auto split: option.splits)
  qed
  then show ?thesis using thousands_digits [OF assms(4)] by simp
qed

text \<open>Applied at minus 1234567.891.\<close>

theorem formatSupply_groups_witness: "formatSupply (- 1) ''-1234567.891'' = Ok ''-1 234 567.89''"
proof -
  have "thousands ''1234567'' = ''1 234 567''" by (simp add: thousands.simps)
  then show ?thesis using formatSupply_groups [of "- 1" "''1234567''" "Some ''891''"] by simp
qed

text \<open>A number with a single decimal makes the page panic.\<close>

lemma formatSupply_one_decimal_panics: "formatSupply 1 ''12.5'' = Err (Panic ''slice bounds out of range'')"
  by (simp add: formatSupply_def splitPoint_def sliceR_def)

text \<open>No pattern is registered twice.\<close>

lemma publicRoutes_distinct: "distinct (map fst (publicRoutes E))"
  by (simp add: publicRoutes_def explorerRoutes_def apiRoutes_def Let_def)

text \<open>
  A height of more than 32 bits is cut to 32 bits: the hash of another block is answered.
\<close>

lemma apiBlockIndex_wraps:
  assumes "lastPart (hr_Path r) = Some p" "atoi p = Some (2 ^ 32 + h)" "0 \<le> h"
    and "lastPart (hr_Path r') = Some p'" "atoi p' = Some h"
  shows "apiBlockIndex E r v = apiBlockIndex E r' v"
proof -
  have "(of_int (2 ^ 32 + h) :: u32) = of_int h" by (simp flip: word_of_int_2p_len)
  then show ?thesis using assms by (simp only: apiBlockIndex_def option.case Let_def) simp
qed

text \<open>Every request for a history is brought within the limits, whatever its parameters are.\<close>

lemma getAddressQueryParams_limits:
  assumes "1 \<le> maxPageSize"
  shows "\<exists>q. getAddressQueryParams r details maxPageSize = Ok q \<and> 1 \<le> aq_pageSize q \<and> aq_pageSize q \<le> maxPageSize
    \<and> 1 \<le> aq_page q \<and> (aq_page q = 1 \<or> aq_page q * aq_pageSize q \<le> 100000)"
  using normalizeAddressPaging_window [of maxPageSize maxPageSize "intParam r ''page'' 1" "intParam r ''pageSize'' 0"] assms
  by (auto simp: getAddressQueryParams_def Let_def maxAddressHistoryResults_def)

end
