(* ===== verification/Spec2Isabelle.thy ===== *)
theory Spec2Isabelle
  imports StoredOutputs Disconnect TxStore Mempool ParallelSync PivxParser Limits Explorer
begin

text \<open>
  A verification development of organic-blockbook, the indexer and explorer of OrganicLifeCoin.

  \<^bold>\<open>The program.\<close> A node of the coin is followed over RPC. Every block is parsed
  (\<open>src/bchain/coins\<close>) and written into a RocksDB database of several columns (\<open>src/db\<close>): the
  transactions of each address, the balance and unspent outputs of each address, the addresses of
  each transaction, the headers, and for the last blocks what is needed to disconnect them.
  \<open>src/bchain\<close> keeps the mempool, \<open>src/common\<close> the shared state, \<open>src/api\<close> and \<open>src/server\<close>
  answer requests.

  \<^bold>\<open>Parts and theories.\<close>
  \<^item> Prelude: results with errors and panics, slices, Go maps as association lists, bytes as numbers.
  \<^item> Codec, DbRecords, AddrBalances (\<open>src/db/rocksdb.go\<close>): the byte formats of keys and records,
    among them \<open>packBigint\<close> word by word, and the balance of an address with its index of unspent
    outputs. The locale \<open>prefix_codec\<close> states what a record in the middle of a buffer needs and is
    interpreted for each format; the lemmas show that records read back and that keys of one
    address sort newest block first.
  \<^item> ChainTypes, Chain (\<open>src/bchain/types.go\<close>): transactions, blocks, the interface of a parser
    (the locale \<open>id_packing\<close> is its contract with the index, interpreted in PivxParser) and of the
    node.
  \<^item> BaseParser (\<open>src/bchain/baseparser.go\<close>): ids, decimal amounts and transactions in protobuf read
    back.
  \<^item> BitcoinParser, PivxParser, PqAddress, PqTransaction (\<open>src/bchain/coins\<close>): the parser of the
    coin. Post-quantum addresses and scripts are in bijection; a raw post-quantum transaction is
    accepted exactly when it is the reference encoding of its parts (the locale \<open>exact_reader\<close>
    composes the readers); parsed transactions are well formed; spent zerocoins have their value
    without overflow.
  \<^item> Store, RocksDb, IndexReads (\<open>src/db/rocksdb.go\<close>): the database as a parameter with a contract
    (locale \<open>kv_store\<close>), \<open>ConnectBlock\<close> with everything it calls, and the scan of an address. A
    heap of \<open>TxAddresses\<close> objects keeps the aliasing of the code.
  \<^item> ConnectBlocks, StoredBlocks, StoredOutputs: crediting and debiting keep the sheet of an address
    balanced; headers, inputs and outputs of a connected block read back.
  \<^item> Disconnect: \<open>DisconnectBlockRangeBitcoinType\<close> removes exactly the blocks of its range and undoes
    the sheets.
  \<^item> InternalStates, TxStore (\<open>src/common/internalstate.go\<close>, \<open>src/db/rocksdb.go\<close>,
    \<open>src/db/txcache.go\<close>): the shared state, its checks on start, the sizes of columns, cached
    transactions.
  \<^item> Bulk (\<open>src/db/bulkconnect.go\<close>): the cache of the initial synchronisation refines direct writes,
    and the database is marked inconsistent while it is in use.
  \<^item> Mempool (\<open>src/bchain/basemempool.go\<close>, \<open>mempool_bitcoin_type.go\<close>): a resynchronisation with its
    workers as a step relation; every interleaving gives the abstract index and ends.
  \<^item> Sync, ParallelSync (\<open>src/db/sync.go\<close>): following the chain, forks, and the goroutines of the
    parallel connect as a step relation with an invariant on the heights in flight.
  \<^item> Limits (\<open>src/api/paging.go\<close>, \<open>src/server/input_limits.go\<close>, \<open>http_policy.go\<close>): pages and
    limits of requests.
  \<^item> Xpub (\<open>src/api/xpub.go\<close>): accounts of extended keys. The scan ends at a gap of unused
    addresses with the sums of all balances; the cache of accounts stays small.
  \<^item> ApiTx, ApiAddress (\<open>src/api/worker.go\<close>, \<open>types.go\<close>): the answers to requests, as actions on
    the handle of the index because reading a transaction may store it. The two views of a
    transaction agree, pages are parts of the whole list, histories and unspent outputs are exactly
    those of the index and the mempool.
  \<^item> ApiXpub (\<open>src/api/xpub.go\<close>): the answers on an account. Its history holds each transaction of
    its addresses once, newest block first. \<open>sort.Stable\<close> is a parameter, and a request works on one
    state of the index.
  \<^item> Websocket (\<open>src/server/websocket.go\<close>): queues, subscriptions and handlers, and the goroutines of
    the connections as a step relation. The locale \<open>registry\<close> states what subscriptions are and is
    interpreted for blocks and for addresses. Queues stay bounded, notifications reach exactly the
    subscribers, every request is answered once, and a connection that ended is forgotten.
  \<^item> PublicApi, Explorer (\<open>src/server/public.go\<close>, \<open>internal.go\<close>, \<open>src/api/typesv1.go\<close>): the handlers of
    the interface for programs with both formats of answers, the data of every page, errors and
    routes. The buttons between pages show the right pages, supplies are grouped correctly, and the
    parameters of a request are brought within the limits.

  \<^bold>\<open>Conventions.\<close> A struct is a record, a field \<open>F\<close> of \<open>S\<close> is \<open>s_F\<close>. Integers of a fixed width
  are words; \<open>big.Int\<close> is \<^typ>\<open>int\<close>; \<open>int\<close> is unbounded where the code cannot reach its limits
  and wrapped to 64 bits in Limits. An error is \<open>Err e\<close>, a panic \<open>Err (Panic m)\<close>. Libraries (RocksDB,
  vlq, protobuf, btcutil, hdkeychain, chainhash, JSON) are records of functions; what the proofs need of
  them is a named hypothesis, and each is met by an example that computes. Log output, metrics and
  locks are left out; a method under a lock is one step.

  \<^bold>\<open>Fuel.\<close> The loop of \<open>handleFork\<close> gets one unit for every height below the best block, which is
  enough whenever there is a common block (proved with the fork). \<open>resyncIndex\<close> and \<open>connectLoop\<close>
  take their fuel as an argument, as a node may always have another block. The scan of an account
  takes fuel too: the theorem on the gap gives the number that is enough, from the highest index
  that is used. A request for an account sees a list of states of the index, one for each round of
  its loop. Reading and packing need none.

  \<^bold>\<open>What the properties say.\<close> Round trips of every stored format; invariants of the balance of an
  address; functional behaviour of connecting, disconnecting and scanning; refinement of an abstract
  mempool index and of the direct store; order and progress of the goroutines; exactness of the
  parsers; the answers of the API; bounds of pages and limits. Lemmas named in the findings of the manifest show where the
  code does not do what it means to.

  \<^bold>\<open>Not modelled.\<close> The RPC clients, the queue of new blocks, the templates of the pages and the
  static files, the start and stop of the servers, and the command are input and output around the
  parts above. Of \<open>src/api\<close> the statistics written to the log are left out. Interruption by signals
  is left out of Sync.
\<close>

end
